(* ===== verification/Prelude.thy ===== *)
theory Prelude imports Main "HOL-Library.Char_ord" "HOL-Library.List_Lexorder"
  "HOL-Library.Code_Target_Nat" begin

text \<open>
  The prelude of the development: outcomes of Go calls (value, error, panic, or not returning
  within the observed number of retries), the combinators that compose world-passing calls the
  way Go code composes them, and the finite maps that stand for Go's \<open>map[string]string\<close>.
\<close>

section \<open>Outcomes and world-passing calls\<close>

text \<open>
  \<open>Ok v\<close> is a return with a nil error, \<open>Err e\<close> a return with the non-nil error \<open>e\<close>, \<open>Panic m\<close>
  a run-time panic (or a call to \<open>logrus.Fatal\<close>, which ends the process as well) and \<open>Hang\<close>
  a retry loop that has used up the retries the run is observed for.
\<close>

datatype ('e, 'a) outcome = Ok 'a | Err 'e | Panic string | Hang

type_synonym ('w, 'e, 'a) io = "'w \<Rightarrow> ('e, 'a) outcome \<times> 'w"

named_theorems io_defs \<comment> \<open>definitions of the combinators, unfolded together\<close>

definition ret :: "'a \<Rightarrow> ('w, 'e, 'a) io" where
  [io_defs]: "ret x w = (Ok x, w)"

definition fail :: "'e \<Rightarrow> ('w, 'e, 'a) io" where
  [io_defs]: "fail e w = (Err e, w)"

definition panic :: "string \<Rightarrow> ('w, 'e, 'a) io" where
  [io_defs]: "panic m w = (Panic m, w)"

definition hang :: "('w, 'e, 'a) io" where
  [io_defs]: "hang w = (Hang, w)"

text \<open>
  \<open>attempt m h k\<close> is \<open>v, err := m; if err != nil { h err }; k v\<close> where \<open>h\<close> returns.
\<close>

definition attempt ::
  "('w, 'e, 'a) io \<Rightarrow> ('e \<Rightarrow> ('w, 'f, 'b) io) \<Rightarrow> ('a \<Rightarrow> ('w, 'f, 'b) io) \<Rightarrow> ('w, 'f, 'b) io" where
  [io_defs]: "attempt m h k w =
     (case m w of
        (Ok x, w') \<Rightarrow> k x w'
      | (Err e, w') \<Rightarrow> h e w'
      | (Panic p, w') \<Rightarrow> (Panic p, w')
      | (Hang, w') \<Rightarrow> (Hang, w'))"

text \<open>\<open>andThen\<close> passes the error on unchanged; \<open>regardless\<close> ignores the outcome (the code logs it).\<close>

definition andThen :: "('w, 'e, 'a) io \<Rightarrow> ('a \<Rightarrow> ('w, 'e, 'b) io) \<Rightarrow> ('w, 'e, 'b) io" where
  [io_defs]: "andThen m k = attempt m fail k"

definition regardless :: "('w, 'e, 'a) io \<Rightarrow> ('w, 'f, 'b) io \<Rightarrow> ('w, 'f, 'b) io" where
  [io_defs]: "regardless m k = attempt m (\<lambda>_. k) (\<lambda>_. k)"

text \<open>\<open>deferred m c\<close> is \<open>defer c()\<close> around \<open>m\<close>: the cleanup runs whatever way \<open>m\<close> returns.\<close>

definition deferred :: "('w, 'e, 'a) io \<Rightarrow> ('w, 'f, 'b) io \<Rightarrow> ('w, 'e, 'a) io" where
  [io_defs]: "deferred m c w =
     (case m w of (Hang, w') \<Rightarrow> (Hang, w') | (r, w') \<Rightarrow>
        (case c w' of
           (Panic p, w'') \<Rightarrow> (Panic p, w'')
         | (Hang, w'') \<Rightarrow> (Hang, w'')
         | (_, w'') \<Rightarrow> (r, w'')))"

text \<open>A pure result inside a call, and a world update that cannot fail.\<close>

definition lift :: "('e, 'a) outcome \<Rightarrow> ('w, 'e, 'a) io" where
  [io_defs]: "lift r w = (r, w)"

definition modify :: "('w \<Rightarrow> 'w) \<Rightarrow> ('w, 'e, unit) io" where
  [io_defs]: "modify f w = (Ok (), f w)"

subsection \<open>How the combinators run\<close>

lemma ret_run [simp]: "ret x w = (Ok x, w)" by (simp add: ret_def)
lemma fail_run [simp]: "fail e w = (Err e, w)" by (simp add: fail_def)
lemma panic_run [simp]: "panic m w = (Panic m, w)" by (simp add: panic_def)
lemma hang_run [simp]: "hang w = (Hang, w)" by (simp add: hang_def)
lemma lift_run [simp]: "lift r w = (r, w)" by (simp add: lift_def)
lemma modify_run [simp]: "modify f w = (Ok (), f w)" by (simp add: modify_def)

lemma attempt_Ok: "m w = (Ok x, w') \<Longrightarrow> attempt m h k w = k x w'"
  by (simp add: attempt_def)

lemma attempt_Err: "m w = (Err e, w') \<Longrightarrow> attempt m h k w = h e w'"
  by (simp add: attempt_def)

lemma attempt_Panic: "m w = (Panic p, w') \<Longrightarrow> attempt m h k w = (Panic p, w')"
  by (simp add: attempt_def)

lemma attempt_Hang: "m w = (Hang, w') \<Longrightarrow> attempt m h k w = (Hang, w')"
  by (simp add: attempt_def)

lemmas attempt_runs [simp] = attempt_Ok attempt_Err attempt_Panic attempt_Hang

lemma andThen_Ok: "m w = (Ok x, w') \<Longrightarrow> andThen m k w = k x w'"
  by (simp add: andThen_def)

lemma andThen_Err: "m w = (Err e, w') \<Longrightarrow> andThen m k w = (Err e, w')"
  by (simp add: andThen_def)

lemma andThen_Panic: "m w = (Panic p, w') \<Longrightarrow> andThen m k w = (Panic p, w')"
  by (simp add: andThen_def)

lemma andThen_Hang: "m w = (Hang, w') \<Longrightarrow> andThen m k w = (Hang, w')"
  by (simp add: andThen_def)

lemmas andThen_runs [simp] = andThen_Ok andThen_Err andThen_Panic andThen_Hang

lemma regardless_Ok: "m w = (Ok x, w') \<Longrightarrow> regardless m k w = k w'"
  by (simp add: regardless_def)

lemma regardless_Err: "m w = (Err x, w') \<Longrightarrow> regardless m k w = k w'"
  by (simp add: regardless_def)

lemmas regardless_runs [simp] = regardless_Ok regardless_Err

text \<open>Inversion of a successful run: the rule most proofs about handlers start from.\<close>

lemma attempt_OkE:
  assumes "attempt m h k w = (Ok y, w2)"
  obtains (ok) x w1 where "m w = (Ok x, w1)" "k x w1 = (Ok y, w2)"
    | (err) e w1 where "m w = (Err e, w1)" "h e w1 = (Ok y, w2)"
  using assms by (auto simp: attempt_def split: prod.splits outcome.splits)

lemma andThen_OkE:
  assumes "andThen m k w = (Ok y, w2)"
  obtains x w1 where "m w = (Ok x, w1)" "k x w1 = (Ok y, w2)"
  using assms by (auto simp: andThen_def elim!: attempt_OkE)

lemma attempt_cases:
  obtains (ok) x w1 where "m w = (Ok x, w1)"
    | (err) e w1 where "m w = (Err e, w1)"
    | (panics) p w1 where "m w = (Panic p, w1)"
    | (hangs) w1 where "m w = (Hang, w1)"
proof -
  obtain r w1 where m: "m w = (r, w1)" by (cases "m w")
  show thesis
    using m that by (cases r) auto
qed

text \<open>A relation between worlds that is kept by every call of a sequence.\<close>

definition keeps :: "('w \<Rightarrow> 'w \<Rightarrow> bool) \<Rightarrow> ('w, 'e, 'a) io \<Rightarrow> bool" where
  "keeps R m \<longleftrightarrow> (\<forall>w. R w (snd (m w)))"

lemma keepsD: "keeps R m \<Longrightarrow> m w = (r, w') \<Longrightarrow> R w w'"
  unfolding keeps_def by (metis snd_conv)

lemma keepsI: "(\<And>w r w'. m w = (r, w') \<Longrightarrow> R w w') \<Longrightarrow> keeps R m"
  unfolding keeps_def by (metis prod.collapse)

lemma keeps_attempt:
  assumes tr: "\<And>a b c. R a b \<Longrightarrow> R b c \<Longrightarrow> R a c"
    and m: "keeps R m" and h: "\<And>e. keeps R (h e)" and k: "\<And>x. keeps R (k x)"
  shows "keeps R (attempt m h k)"
  unfolding keeps_def
proof
  fix w
  show "R w (snd (attempt m h k w))"
  proof (cases m w rule: attempt_cases)
    case (ok x w1)
    then show ?thesis using keepsD [OF m ok] k [of x] tr by (auto simp: keeps_def)
  next
    case (err e w1)
    then show ?thesis using keepsD [OF m err] h [of e] tr by (auto simp: keeps_def)
  next
    case (panics p w1)
    then show ?thesis using keepsD [OF m panics] by simp
  next
    case (hangs w1)
    then show ?thesis using keepsD [OF m hangs] by simp
  qed
qed

lemma keeps_pure:
  assumes "\<And>a. R a a"
  shows "keeps R (ret x)" "keeps R (fail e)" "keeps R (panic p)" "keeps R hang" "keeps R (lift r)"
  using assms by (simp_all add: keeps_def)

section \<open>Go's map[string]string\<close>

text \<open>
  A map with string keys is the association list of its entries in key order. Go's map has no
  order of its own, \<open>encoding/json\<close> writes the keys sorted, so the sorted list is a canonical
  representative; code that ranges over a map takes the order it meets as an argument.
\<close>

type_synonym smap = "(string \<times> string) list"

definition smap_ok :: "smap \<Rightarrow> bool" where
  "smap_ok m \<longleftrightarrow> sorted_wrt (<) (map fst m)"

fun smap_put :: "string \<Rightarrow> string \<Rightarrow> smap \<Rightarrow> smap" where
  "smap_put k v [] = [(k, v)]"
| "smap_put k v ((k', v') # m) =
     (if k < k' then (k, v) # (k', v') # m
      else if k = k' then (k, v) # m
      else (k', v') # smap_put k v m)"

definition smap_del :: "string \<Rightarrow> smap \<Rightarrow> smap" where
  "smap_del k m = filter (\<lambda>p. fst p \<noteq> k) m"

definition smap_get :: "smap \<Rightarrow> string \<Rightarrow> string" where
  "smap_get m k = (case map_of m k of None \<Rightarrow> [] | Some v \<Rightarrow> v)"

lemma smap_put_lookup [simp]: "map_of (smap_put k v m) = (map_of m)(k \<mapsto> v)"
  by (induction k v m rule: smap_put.induct) auto

lemma smap_del_lookup [simp]: "map_of (smap_del k m) = (map_of m)(k := None)"
  by (induction m) (auto simp: smap_del_def)

lemma smap_put_keys: "fst ` set (smap_put k v m) = insert k (fst ` set m)"
  by (induction k v m rule: smap_put.induct) auto

lemma smap_put_ok [simp, intro]: "smap_ok m \<Longrightarrow> smap_ok (smap_put k v m)"
proof (induction k v m rule: smap_put.induct)
  case (1 k v)
  then show ?case by (simp add: smap_ok_def)
next
  case (2 k v k' v' m)
  have keys: "set (map fst (smap_put k v m)) = insert k (set (map fst m))"
    using smap_put_keys [of k v m] by simp
  show ?case
  proof (cases "k < k'")
    case True
    with "2.prems" show ?thesis by (auto simp: smap_ok_def)
  next
    case False
    then have "k = k' \<or> k' < k" by auto
    with "2.prems" "2.IH" False keys show ?thesis
      by (auto simp: smap_ok_def simp del: set_map)
  qed
qed

lemma smap_del_ok [simp, intro]: "smap_ok m \<Longrightarrow> smap_ok (smap_del k m)"
  unfolding smap_ok_def smap_del_def sorted_wrt_map by (rule sorted_wrt_filter)

lemma smap_ok_Nil [simp]: "smap_ok []"
  by (simp add: smap_ok_def)

lemma smap_ok_distinct: "smap_ok m \<Longrightarrow> distinct (map fst m)"
  unfolding smap_ok_def using strict_sorted_iff by blast

text \<open>Rebuilding a sorted map entry by entry gives it back.\<close>

lemma smap_put_last:
  "smap_ok m \<Longrightarrow> \<forall>x \<in> fst ` set m. x < k \<Longrightarrow> smap_put k v m = m @ [(k, v)]"
  by (induction m) (auto simp: smap_ok_def)

lemma smap_rebuild:
  "smap_ok (m1 @ m2) \<Longrightarrow> fold (\<lambda>(k, v). smap_put k v) m2 m1 = m1 @ m2"
proof (induction m2 arbitrary: m1)
  case Nil
  then show ?case by simp
next
  case (Cons p m2)
  obtain k v where p: "p = (k, v)" by (cases p)
  from Cons.prems have m1: "smap_ok m1" and lt: "\<forall>x \<in> fst ` set m1. x < k"
    by (auto simp: smap_ok_def sorted_wrt_append p)
  have "fold (\<lambda>(k, v). smap_put k v) m2 (m1 @ [(k, v)]) = (m1 @ [(k, v)]) @ m2"
    by (rule Cons.IH) (use Cons.prems in \<open>simp add: p\<close>)
  then show ?case by (simp add: p smap_put_last [OF m1 lt])
qed

text \<open>The representation is canonical: equal lookups are equal maps.\<close>

lemma smap_eqI:
  assumes "smap_ok a" "smap_ok b" "map_of a = map_of b"
  shows "a = b"
proof -
  have keys: "map fst a = map fst b"
  proof (rule sorted_distinct_set_unique)
    show "sorted (map fst a)" "sorted (map fst b)"
      using assms(1,2) by (simp_all add: smap_ok_def strict_sorted_iff)
    show "set (map fst a) = set (map fst b)"
      using assms(3) by (metis dom_map_of_conv_image_fst list.set_map)
  qed (use assms smap_ok_distinct in auto)
  have rebuild: "m = map (\<lambda>k. (k, the (map_of m k))) (map fst m)" if "distinct (map fst m)" for m :: smap
  proof -
    have "map (\<lambda>p. (fst p, the (map_of m (fst p)))) m = m"
      by (rule map_idI) (auto simp: map_of_is_SomeI [OF that])
    then show ?thesis by (simp add: comp_def)
  qed
  show ?thesis
    using rebuild [OF smap_ok_distinct [OF assms(1)]] rebuild [OF smap_ok_distinct [OF assms(2)]] keys assms(3)
    by metis
qed

lemma fold_put_lookup:
  "map_of (fold (\<lambda>(k, v). smap_put k v) es m) = map_of m ++ map_of (rev es)"
  by (induction es arbitrary: m) (auto simp: map_add_def fun_eq_iff split: option.splits)

lemma fold_put_ok: "smap_ok m \<Longrightarrow> smap_ok (fold (\<lambda>(k, v). smap_put k v) es m)"
  by (induction es arbitrary: m) auto

text \<open>Filling an empty map with the entries of a map, in any order, gives the map.\<close>

lemma smap_refill:
  assumes "smap_ok m" "set es = set m" "distinct (map fst es)"
  shows "fold (\<lambda>(k, v). smap_put k v) es [] = m"
proof (rule smap_eqI)
  show "smap_ok (fold (\<lambda>(k, v). smap_put k v) es [])" by (rule fold_put_ok) simp
  have "map_of (rev es) = map_of m"
    by (rule map_of_inject_set [THEN iffD2])
      (use assms smap_ok_distinct [OF assms(1)] in \<open>auto simp: rev_map [symmetric]\<close>)
  then show "map_of (fold (\<lambda>(k, v). smap_put k v) es []) = map_of m"
    by (simp add: fold_put_lookup)
qed (rule assms)

end
