(* ===== verification/Go_Strings.thy ===== *)
theory Go_Strings imports Prelude begin

text \<open>
  The functions of Go's standard library that the repository calls on strings: packages
  \<open>strings\<close>, \<open>path\<close>, \<open>path/filepath\<close>, \<open>strconv\<close> and \<open>time.ParseDuration\<close>. A Go string is
  the list of its bytes. The lemmas give the round trips (split after join, parse after print)
  that the key layouts and the JSON texts of the other theories rest on.
\<close>

section \<open>Package strings\<close>

abbreviation slash :: string where "slash \<equiv> ''/''"

text \<open>\<open>strings.Join\<close>\<close>

fun join :: "string \<Rightarrow> string list \<Rightarrow> string" where
  "join sep [] = []"
| "join sep [x] = x"
| "join sep (x # y # ys) = x @ sep @ join sep (y # ys)"

text \<open>\<open>strings.Split\<close> with a separator of one byte, and \<open>strings.SplitN\<close> with limit 2.\<close>

fun split_on :: "char \<Rightarrow> string \<Rightarrow> string list" where
  "split_on c [] = [[]]"
| "split_on c (x # xs) =
     (if x = c then [] # split_on c xs
      else (case split_on c xs of [] \<Rightarrow> [[x]] | p # ps \<Rightarrow> (x # p) # ps))"

definition split2 :: "char \<Rightarrow> string \<Rightarrow> string list" where
  "split2 c s = (if c \<in> set s then [takeWhile (\<lambda>x. x \<noteq> c) s, tl (dropWhile (\<lambda>x. x \<noteq> c) s)] else [s])"

definition has_prefix :: "string \<Rightarrow> string \<Rightarrow> bool" where
  "has_prefix p s \<longleftrightarrow> take (length p) s = p"

definition has_suffix :: "string \<Rightarrow> string \<Rightarrow> bool" where
  "has_suffix p s \<longleftrightarrow> length p \<le> length s \<and> drop (length s - length p) s = p"

definition trim_prefix :: "string \<Rightarrow> string \<Rightarrow> string" where
  "trim_prefix p s = (if has_prefix p s then drop (length p) s else s)"

definition trim_suffix :: "string \<Rightarrow> string \<Rightarrow> string" where
  "trim_suffix p s = (if has_suffix p s then take (length s - length p) s else s)"

text \<open>\<open>strings.Trim(s, "c")\<close> for a cutset of one byte, and \<open>strings.TrimSpace\<close> on ASCII.\<close>

definition trim_char :: "char \<Rightarrow> string \<Rightarrow> string" where
  "trim_char c s = rev (dropWhile (\<lambda>x. x = c) (rev (dropWhile (\<lambda>x. x = c) s)))"

definition is_space :: "char \<Rightarrow> bool" where
  "is_space c \<longleftrightarrow> c \<in> {CHR '' '', CHR 0x09, CHR 0x0A, CHR 0x0B, CHR 0x0C, CHR 0x0D}"

definition trim_space :: "string \<Rightarrow> string" where
  "trim_space s = rev (dropWhile is_space (rev (dropWhile is_space s)))"

fun contains :: "string \<Rightarrow> string \<Rightarrow> bool" where
  "contains sub [] = (sub = [])"
| "contains sub (x # xs) = (has_prefix sub (x # xs) \<or> contains sub xs)"

text \<open>\<open>strings.Replace(s, "c", "d", -1)\<close> on one-byte strings, and with an empty replacement.\<close>

definition replace_char :: "char \<Rightarrow> char \<Rightarrow> string \<Rightarrow> string" where
  "replace_char c d s = map (\<lambda>x. if x = c then d else x) s"

definition remove_char :: "char \<Rightarrow> string \<Rightarrow> string" where
  "remove_char c s = filter (\<lambda>x. x \<noteq> c) s"

subsection \<open>Round trips\<close>

lemma split_on_not_Nil [simp]: "split_on c s \<noteq> []"
  by (cases s) (auto split: list.splits)

lemma split_on_no_sep: "c \<notin> set s \<Longrightarrow> split_on c s = [s]"
  by (induction s) auto

lemma split_on_append:
  "c \<notin> set a \<Longrightarrow> split_on c (a @ c # s) = a # split_on c s"
  by (induction a) auto

lemma split_on_join:
  "xs \<noteq> [] \<Longrightarrow> \<forall>x \<in> set xs. c \<notin> set x \<Longrightarrow> split_on c (join [c] xs) = xs"
  by (induction "[c]" xs rule: join.induct) (auto simp: split_on_no_sep split_on_append)

lemma join_split_on: "join [c] (split_on c s) = s"
proof (induction s)
  case Nil
  then show ?case by simp
next
  case (Cons x xs)
  obtain p ps where "split_on c xs = p # ps"
    by (cases "split_on c xs") auto
  with Cons.IH show ?case by (cases ps) auto
qed

lemma split_on_parts: "p \<in> set (split_on c s) \<Longrightarrow> c \<notin> set p"
  by (induction s arbitrary: p) (auto split: list.splits if_splits)

lemma split2_no_sep: "c \<notin> set s \<Longrightarrow> split2 c s = [s]"
  by (simp add: split2_def)

lemma split2_append: "c \<notin> set a \<Longrightarrow> split2 c (a @ c # s) = [a, s]"
  by (induction a) (auto simp: split2_def)

lemma split2_pairE:
  assumes "split2 c s = [a, b]"
  shows "s = a @ c # b" and "c \<notin> set a"
proof -
  from assms have c: "c \<in> set s" and a: "a = takeWhile (\<lambda>x. x \<noteq> c) s"
    and b: "b = tl (dropWhile (\<lambda>x. x \<noteq> c) s)"
    by (auto simp: split2_def split: if_splits)
  from c have ne: "dropWhile (\<lambda>x. x \<noteq> c) s \<noteq> []" by auto
  then have "hd (dropWhile (\<lambda>x. x \<noteq> c) s) = c"
    using hd_dropWhile [OF ne] by simp
  with ne b have "dropWhile (\<lambda>x. x \<noteq> c) s = c # b" by (metis list.collapse)
  with a show "s = a @ c # b" by (metis takeWhile_dropWhile_id)
  from a show "c \<notin> set a" by (metis (mono_tags, lifting) set_takeWhileD)
qed

lemma has_prefix_append [simp]: "has_prefix p (p @ s)"
  by (simp add: has_prefix_def)

lemma has_prefix_self [simp]: "has_prefix p p"
  by (simp add: has_prefix_def)

lemma trim_prefix_append [simp]: "trim_prefix p (p @ s) = s"
  by (simp add: trim_prefix_def)

lemma trim_prefix_self [simp]: "trim_prefix p p = []"
  by (simp add: trim_prefix_def)

lemma has_suffix_append [simp]: "has_suffix p (s @ p)"
  by (simp add: has_suffix_def)

lemma trim_suffix_append [simp]: "trim_suffix p (s @ p) = s"
  by (simp add: trim_suffix_def)

lemma trim_char_id:
  assumes "s \<noteq> []" "hd s \<noteq> c" "last s \<noteq> c"
  shows "trim_char c s = s"
proof -
  from assms have "dropWhile (\<lambda>x. x = c) s = s" by (cases s) auto
  moreover have "dropWhile (\<lambda>x. x = c) (rev s) = rev s"
    using assms(1,3) by (induction s rule: rev_induct) auto
  ultimately show ?thesis by (simp add: trim_char_def)
qed

lemma trim_char_head: "trim_char c (c # s) = trim_char c s"
  by (simp add: trim_char_def)

lemma trim_char_Nil [simp]: "trim_char c [] = []"
  by (simp add: trim_char_def)

lemma trim_char_no_sep: "c \<notin> set s \<Longrightarrow> trim_char c s = s"
  by (cases "s = []") (auto intro!: trim_char_id dest: hd_in_set last_in_set)

lemma trim_char_subset: "set (trim_char c s) \<subseteq> set s"
  unfolding trim_char_def by (auto dest!: set_dropWhileD)

section \<open>Packages path and path/filepath\<close>

text \<open>\<open>path.Clean\<close>: a stack of the elements kept so far, in reverse.\<close>

fun clean_segs :: "bool \<Rightarrow> string list \<Rightarrow> string list \<Rightarrow> string list" where
  "clean_segs rooted out [] = rev out"
| "clean_segs rooted out (s # ss) =
     (if s = [] \<or> s = ''.'' then clean_segs rooted out ss
      else if s = ''..'' then
        (case out of
           [] \<Rightarrow> (if rooted then clean_segs rooted [] ss else clean_segs rooted [''..''] ss)
         | x # out' \<Rightarrow> (if x = ''..'' then clean_segs rooted (''..'' # out) ss
                       else clean_segs rooted out' ss))
      else clean_segs rooted (s # out) ss)"

definition rooted :: "string \<Rightarrow> bool" where
  "rooted s \<longleftrightarrow> has_prefix slash s"

definition path_segs :: "string \<Rightarrow> string list" where
  "path_segs s = clean_segs (rooted s) [] (split_on CHR ''/'' s)"

definition unsegs :: "bool \<Rightarrow> string list \<Rightarrow> string" where
  "unsegs r ss = (if r then slash @ join slash ss else if ss = [] then ''.'' else join slash ss)"

definition path_clean :: "string \<Rightarrow> string" where
  "path_clean s = unsegs (rooted s) (path_segs s)"

text \<open>\<open>path.Join\<close> (and \<open>filepath.Join\<close>, the same on unix): leading empty elements are dropped.\<close>

fun path_join :: "string list \<Rightarrow> string" where
  "path_join [] = []"
| "path_join (e # es) = (if e = [] then path_join es else path_clean (join slash (e # es)))"

text \<open>\<open>path.Base\<close>, \<open>path.Dir\<close> and \<open>path.Split\<close>\<close>

definition path_split :: "string \<Rightarrow> string \<times> string" where
  "path_split s = (let f = rev (takeWhile (\<lambda>c. c \<noteq> CHR ''/'') (rev s))
                   in (take (length s - length f) s, f))"

definition path_dir :: "string \<Rightarrow> string" where
  "path_dir s = path_clean (fst (path_split s))"

definition path_base :: "string \<Rightarrow> string" where
  "path_base s =
     (if s = [] then ''.''
      else let t = rev (dropWhile (\<lambda>c. c = CHR ''/'') (rev s))
           in if t = [] then slash else snd (path_split t))"

text \<open>\<open>filepath.Rel\<close>: the path from \<open>base\<close> to \<open>targ\<close>, \<open>None\<close> for its error.\<close>

fun drop_common :: "string list \<Rightarrow> string list \<Rightarrow> string list \<times> string list" where
  "drop_common (b # bs) (t # ts) = (if b = t then drop_common bs ts else (b # bs, t # ts))"
| "drop_common bs ts = (bs, ts)"

definition path_rel :: "string \<Rightarrow> string \<Rightarrow> string option" where
  "path_rel base targ =
     (if rooted base \<noteq> rooted targ then None
      else (case drop_common (path_segs base) (path_segs targ) of
          ([], []) \<Rightarrow> Some ''.''
        | (bs, ts) \<Rightarrow>
            if bs \<noteq> [] \<and> hd bs = ''..'' then None
            else Some (join slash (replicate (length bs) ''..'' @ ts))))"

definition plain_seg :: "string \<Rightarrow> bool" where
  "plain_seg s \<longleftrightarrow> s \<noteq> [] \<and> s \<noteq> ''.'' \<and> s \<noteq> ''..'' \<and> CHR ''/'' \<notin> set s"

lemma clean_segs_plain:
  "\<forall>s \<in> set ss. plain_seg s \<Longrightarrow> clean_segs r out ss = rev out @ ss"
  by (induction ss arbitrary: out) (auto simp: plain_seg_def)

lemma clean_segs_rooted_plain:
  "\<forall>s \<in> set ss. CHR ''/'' \<notin> set s \<Longrightarrow> \<forall>s \<in> set out. plain_seg s \<Longrightarrow>
   \<forall>s \<in> set (clean_segs True out ss). plain_seg s"
proof (induction ss arbitrary: out)
  case Nil
  then show ?case by simp
next
  case (Cons s ss)
  note IH = Cons.IH and ss = Cons.prems(1) and out = Cons.prems(2)
  consider "s = [] \<or> s = ''.''" | "s = ''..''" | "plain_seg s"
    using ss by (auto simp: plain_seg_def)
  then show ?case
  proof cases
    case 1
    then show ?thesis using IH [of out] ss out by auto
  next
    case 2
    show ?thesis
    proof (cases out)
      case Nil
      then show ?thesis using 2 IH [of "[]"] ss by simp
    next
      case (Cons x out')
      with out have "x \<noteq> ''..''" by (simp add: plain_seg_def)
      then show ?thesis using 2 Cons IH [of out'] ss out by simp
    qed
  next
    case 3
    then have "clean_segs True out (s # ss) = clean_segs True (s # out) ss"
      by (simp add: plain_seg_def)
    moreover have "\<forall>x \<in> set (clean_segs True (s # out) ss). plain_seg x"
      by (rule IH) (use 3 out ss in auto)
    ultimately show ?thesis by (simp only:)
  qed
qed

lemma join_append_last: "xs \<noteq> [] \<Longrightarrow> join sep (xs @ [y]) = join sep xs @ sep @ y"
  by (induction sep xs rule: join.induct) auto

lemma split_on_rooted:
  "\<forall>s \<in> set ss. CHR ''/'' \<notin> set s \<Longrightarrow>
   split_on CHR ''/'' (slash @ join slash ss) = [] # (if ss = [] then [[]] else ss)"
  by (cases "ss = []") (simp_all add: split_on_join)

text \<open>A rooted path whose elements are plain is its own cleaned form.\<close>

lemma path_segs_rooted:
  assumes "\<forall>s \<in> set ss. plain_seg s"
  shows "path_segs (slash @ join slash ss) = ss"
proof -
  have "\<forall>s \<in> set ss. CHR ''/'' \<notin> set s" using assms by (simp add: plain_seg_def)
  then have "split_on CHR ''/'' (slash @ join slash ss) = [] # (if ss = [] then [[]] else ss)"
    by (rule split_on_rooted)
  then have "path_segs (slash @ join slash ss) = clean_segs True [] ([] # (if ss = [] then [[]] else ss))"
    by (simp add: path_segs_def rooted_def has_prefix_def)
  also have "\<dots> = ss" using clean_segs_plain [OF assms, of True "[]"] by simp
  finally show ?thesis .
qed

lemma path_clean_rooted:
  assumes "\<forall>s \<in> set ss. plain_seg s"
  shows "path_clean (slash @ join slash ss) = slash @ join slash ss"
proof -
  have "rooted (slash @ join slash ss)" by (simp add: rooted_def has_prefix_def)
  then show ?thesis
    unfolding path_clean_def path_segs_rooted [OF assms] by (simp add: unsegs_def)
qed

lemma path_join_snoc:
  assumes "ss \<noteq> []" "\<forall>s \<in> set ss. plain_seg s" "plain_seg y"
  shows "path_join [slash @ join slash ss, y] = slash @ join slash (ss @ [y])"
proof -
  have eq: "(slash @ join slash ss) @ slash @ y = slash @ join slash (ss @ [y])"
    using assms(1) by (simp add: join_append_last)
  have "path_join [slash @ join slash ss, y] = path_clean (slash @ join slash (ss @ [y]))"
    using eq by simp
  also have "\<dots> = slash @ join slash (ss @ [y])"
    by (rule path_clean_rooted) (use assms in auto)
  finally show ?thesis .
qed

text \<open>Joining an element that itself holds several plain elements (a \<open>policy/volume\<close> name).\<close>

lemma join_append:
  "xs \<noteq> [] \<Longrightarrow> ys \<noteq> [] \<Longrightarrow> join sep (xs @ ys) = join sep xs @ sep @ join sep ys"
  by (induction sep xs rule: join.induct) (cases ys; auto)+

lemma path_join_segs:
  assumes "ss \<noteq> []" "ts \<noteq> []" "\<forall>s \<in> set ss. plain_seg s" "\<forall>s \<in> set ts. plain_seg s"
  shows "path_join [slash @ join slash ss, join slash ts] = slash @ join slash (ss @ ts)"
proof -
  have eq: "(slash @ join slash ss) @ slash @ join slash ts = slash @ join slash (ss @ ts)"
    using assms(1,2) by (simp add: join_append)
  have "path_join [slash @ join slash ss, join slash ts] = path_clean (slash @ join slash (ss @ ts))"
    using eq by simp
  also have "\<dots> = slash @ join slash (ss @ ts)"
    by (rule path_clean_rooted) (use assms in auto)
  finally show ?thesis .
qed

lemma join_slash_inj:
  assumes "join slash xs = join slash ys" "xs \<noteq> []" "ys \<noteq> []"
    and "\<forall>x \<in> set xs. CHR ''/'' \<notin> set x" "\<forall>y \<in> set ys. CHR ''/'' \<notin> set y"
  shows "xs = ys"
proof -
  have "split_on CHR ''/'' (join slash xs) = xs" by (rule split_on_join [OF assms(2,4)])
  moreover have "split_on CHR ''/'' (join slash ys) = ys" by (rule split_on_join [OF assms(3,5)])
  ultimately show ?thesis using assms(1) by metis
qed

section \<open>Package strconv\<close>

definition digit_char :: "nat \<Rightarrow> char" where
  "digit_char d = char_of (48 + d)"

definition is_digit :: "char \<Rightarrow> bool" where
  "is_digit c \<longleftrightarrow> 48 \<le> (of_char c :: nat) \<and> (of_char c :: nat) \<le> 57"

definition digit_val :: "char \<Rightarrow> nat" where
  "digit_val c = of_char c - 48"

text \<open>\<open>FormatUint(n, 10)\<close>\<close>

fun format_nat :: "nat \<Rightarrow> string" where
  "format_nat n = (if n < 10 then [digit_char n] else format_nat (n div 10) @ [digit_char (n mod 10)])"

declare format_nat.simps [simp del]

definition format_int :: "int \<Rightarrow> string" where
  "format_int i = (if i < 0 then CHR ''-'' # format_nat (nat (- i)) else format_nat (nat i))"

definition dec_val :: "string \<Rightarrow> nat" where
  "dec_val s = foldl (\<lambda>n c. 10 * n + digit_val c) 0 s"

text \<open>\<open>ParseUint(s, 10, bits)\<close> and \<open>ParseInt(s, 10, bits)\<close>; \<open>None\<close> is a syntax or range error.\<close>

definition parse_uint :: "nat \<Rightarrow> string \<Rightarrow> nat option" where
  "parse_uint bits s =
     (if s \<noteq> [] \<and> list_all is_digit s \<and> dec_val s < 2 ^ bits then Some (dec_val s) else None)"

definition parse_int :: "nat \<Rightarrow> string \<Rightarrow> int option" where
  "parse_int bits s =
     (let neg = has_prefix ''-'' s; t = (if neg \<or> has_prefix ''+'' s then tl s else s)
      in if t \<noteq> [] \<and> list_all is_digit t then
           (if neg then (if dec_val t \<le> 2 ^ (bits - 1) then Some (- int (dec_val t)) else None)
            else (if dec_val t < 2 ^ (bits - 1) then Some (int (dec_val t)) else None))
         else None)"

definition parse_bool :: "string \<Rightarrow> bool option" where
  "parse_bool s =
     (if s \<in> {''1'', ''t'', ''T'', ''true'', ''TRUE'', ''True''} then Some True
      else if s \<in> {''0'', ''f'', ''F'', ''false'', ''FALSE'', ''False''} then Some False
      else None)"

lemma digit_char_val: "d < 10 \<Longrightarrow> digit_val (digit_char d) = d"
  by (simp add: digit_val_def digit_char_def)

lemma digit_char_is_digit: "d < 10 \<Longrightarrow> is_digit (digit_char d)"
  by (simp add: is_digit_def digit_char_def)

lemma dec_val_snoc: "dec_val (s @ [c]) = 10 * dec_val s + digit_val c"
  by (simp add: dec_val_def)

lemma format_nat_not_Nil [simp]: "format_nat n \<noteq> []"
  by (subst format_nat.simps) simp

lemma format_nat_digits: "list_all is_digit (format_nat n)"
proof (induction n rule: format_nat.induct)
  case (1 n)
  then show ?case
    by (subst format_nat.simps) (simp add: digit_char_is_digit)
qed

lemma dec_val_format_nat: "dec_val (format_nat n) = n"
proof (induction n rule: format_nat.induct)
  case (1 n)
  show ?case
  proof (cases "n < 10")
    case True
    then show ?thesis
      by (subst format_nat.simps) (simp add: dec_val_def digit_char_val)
  next
    case False
    with "1.IH" show ?thesis
      by (subst format_nat.simps) (simp add: dec_val_snoc digit_char_val)
  qed
qed

lemma format_nat_inj: "format_nat m = format_nat n \<Longrightarrow> m = n"
  by (metis dec_val_format_nat)

lemma parse_uint_format: "n < 2 ^ bits \<Longrightarrow> parse_uint bits (format_nat n) = Some n"
  by (simp add: parse_uint_def format_nat_digits dec_val_format_nat)

lemma parse_uint_bound: "parse_uint bits s = Some n \<Longrightarrow> n < 2 ^ bits"
  by (auto simp: parse_uint_def split: if_splits)

lemma minus_not_digit: "\<not> is_digit CHR ''-''" by (simp add: is_digit_def)
lemma plus_not_digit: "\<not> is_digit CHR ''+''" by (simp add: is_digit_def)

lemma format_nat_no_sign:
  "\<not> has_prefix ''-'' (format_nat n)" "\<not> has_prefix ''+'' (format_nat n)"
  using format_nat_digits [of n] minus_not_digit plus_not_digit
  by (cases "format_nat n"; auto simp: has_prefix_def)+

lemma parse_int_format:
  assumes "- (2 ^ (bits - 1)) \<le> i" "i < 2 ^ (bits - 1)"
  shows "parse_int bits (format_int i) = Some i"
proof (cases "i < 0")
  case True
  then have "nat (- i) \<le> 2 ^ (bits - 1)" using assms(1) by (simp add: nat_le_iff)
  with True show ?thesis
    by (simp add: parse_int_def format_int_def has_prefix_def format_nat_digits dec_val_format_nat)
next
  case False
  then have "nat i < 2 ^ (bits - 1)" using assms(2) by (simp add: nat_less_iff)
  with False show ?thesis
    by (simp add: parse_int_def format_int_def Let_def format_nat_no_sign format_nat_digits
        dec_val_format_nat)
qed

section \<open>time.ParseDuration\<close>

text \<open>
  Durations are 64-bit counts of nanoseconds. A fraction is scaled exactly here, where Go scales
  it in \<open>float64\<close>; every duration the repository writes itself is a whole number of units.
\<close>

definition unit_ns :: "string \<Rightarrow> nat option" where
  "unit_ns u = map_of [(''ns'', 1), (''us'', 1000), (''ms'', 1000000), (''s'', 1000000000),
     (''m'', 60000000000), (''h'', 3600000000000)] u"

definition not_unit_end :: "char \<Rightarrow> bool" where
  "not_unit_end c \<longleftrightarrow> c \<noteq> CHR ''.'' \<and> \<not> is_digit c"

text \<open>One number with its unit, and what follows it.\<close>

definition duration_term :: "string \<Rightarrow> (nat \<times> string) option" where
  "duration_term s =
     (let ip = takeWhile is_digit s; r1 = dropWhile is_digit s;
          dot = has_prefix ''.'' r1; r2 = (if dot then tl r1 else r1);
          fp = (if dot then takeWhile is_digit r2 else []);
          r3 = (if dot then dropWhile is_digit r2 else r2);
          u = takeWhile not_unit_end r3; r4 = dropWhile not_unit_end r3
      in if (ip = [] \<and> fp = []) \<or> u = [] then None
         else (case unit_ns u of
             None \<Rightarrow> None
           | Some n \<Rightarrow> Some (dec_val ip * n + dec_val fp * n div 10 ^ length fp, r4)))"

lemma dropWhile_shorter: "takeWhile P s \<noteq> [] \<Longrightarrow> length (dropWhile P s) < length s"
  by (cases s) (auto simp: le_imp_less_Suc length_dropWhile_le split: if_splits)

lemma duration_term_shorter:
  assumes "duration_term s = Some (v, r)"
  shows "length r < length s"
proof -
  define r1 where "r1 = dropWhile is_digit s"
  define r2 where "r2 = (if has_prefix ''.'' r1 then tl r1 else r1)"
  define r3 where "r3 = (if has_prefix ''.'' r1 then dropWhile is_digit r2 else r2)"
  have u: "takeWhile not_unit_end r3 \<noteq> []" and r: "r = dropWhile not_unit_end r3"
    using assms unfolding duration_term_def Let_def r1_def r2_def r3_def
    by (auto split: if_splits option.splits)
  have "length r3 \<le> length r2" by (simp add: r3_def length_dropWhile_le)
  also have "length r2 \<le> length r1" by (simp add: r2_def)
  also have "length r1 \<le> length s" by (simp add: r1_def length_dropWhile_le)
  finally show ?thesis using dropWhile_shorter [OF u] r by simp
qed

function duration_terms :: "string \<Rightarrow> nat option" where
  "duration_terms s =
     (if s = [] then Some 0
      else (case duration_term s of
          None \<Rightarrow> None
        | Some (v, r) \<Rightarrow>
            (case duration_terms r of
               None \<Rightarrow> None
             | Some d \<Rightarrow> if v + d < 2 ^ 63 then Some (v + d) else None)))"
  by pat_completeness auto
termination
  by (relation "measure length") (auto dest: duration_term_shorter)

declare duration_terms.simps [simp del]

definition ParseDuration :: "string \<Rightarrow> int option" where
  "ParseDuration s =
     (let neg = has_prefix ''-'' s; t = (if neg \<or> has_prefix ''+'' s then tl s else s)
      in if t = ''0'' then Some 0
         else if t = [] then None
         else map_option (\<lambda>d. if neg then - int d else int d) (duration_terms t))"

end
