(* ===== verification/Go_Errors.thy ===== *)
theory Go_Errors imports Go_Strings begin

text \<open>
  The errors of the repository: package \<open>errors\<close> (the sentinel errors and the translation of
  etcd's error codes) over the error values of the vendored package \<open>errored\<close>, of which the
  code uses \<open>New\<close>, \<open>Errorf\<close>, \<open>Combine\<close>, \<open>Contains\<close> and the comparison of pointers.
\<close>

section \<open>Error values\<close>

text \<open>
  A sentinel is a package-level variable made by \<open>errored.New\<close>; it is compared by pointer, and is
  identified here by the name of its variable. \<open>Fresh\<close> is an error made where it is returned
  (\<open>errored.Errorf\<close>), never pointer-equal to a sentinel. \<open>Combined\<close> is the result of \<open>Combine\<close>:
  the list of the errors it collects. \<open>EtcdErr\<close> is the etcd client's \<open>Error\<close> with its code,
  \<open>Errno\<close> an error number of the kernel, \<open>Plain\<close> any other error of a library. A combined error keeps its parts as leaves.
\<close>

datatype leaf = LSentinel string | LText string | LEtcd int string

datatype goerr =
    Sentinel string
  | Fresh string
  | Combined "leaf list"
  | EtcdErr int string
  | Errno int
  | Plain string

type_synonym 'a res = "(goerr, 'a) outcome"

text \<open>The variables of \<open>errors.go\<close> with their texts.\<close>

definition sentinel_table :: "(string \<times> string) list" where
  "sentinel_table =
    [(''Unknown'', ''Unknown error''),
     (''Exists'', ''Already exists''),
     (''NotExists'', ''Does not exist''),
     (''LockFailed'', ''Locking Operation Failed''),
     (''LockMismatch'', ''Compare/swap lock operation failed. Perhaps it's mounted on a different host?''),
     (''NoActionTaken'', ''No action taken''),
     (''ErrLockPublish'', ''Could not publish use lock''),
     (''ErrLockRemove'', ''Could not remove use lock''),
     (''VolmasterDown'', ''apiserver could not be contacted''),
     (''VolmasterRequest'', ''Making request to apiserver''),
     (''ErrJSONValidation'', ''JSON validation failed''),
     (''ErrMountScan'', ''Mount Scan Operation Failed''),
     (''ErrDevNotFound'', ''Could not find kernel device''),
     (''InvalidDBPath'', ''Invalid path to resource''),
     (''RateLimit'', ''Applying rate limiting configuration''),
     (''MountPath'', ''Calculating mount path''),
     (''SnapshotProtect'', ''Protecting snapshot''),
     (''SnapshotCopy'', ''Copying snapshot to volume''),
     (''UnmarshalRequest'', ''Unmarshaling Request''),
     (''MarshalResponse'', ''Marshaling Response''),
     (''MarshalGlobal'', ''Marshaling global configuration''),
     (''UnmarshalGlobal'', ''Unmarshaling global configuration''),
     (''PublishGlobal'', ''Publishing global configuration''),
     (''GetGlobal'', ''Retrieving global configuration''),
     (''InvalidGlobal'', ''Invalid global parameters''),
     (''CannotCopyVolume'', ''Cannot copy volume''),
     (''GetVolume'', ''Retrieving Volume''),
     (''InvalidVolume'', ''Invalid volume name''),
     (''RemoveVolume'', ''Removing volume''),
     (''ClearVolume'', ''Clearing volume records''),
     (''ListVolume'', ''Retrieving volume list''),
     (''PublishVolume'', ''Publishing Volume''),
     (''FormatVolume'', ''Formatting Volume''),
     (''CreateVolume'', ''Creating Volume''),
     (''ConfiguringVolume'', ''Configuring volume parameters''),
     (''MarshalVolume'', ''Marshaling volume parameters''),
     (''UnmarshalVolume'', ''Unmarshaling volume parameters''),
     (''MountSourceRequired'', ''A mount source does not exist, but is required''),
     (''UnmarshalRuntime'', ''Unmarshaling runtime parameters''),
     (''PublishRuntime'', ''Publishing runtime parameters''),
     (''UnmarshalPolicy'', ''Unmarshaling Policy''),
     (''MarshalPolicy'', ''Marshaling Policy''),
     (''GetPolicy'', ''Retrieving Policy''),
     (''ListPolicy'', ''Listing policies''),
     (''PublishPolicy'', ''Publishing policies''),
     (''ListPolicyRevision'', ''Listing policy revisions''),
     (''GetPolicyRevision'', ''Getting policy revision''),
     (''RemoveImage'', ''Removing image''),
     (''ListSnapshots'', ''Listing snapshots''),
     (''SnapshotsUnsupported'', ''Backend does not support snapshots''),
     (''SnapshotFailed'', ''Failed to take snapshot''),
     (''MissingSnapshotOption'', ''Could not find snapshot option in request, cannot copy.''),
     (''MissingTargetOption'', ''Could not find target option in request: cannot copy.''),
     (''RefreshMount'', ''Could not refresh mount information''),
     (''RemoveMount'', ''Could not remove mount information''),
     (''PublishMount'', ''Could not publish mount information''),
     (''GetMount'', ''Retrieving mount''),
     (''MountFailed'', ''Mount failed''),
     (''UnmountFailed'', ''Unmount failed''),
     (''GetHostname'', ''Retrieving Hostname''),
     (''GetDriver'', ''Constructing storage driver''),
     (''ReadBody'', ''Reading request body'')]"

definition sentinel_text :: "string \<Rightarrow> string" where
  "sentinel_text n = (case map_of sentinel_table n of Some t \<Rightarrow> t | None \<Rightarrow> [])"

abbreviation Unknown :: goerr where "Unknown \<equiv> Sentinel ''Unknown''"
abbreviation Exists :: goerr where "Exists \<equiv> Sentinel ''Exists''"
abbreviation NotExists :: goerr where "NotExists \<equiv> Sentinel ''NotExists''"
abbreviation LockFailed :: goerr where "LockFailed \<equiv> Sentinel ''LockFailed''"
abbreviation LockMismatch :: goerr where "LockMismatch \<equiv> Sentinel ''LockMismatch''"
abbreviation NoActionTaken :: goerr where "NoActionTaken \<equiv> Sentinel ''NoActionTaken''"
abbreviation ErrLockPublish :: goerr where "ErrLockPublish \<equiv> Sentinel ''ErrLockPublish''"
abbreviation ErrLockRemove :: goerr where "ErrLockRemove \<equiv> Sentinel ''ErrLockRemove''"
abbreviation VolmasterDown :: goerr where "VolmasterDown \<equiv> Sentinel ''VolmasterDown''"
abbreviation VolmasterRequest :: goerr where "VolmasterRequest \<equiv> Sentinel ''VolmasterRequest''"
abbreviation ErrJSONValidation :: goerr where "ErrJSONValidation \<equiv> Sentinel ''ErrJSONValidation''"
abbreviation ErrMountScan :: goerr where "ErrMountScan \<equiv> Sentinel ''ErrMountScan''"
abbreviation ErrDevNotFound :: goerr where "ErrDevNotFound \<equiv> Sentinel ''ErrDevNotFound''"
abbreviation InvalidDBPath :: goerr where "InvalidDBPath \<equiv> Sentinel ''InvalidDBPath''"
abbreviation RateLimit :: goerr where "RateLimit \<equiv> Sentinel ''RateLimit''"
abbreviation MountPath :: goerr where "MountPath \<equiv> Sentinel ''MountPath''"
abbreviation SnapshotProtect :: goerr where "SnapshotProtect \<equiv> Sentinel ''SnapshotProtect''"
abbreviation SnapshotCopy :: goerr where "SnapshotCopy \<equiv> Sentinel ''SnapshotCopy''"
abbreviation UnmarshalRequest :: goerr where "UnmarshalRequest \<equiv> Sentinel ''UnmarshalRequest''"
abbreviation MarshalResponse :: goerr where "MarshalResponse \<equiv> Sentinel ''MarshalResponse''"
abbreviation MarshalGlobal :: goerr where "MarshalGlobal \<equiv> Sentinel ''MarshalGlobal''"
abbreviation UnmarshalGlobal :: goerr where "UnmarshalGlobal \<equiv> Sentinel ''UnmarshalGlobal''"
abbreviation PublishGlobal :: goerr where "PublishGlobal \<equiv> Sentinel ''PublishGlobal''"
abbreviation GetGlobal :: goerr where "GetGlobal \<equiv> Sentinel ''GetGlobal''"
abbreviation InvalidGlobal :: goerr where "InvalidGlobal \<equiv> Sentinel ''InvalidGlobal''"
abbreviation CannotCopyVolume :: goerr where "CannotCopyVolume \<equiv> Sentinel ''CannotCopyVolume''"
abbreviation GetVolume :: goerr where "GetVolume \<equiv> Sentinel ''GetVolume''"
abbreviation InvalidVolume :: goerr where "InvalidVolume \<equiv> Sentinel ''InvalidVolume''"
abbreviation RemoveVolume :: goerr where "RemoveVolume \<equiv> Sentinel ''RemoveVolume''"
abbreviation ClearVolume :: goerr where "ClearVolume \<equiv> Sentinel ''ClearVolume''"
abbreviation ListVolume :: goerr where "ListVolume \<equiv> Sentinel ''ListVolume''"
abbreviation PublishVolume :: goerr where "PublishVolume \<equiv> Sentinel ''PublishVolume''"
abbreviation FormatVolume :: goerr where "FormatVolume \<equiv> Sentinel ''FormatVolume''"
abbreviation CreateVolume :: goerr where "CreateVolume \<equiv> Sentinel ''CreateVolume''"
abbreviation ConfiguringVolume :: goerr where "ConfiguringVolume \<equiv> Sentinel ''ConfiguringVolume''"
abbreviation MarshalVolume :: goerr where "MarshalVolume \<equiv> Sentinel ''MarshalVolume''"
abbreviation UnmarshalVolume :: goerr where "UnmarshalVolume \<equiv> Sentinel ''UnmarshalVolume''"
abbreviation MountSourceRequired :: goerr where "MountSourceRequired \<equiv> Sentinel ''MountSourceRequired''"
abbreviation UnmarshalRuntime :: goerr where "UnmarshalRuntime \<equiv> Sentinel ''UnmarshalRuntime''"
abbreviation PublishRuntime :: goerr where "PublishRuntime \<equiv> Sentinel ''PublishRuntime''"
abbreviation UnmarshalPolicy :: goerr where "UnmarshalPolicy \<equiv> Sentinel ''UnmarshalPolicy''"
abbreviation MarshalPolicy :: goerr where "MarshalPolicy \<equiv> Sentinel ''MarshalPolicy''"
abbreviation GetPolicy :: goerr where "GetPolicy \<equiv> Sentinel ''GetPolicy''"
abbreviation ListPolicy :: goerr where "ListPolicy \<equiv> Sentinel ''ListPolicy''"
abbreviation PublishPolicy :: goerr where "PublishPolicy \<equiv> Sentinel ''PublishPolicy''"
abbreviation ListPolicyRevision :: goerr where "ListPolicyRevision \<equiv> Sentinel ''ListPolicyRevision''"
abbreviation GetPolicyRevision :: goerr where "GetPolicyRevision \<equiv> Sentinel ''GetPolicyRevision''"
abbreviation RemoveImage :: goerr where "RemoveImage \<equiv> Sentinel ''RemoveImage''"
abbreviation ListSnapshots :: goerr where "ListSnapshots \<equiv> Sentinel ''ListSnapshots''"
abbreviation SnapshotsUnsupported :: goerr where "SnapshotsUnsupported \<equiv> Sentinel ''SnapshotsUnsupported''"
abbreviation SnapshotFailed :: goerr where "SnapshotFailed \<equiv> Sentinel ''SnapshotFailed''"
abbreviation MissingSnapshotOption :: goerr where "MissingSnapshotOption \<equiv> Sentinel ''MissingSnapshotOption''"
abbreviation MissingTargetOption :: goerr where "MissingTargetOption \<equiv> Sentinel ''MissingTargetOption''"
abbreviation RefreshMount :: goerr where "RefreshMount \<equiv> Sentinel ''RefreshMount''"
abbreviation RemoveMount :: goerr where "RemoveMount \<equiv> Sentinel ''RemoveMount''"
abbreviation PublishMount :: goerr where "PublishMount \<equiv> Sentinel ''PublishMount''"
abbreviation GetMount :: goerr where "GetMount \<equiv> Sentinel ''GetMount''"
abbreviation MountFailed :: goerr where "MountFailed \<equiv> Sentinel ''MountFailed''"
abbreviation UnmountFailed :: goerr where "UnmountFailed \<equiv> Sentinel ''UnmountFailed''"
abbreviation GetHostname :: goerr where "GetHostname \<equiv> Sentinel ''GetHostname''"
abbreviation GetDriver :: goerr where "GetDriver \<equiv> Sentinel ''GetDriver''"
abbreviation ReadBody :: goerr where "ReadBody \<equiv> Sentinel ''ReadBody''"

fun leaf_text :: "leaf \<Rightarrow> string" where
  "leaf_text (LSentinel n) = sentinel_text n"
| "leaf_text (LText t) = t"
| "leaf_text (LEtcd c t) = t"

fun leaves :: "goerr \<Rightarrow> leaf list" where
  "leaves (Sentinel n) = [LSentinel n]"
| "leaves (Fresh t) = [LText t]"
| "leaves (Combined ls) = ls"
| "leaves (EtcdErr c t) = [LEtcd c t]"
| "leaves (Errno n) = [LText (''errno '' @ format_int n)]"
| "leaves (Plain t) = [LText t]"

text \<open>The text of \<open>Error()\<close>: the description, then every further leaf after a colon.\<close>

definition error_text :: "goerr \<Rightarrow> string" where
  "error_text e = join '': '' (map leaf_text (leaves e))"

text \<open>\<open>e.Combine(e2)\<close> for a non-nil \<open>e2\<close>; with a nil \<open>e2\<close> it is \<open>e\<close> itself.\<close>

definition Combine :: "goerr \<Rightarrow> goerr \<Rightarrow> goerr" where
  "Combine e e2 = Combined (leaves e @ leaves e2)"

definition Combine_opt :: "goerr \<Rightarrow> goerr option \<Rightarrow> goerr" where
  "Combine_opt e o2 = (case o2 of None \<Rightarrow> e | Some e2 \<Rightarrow> Combine e e2)"

text \<open>\<open>e.Contains(s)\<close> for a sentinel \<open>s\<close>, and the type assertion \<open>err.(*errored.Error)\<close>.\<close>

fun Contains :: "goerr \<Rightarrow> goerr \<Rightarrow> bool" where
  "Contains e (Sentinel n) = (LSentinel n \<in> set (leaves e))"
| "Contains e _ = False"

fun is_errored :: "goerr \<Rightarrow> bool" where
  "is_errored (EtcdErr c t) = False"
| "is_errored (Errno n) = False"
| "is_errored (Plain t) = False"
| "is_errored _ = True"

text \<open>Sequencing of pure results.\<close>

definition bind_res :: "'a res \<Rightarrow> ('a \<Rightarrow> 'b res) \<Rightarrow> 'b res" where
  "bind_res r k = (case r of Ok x \<Rightarrow> k x | Err e \<Rightarrow> Err e | Panic p \<Rightarrow> Panic p | Hang \<Rightarrow> Hang)"

lemma bind_res_runs [simp]:
  "bind_res (Ok x) k = k x" "bind_res (Err e) k = Err e" "bind_res (Panic p) k = Panic p" "bind_res Hang k = Hang"
  by (simp_all add: bind_res_def)

lemma bind_res_Ok_iff: "bind_res r k = Ok y \<longleftrightarrow> (\<exists>x. r = Ok x \<and> k x = Ok y)"
  by (cases r) simp_all

lemma bind_res_OkE:
  assumes "bind_res r k = Ok y"
  obtains x where "r = Ok x" "k x = Ok y"
  using assms by (cases r) simp_all

section \<open>Package errors\<close>

text \<open>The codes of the etcd client, and \<open>etcdCodeTable\<close>.\<close>

abbreviation (input) ErrorCodeKeyNotFound :: int where "ErrorCodeKeyNotFound \<equiv> 100"
abbreviation (input) ErrorCodeTestFailed :: int where "ErrorCodeTestFailed \<equiv> 101"
abbreviation (input) ErrorCodeNotFile :: int where "ErrorCodeNotFile \<equiv> 102"
abbreviation (input) ErrorCodeNotDir :: int where "ErrorCodeNotDir \<equiv> 104"
abbreviation (input) ErrorCodeNodeExist :: int where "ErrorCodeNodeExist \<equiv> 105"
abbreviation (input) ErrorCodeDirNotEmpty :: int where "ErrorCodeDirNotEmpty \<equiv> 108"
abbreviation (input) ErrorCodePrevValueRequired :: int where "ErrorCodePrevValueRequired \<equiv> 201"

definition etcdCodeTable :: "(int \<times> goerr) list" where
  "etcdCodeTable =
     [(ErrorCodeKeyNotFound, NotExists), (ErrorCodeNodeExist, Exists),
      (ErrorCodePrevValueRequired, LockMismatch), (ErrorCodeTestFailed, LockFailed)]"

fun EtcdToErrored :: "goerr \<Rightarrow> goerr" where
  "EtcdToErrored (EtcdErr c t) = (case map_of etcdCodeTable c of None \<Rightarrow> EtcdErr c t | Some e \<Rightarrow> e)"
| "EtcdToErrored e = e"

text \<open>
  \<open>CombineError\<close>: the combination made in the branch for an \<open>*errored.Error\<close> is dropped, so the
  error is always rebuilt from its text.
\<close>

definition CombineError :: "goerr \<Rightarrow> string \<Rightarrow> goerr" where
  "CombineError err msg =
     (let dropped = (if is_errored err then Some (Combine err (Fresh msg)) else None)
      in Combine (Fresh (error_text err)) (Fresh msg))"

lemma EtcdToErrored_codes [simp]:
  "EtcdToErrored (EtcdErr 100 t) = NotExists"
  "EtcdToErrored (EtcdErr 105 t) = Exists"
  "EtcdToErrored (EtcdErr 101 t) = LockFailed"
  "EtcdToErrored (EtcdErr 201 t) = LockMismatch"
  by (simp_all add: etcdCodeTable_def)

lemma EtcdToErrored_other:
  "c \<notin> {100, 101, 105, 201} \<Longrightarrow> EtcdToErrored (EtcdErr c t) = EtcdErr c t"
  by (simp add: etcdCodeTable_def)

lemma EtcdToErrored_NotExists:
  "EtcdToErrored e = NotExists \<Longrightarrow> (\<exists>t. e = EtcdErr 100 t) \<or> e = NotExists"
  by (cases e) (auto simp: etcdCodeTable_def split: if_splits)

lemma EtcdToErrored_Exists:
  "EtcdToErrored e = Exists \<Longrightarrow> (\<exists>t. e = EtcdErr 105 t) \<or> e = Exists"
  by (cases e) (auto simp: etcdCodeTable_def split: if_splits)

lemma Combine_not_sentinel [simp]: "Combine a b \<noteq> Sentinel n" "Sentinel n \<noteq> Combine a b"
  by (simp_all add: Combine_def)

lemma Contains_Combine [simp]:
  "Contains (Combine a b) s \<longleftrightarrow> Contains a s \<or> Contains b s"
  by (cases s) (auto simp: Combine_def)

lemma Contains_self [simp]: "Contains (Sentinel n) (Sentinel m) \<longleftrightarrow> m = n"
  by simp

lemma error_text_Combine:
  "leaves a \<noteq> [] \<Longrightarrow> leaves b \<noteq> [] \<Longrightarrow> error_text (Combine a b) = error_text a @ '': '' @ error_text b"
  by (simp add: error_text_def Combine_def join_append)

text \<open>The texts of the sentinels are pairwise distinct, so a message names its variable.\<close>

lemma sentinel_names_distinct: "distinct (map fst sentinel_table)"
  by code_simp

lemma sentinel_texts_distinct: "distinct (map snd sentinel_table)"
  by code_simp

end
