(* ===== verification/Json.thy ===== *)
theory Json imports Go_Errors begin

text \<open>
  Package \<open>encoding/json\<close> as the repository uses it: the text of \<open>Marshal\<close>, the parser behind
  \<open>Unmarshal\<close>, and the decoding of objects into structs. Every record that is kept in etcd
  travels through these functions; the round trip \<open>parse (render j) = j\<close> is what makes a stored
  record readable and the compare-and-swap on its text meaningful. Integers are exact; a number
  with a fraction or an exponent is kept as its text and refused by every integer field.
\<close>

datatype json =
    JNull
  | JBool bool
  | JNum int
  | JFloat string
  | JStr string
  | JArr "json list"
  | JObj "(string \<times> json) list"

section \<open>Marshal\<close>

definition hex_digit :: "nat \<Rightarrow> char" where
  "hex_digit d = (if d < 10 then char_of (48 + d) else char_of (87 + d))"

text \<open>
  The escapes of \<open>json.Marshal\<close>: the two-byte escapes, \<open>\u00XY\<close> for the other control bytes and
  for the HTML characters.
\<close>

definition esc_char :: "char \<Rightarrow> string" where
  "esc_char c =
     (if c = CHR 0x22 then [CHR 0x5C, CHR 0x22]
      else if c = CHR 0x5C then [CHR 0x5C, CHR 0x5C]
      else if c = CHR 0x0A then [CHR 0x5C, CHR ''n'']
      else if c = CHR 0x0D then [CHR 0x5C, CHR ''r'']
      else if c = CHR 0x09 then [CHR 0x5C, CHR ''t'']
      else if (of_char c :: nat) < 32 \<or> c = CHR ''<'' \<or> c = CHR ''>'' \<or> c = CHR ''&'' then
        [CHR 0x5C, CHR ''u'', CHR ''0'', CHR ''0'', hex_digit (of_char c div 16), hex_digit (of_char c mod 16)]
      else [c])"

definition render_str :: "string \<Rightarrow> string" where
  "render_str s = [CHR 0x22] @ concat (map esc_char s) @ [CHR 0x22]"

fun render :: "json \<Rightarrow> string"
  and render_elems :: "json list \<Rightarrow> string"
  and render_members :: "(string \<times> json) list \<Rightarrow> string" where
  "render JNull = ''null''"
| "render (JBool b) = (if b then ''true'' else ''false'')"
| "render (JNum i) = format_int i"
| "render (JFloat t) = t"
| "render (JStr s) = render_str s"
| "render (JArr xs) = ''['' @ render_elems xs @ '']''"
| "render (JObj ms) = ''{'' @ render_members ms @ ''}''"
| "render_elems [] = []"
| "render_elems [x] = render x"
| "render_elems (x # y # ys) = render x @ '','' @ render_elems (y # ys)"
| "render_members [] = []"
| "render_members [(k, v)] = render_str k @ '':'' @ render v"
| "render_members ((k, v) # m # ms) = render_str k @ '':'' @ render v @ '','' @ render_members (m # ms)"

section \<open>The parser of Unmarshal\<close>

definition is_ws :: "char \<Rightarrow> bool" where
  "is_ws c \<longleftrightarrow> c = CHR '' '' \<or> c = CHR 0x09 \<or> c = CHR 0x0A \<or> c = CHR 0x0D"

definition skip_ws :: "string \<Rightarrow> string" where
  "skip_ws s = dropWhile is_ws s"

definition hex_val :: "char \<Rightarrow> nat option" where
  "hex_val c =
     (let n = (of_char c :: nat) in
      if 48 \<le> n \<and> n \<le> 57 then Some (n - 48)
      else if 97 \<le> n \<and> n \<le> 102 then Some (n - 87)
      else if 65 \<le> n \<and> n \<le> 70 then Some (n - 55)
      else None)"

definition utf8 :: "nat \<Rightarrow> string" where
  "utf8 n =
     (if n < 128 then [char_of n]
      else if n < 2048 then [char_of (192 + n div 64), char_of (128 + n mod 64)]
      else [char_of (224 + n div 4096), char_of (128 + n div 64 mod 64), char_of (128 + n mod 64)])"

definition simple_escape :: "char \<Rightarrow> char option" where
  "simple_escape c =
     map_of [(CHR 0x22, CHR 0x22), (CHR 0x5C, CHR 0x5C), (CHR ''/'', CHR ''/''),
       (CHR ''b'', CHR 0x08), (CHR ''f'', CHR 0x0C), (CHR ''n'', CHR 0x0A),
       (CHR ''r'', CHR 0x0D), (CHR ''t'', CHR 0x09)] c"

text \<open>The rest of a string literal, after its opening quote; \<open>None\<close> is a syntax error.\<close>

definition push_str :: "string \<Rightarrow> (string \<times> string) option \<Rightarrow> (string \<times> string) option" where
  "push_str p r = map_option (\<lambda>(t, rest). (p @ t, rest)) r"

fun parse_str :: "string \<Rightarrow> (string \<times> string) option" where
  "parse_str [] = None"
| "parse_str (c # cs) =
     (if c = CHR 0x22 then Some ([], cs)
      else if c = CHR 0x5C then
        (case cs of
           [] \<Rightarrow> None
         | d # ds \<Rightarrow>
             (if d = CHR ''u'' then
                (case ds of
                   h1 # h2 # h3 # h4 # es \<Rightarrow>
                     (case (hex_val h1, hex_val h2, hex_val h3, hex_val h4) of
                        (Some a, Some b, Some c', Some d') \<Rightarrow>
                          push_str (utf8 (((a * 16 + b) * 16 + c') * 16 + d')) (parse_str es)
                      | _ \<Rightarrow> None)
                 | _ \<Rightarrow> None)
              else
                (case simple_escape d of
                   None \<Rightarrow> None
                 | Some e \<Rightarrow> push_str [e] (parse_str ds))))
      else if (of_char c :: nat) < 32 then None
      else push_str [c] (parse_str cs))"

text \<open>A number literal; one that is not an integer is kept as text.\<close>

definition num_char :: "char \<Rightarrow> bool" where
  "num_char c \<longleftrightarrow> is_digit c \<or> c \<in> {CHR ''-'', CHR ''+'', CHR ''.'', CHR ''e'', CHR ''E''}"

definition int_literal :: "string \<Rightarrow> bool" where
  "int_literal s \<longleftrightarrow> s \<noteq> [] \<and> list_all is_digit s \<and> (hd s = CHR ''0'' \<longrightarrow> length s = 1)"

definition float_literal :: "string \<Rightarrow> bool" where
  "float_literal s =
     (let ip = takeWhile is_digit s; r1 = dropWhile is_digit s;
          frac = has_prefix ''.'' r1; f = takeWhile is_digit (tl r1);
          r2 = (if frac then dropWhile is_digit (tl r1) else r1);
          ex = (r2 \<noteq> [] \<and> hd r2 \<in> {CHR ''e'', CHR ''E''});
          r3 = tl r2; r4 = (if r3 \<noteq> [] \<and> hd r3 \<in> {CHR ''+'', CHR ''-''} then tl r3 else r3)
      in int_literal ip \<and> (frac \<longrightarrow> f \<noteq> []) \<and>
         (if ex then r4 \<noteq> [] \<and> list_all is_digit r4 else r2 = []))"

definition parse_num :: "string \<Rightarrow> (json \<times> string) option" where
  "parse_num s =
     (let t = takeWhile num_char s; rest = dropWhile num_char s;
          neg = has_prefix ''-'' t; u = (if neg then tl t else t)
      in if int_literal u then
           Some (JNum (if neg then - int (dec_val u) else int (dec_val u)), rest)
         else if float_literal u then Some (JFloat t, rest)
         else None)"

text \<open>The next token after white space is the byte \<open>c\<close>, and what follows it.\<close>

definition token :: "char \<Rightarrow> string \<Rightarrow> string option" where
  "token c s = (let t = skip_ws s in if t \<noteq> [] \<and> hd t = c then Some (tl t) else None)"

text \<open>
  Values by recursive descent. The first argument bounds the nesting and the elements read; a
  text of length \<open>n\<close> holds fewer than \<open>n + 1\<close> values, so \<open>n + 1\<close> is enough.
\<close>

definition parse_literal :: "string \<Rightarrow> (json \<times> string) option" where
  "parse_literal s =
     (if has_prefix ''null'' s then Some (JNull, drop 4 s)
      else if has_prefix ''true'' s then Some (JBool True, drop 4 s)
      else if has_prefix ''false'' s then Some (JBool False, drop 5 s)
      else parse_num s)"

fun parse_value :: "nat \<Rightarrow> string \<Rightarrow> (json \<times> string) option"
  and parse_elems :: "nat \<Rightarrow> string \<Rightarrow> (json list \<times> string) option"
  and parse_members :: "nat \<Rightarrow> string \<Rightarrow> ((string \<times> json) list \<times> string) option" where
  "parse_value 0 s = None"
| "parse_value (Suc n) s =
     (case token CHR 0x22 s of
        Some cs \<Rightarrow> map_option (\<lambda>(t, r). (JStr t, r)) (parse_str cs)
      | None \<Rightarrow>
     (case token CHR ''['' s of
        Some cs \<Rightarrow>
          (case token CHR '']'' cs of
             Some r \<Rightarrow> Some (JArr [], r)
           | None \<Rightarrow> map_option (\<lambda>(xs, r). (JArr xs, r)) (parse_elems n cs))
      | None \<Rightarrow>
     (case token CHR ''{'' s of
        Some cs \<Rightarrow>
          (case token CHR ''}'' cs of
             Some r \<Rightarrow> Some (JObj [], r)
           | None \<Rightarrow> map_option (\<lambda>(ms, r). (JObj ms, r)) (parse_members n cs))
      | None \<Rightarrow> parse_literal (skip_ws s))))"
| "parse_elems 0 s = None"
| "parse_elems (Suc n) s =
     (case parse_value n s of
        None \<Rightarrow> None
      | Some (v, r) \<Rightarrow>
          (case token CHR '','' r of
             Some r' \<Rightarrow> map_option (\<lambda>(vs, r''). (v # vs, r'')) (parse_elems n r')
           | None \<Rightarrow> map_option (\<lambda>r'. ([v], r')) (token CHR '']'' r)))"
| "parse_members 0 s = None"
| "parse_members (Suc n) s =
     (case token CHR 0x22 s of
        None \<Rightarrow> None
      | Some cs \<Rightarrow>
     (case parse_str cs of
        None \<Rightarrow> None
      | Some (k, r) \<Rightarrow>
     (case token CHR '':'' r of
        None \<Rightarrow> None
      | Some r1 \<Rightarrow>
     (case parse_value n r1 of
        None \<Rightarrow> None
      | Some (v, r2) \<Rightarrow>
          (case token CHR '','' r2 of
             Some r3 \<Rightarrow> map_option (\<lambda>(ms, r4). ((k, v) # ms, r4)) (parse_members n r3)
           | None \<Rightarrow> map_option (\<lambda>r3. ([(k, v)], r3)) (token CHR ''}'' r2))))))"

definition parse :: "string \<Rightarrow> json option" where
  "parse s =
     (case parse_value (Suc (length s)) s of
        None \<Rightarrow> None
      | Some (v, r) \<Rightarrow> if skip_ws r = [] then Some v else None)"

section \<open>The round trip\<close>

text \<open>Values that \<open>Marshal\<close> writes for the repository's structs: no fractional numbers.\<close>

fun wf_json :: "json \<Rightarrow> bool" where
  "wf_json (JFloat t) = False"
| "wf_json (JArr xs) = list_all wf_json xs"
| "wf_json (JObj ms) = list_all (\<lambda>p. wf_json (snd p)) ms"
| "wf_json _ = True"

subsection \<open>String literals\<close>

lemma hex_val_digit: "d < 16 \<Longrightarrow> hex_val (hex_digit d) = Some d"
  by (cases "d < 10") (simp_all add: hex_val_def hex_digit_def Let_def)

lemma push_str_push: "push_str p (push_str q r) = push_str (p @ q) r"
  by (cases r) (auto simp: push_str_def)

lemma parse_str_u00:
  assumes "n < 128"
  shows "parse_str (CHR 0x5C # CHR ''u'' # CHR ''0'' # CHR ''0'' # hex_digit (n div 16) # hex_digit (n mod 16) # t) =
     push_str [char_of n] (parse_str t)"
proof -
  have "hex_val CHR ''0'' = Some 0" by code_simp
  moreover have "hex_val (hex_digit (n div 16)) = Some (n div 16)"
    by (rule hex_val_digit) (use assms in auto)
  moreover have "hex_val (hex_digit (n mod 16)) = Some (n mod 16)"
    by (rule hex_val_digit) auto
  ultimately show ?thesis using assms by (simp add: utf8_def)
qed

lemma parse_str_esc: "parse_str (esc_char c @ t) = push_str [c] (parse_str t)"
proof -
  let ?n = "of_char c :: nat"
  have c: "char_of ?n = c" by simp
  consider (named) "c \<in> {CHR 0x22, CHR 0x5C, CHR 0x0A, CHR 0x0D, CHR 0x09}"
    | (u) "c \<notin> {CHR 0x22, CHR 0x5C, CHR 0x0A, CHR 0x0D, CHR 0x09}"
        "?n < 32 \<or> c = CHR ''<'' \<or> c = CHR ''>'' \<or> c = CHR ''&''"
    | (plain) "c \<notin> {CHR 0x22, CHR 0x5C, CHR 0x0A, CHR 0x0D, CHR 0x09}"
        "\<not> (?n < 32 \<or> c = CHR ''<'' \<or> c = CHR ''>'' \<or> c = CHR ''&'')"
    by blast
  then show ?thesis
  proof cases
    case named
    then show ?thesis by (auto simp: esc_char_def simple_escape_def)
  next
    case u
    then have e: "esc_char c = [CHR 0x5C, CHR ''u'', CHR ''0'', CHR ''0'', hex_digit (?n div 16), hex_digit (?n mod 16)]"
      by (simp add: esc_char_def)
    have "?n < 128" using u(2) by auto
    from parse_str_u00 [OF this, of t] show ?thesis by (simp only: e append_Cons append_Nil c)
  next
    case plain
    then show ?thesis by (simp add: esc_char_def)
  qed
qed

lemma parse_str_render: "parse_str (concat (map esc_char s) @ CHR 0x22 # rest) = Some (s, rest)"
proof (induction s)
  case Nil
  then show ?case by simp
next
  case (Cons c s)
  then show ?case by (simp add: parse_str_esc push_str_def)
qed

subsection \<open>Tokens\<close>

lemma skip_ws_Cons: "\<not> is_ws c \<Longrightarrow> skip_ws (c # s) = c # s"
  by (simp add: skip_ws_def)

lemma token_hit: "\<not> is_ws c \<Longrightarrow> token c (c # s) = Some s"
  by (simp add: token_def skip_ws_Cons)

lemma token_miss: "\<not> is_ws d \<Longrightarrow> d \<noteq> c \<Longrightarrow> token c (d # s) = None"
  by (simp add: token_def skip_ws_Cons)

lemma punctuation_not_ws:
  "\<not> is_ws CHR 0x22" "\<not> is_ws CHR '',''" "\<not> is_ws CHR '':''" "\<not> is_ws CHR ''[''"
  "\<not> is_ws CHR '']''" "\<not> is_ws CHR ''{''" "\<not> is_ws CHR ''}''"
  by code_simp+

lemmas tokens = token_hit token_miss punctuation_not_ws

definition scalar_start :: "char \<Rightarrow> bool" where
  "scalar_start c \<longleftrightarrow> c \<in> {CHR ''n'', CHR ''t'', CHR ''f'', CHR ''-''} \<or> is_digit c"

lemma is_digit_not_ws: "is_digit c \<Longrightarrow> \<not> is_ws c"
  by (auto simp: is_digit_def is_ws_def)

lemma scalar_start_tokens:
  assumes "scalar_start c"
  shows "\<not> is_ws c" "c \<noteq> CHR 0x22" "c \<noteq> CHR ''[''" "c \<noteq> CHR ''{''" "c \<noteq> CHR '']''" "c \<noteq> CHR ''}''"
    "c \<noteq> CHR '',''"
  using assms by (auto simp: scalar_start_def is_digit_def is_ws_def)

lemma format_nat_start: "\<exists>c t. format_nat n = c # t \<and> is_digit c"
  using format_nat_digits [of n] format_nat_not_Nil [of n] by (cases "format_nat n") auto

lemma format_int_start: "\<exists>c t. format_int i = c # t \<and> scalar_start c"
  using format_nat_start [of "nat i"] by (auto simp: format_int_def scalar_start_def)

subsection \<open>Numbers\<close>

lemma digit_num_char: "is_digit c \<Longrightarrow> num_char c" by (simp add: num_char_def)

lemma format_int_num_chars: "list_all num_char (format_int i)"
proof -
  have "list_all num_char (format_nat n)" for n
    using format_nat_digits [of n] by (auto simp: list_all_iff num_char_def)
  then show ?thesis by (simp add: format_int_def num_char_def)
qed

lemma takeWhile_num:
  assumes "list_all P s" "rest = [] \<or> \<not> P (hd rest)"
  shows "takeWhile P (s @ rest) = s \<and> dropWhile P (s @ rest) = rest"
  using assms by (induction s) (cases rest; auto)+

lemma format_nat_hd: "0 < n \<Longrightarrow> hd (format_nat n) \<noteq> CHR ''0''"
proof (induction n rule: format_nat.induct)
  case (1 n)
  show ?case
  proof (cases "n < 10")
    case True
    then have "digit_val (digit_char n) \<noteq> digit_val CHR ''0''"
      using "1.prems" by (simp add: digit_char_def digit_val_def)
    then have "digit_char n \<noteq> CHR ''0''" by metis
    with True show ?thesis by (subst format_nat.simps) simp
  next
    case False
    then have "hd (format_nat (n div 10)) \<noteq> CHR ''0''" by (intro "1.IH") auto
    with False show ?thesis by (subst format_nat.simps) simp
  qed
qed

lemma format_nat_literal: "int_literal (format_nat n)"
proof (cases "n = 0")
  case True
  then show ?thesis by (simp add: int_literal_def format_nat.simps [of 0] digit_char_def is_digit_def)
next
  case False
  then show ?thesis using format_nat_hd [of n] by (simp add: int_literal_def format_nat_digits)
qed

lemma parse_num_render:
  assumes "rest = [] \<or> \<not> num_char (hd rest)"
  shows "parse_num (format_int i @ rest) = Some (JNum i, rest)"
proof -
  have tw: "takeWhile num_char (format_int i @ rest) = format_int i"
    "dropWhile num_char (format_int i @ rest) = rest"
    using takeWhile_num [OF format_int_num_chars assms, of i] by auto
  show ?thesis
  proof (cases "i < 0")
    case True
    then have "format_int i = CHR ''-'' # format_nat (nat (- i))" by (simp add: format_int_def)
    with True show ?thesis
      unfolding parse_num_def Let_def tw
      by (simp add: has_prefix_def format_nat_literal dec_val_format_nat)
  next
    case False
    then have "format_int i = format_nat (nat i)" by (simp add: format_int_def)
    with False show ?thesis
      unfolding parse_num_def Let_def tw
      by (simp add: format_nat_no_sign format_nat_literal dec_val_format_nat)
  qed
qed

subsection \<open>Values\<close>

text \<open>How much of the bound a value uses.\<close>

fun need :: "json \<Rightarrow> nat"
  and need_elems :: "json list \<Rightarrow> nat"
  and need_members :: "(string \<times> json) list \<Rightarrow> nat" where
  "need (JArr xs) = Suc (need_elems xs)"
| "need (JObj ms) = Suc (need_members ms)"
| "need _ = 1"
| "need_elems [] = 0"
| "need_elems (x # xs) = Suc (max (need x) (need_elems xs))"
| "need_members [] = 0"
| "need_members ((k, v) # ms) = Suc (max (need v) (need_members ms))"

lemma need_pos [simp]: "0 < need j" by (cases j) auto

definition value_end :: "string \<Rightarrow> bool" where
  "value_end rest \<longleftrightarrow> rest = [] \<or> \<not> num_char (hd rest)"

lemma value_end_Cons: "value_end (c # s) \<longleftrightarrow> \<not> num_char c" by (simp add: value_end_def)

lemma value_end_punct:
  "value_end (CHR '','' # s)" "value_end (CHR '']'' # s)" "value_end (CHR ''}'' # s)"
  by (simp_all add: value_end_def num_char_def is_digit_def)

lemma render_start:
  assumes "wf_json j"
  shows "\<exists>c t. render j = c # t \<and> \<not> is_ws c \<and> c \<noteq> CHR '']'' \<and> c \<noteq> CHR ''}''"
proof (cases j)
  case (JNum i)
  then show ?thesis using format_int_start [of i] scalar_start_tokens by fastforce
qed (use assms in \<open>auto simp: render_str_def punctuation_not_ws is_ws_def\<close>)

lemma render_elems_start:
  assumes "list_all wf_json xs" "xs \<noteq> []"
  shows "token CHR '']'' (render_elems xs @ rest) = None"
proof -
  obtain x ys where xs: "xs = x # ys" using assms(2) by (cases xs) auto
  obtain c t where "render x = c # t" "\<not> is_ws c" "c \<noteq> CHR '']''"
    using render_start [of x] assms(1) xs by auto
  then show ?thesis by (cases ys) (simp_all add: xs tokens)
qed

lemma render_members_start:
  assumes "ms \<noteq> []"
  shows "token CHR ''}'' (render_members ms @ rest) = None"
proof -
  obtain k v ys where "ms = (k, v) # ys" using assms by (cases ms) auto
  then show ?thesis by (cases ys) (simp_all add: tokens render_str_def)
qed

lemma parse_value_scalar:
  assumes "scalar_start c"
  shows "parse_value (Suc n) (c # s) = parse_literal (c # s)"
  using scalar_start_tokens [OF assms] by (simp add: token_miss skip_ws_Cons)

lemma parse_value_num:
  assumes "value_end rest"
  shows "parse_value (Suc n) (format_int i @ rest) = Some (JNum i, rest)"
proof -
  obtain c t where f: "format_int i = c # t" and c: "c = CHR ''-'' \<or> is_digit c"
    by (cases "i < 0") (use format_nat_start [of "nat i"] in \<open>auto simp: format_int_def\<close>)
  then have "\<not> has_prefix ''null'' (c # t @ rest)" "\<not> has_prefix ''true'' (c # t @ rest)"
    "\<not> has_prefix ''false'' (c # t @ rest)"
    by (auto simp: has_prefix_def is_digit_def)
  moreover have "scalar_start c" using c by (auto simp: scalar_start_def)
  moreover have "parse_num (format_int i @ rest) = Some (JNum i, rest)"
    by (rule parse_num_render) (use assms in \<open>simp add: value_end_def\<close>)
  ultimately show ?thesis using parse_value_scalar [of c n "t @ rest"] by (simp add: f parse_literal_def)
qed

lemma parse_value_render_str:
  "parse_value (Suc n) (render_str s @ rest) = Some (JStr s, rest)"
  using parse_str_render [of s rest] by (simp add: render_str_def tokens)

lemma parse_render_steps:
  "wf_json j \<Longrightarrow> need j \<le> n \<Longrightarrow> value_end rest \<Longrightarrow> parse_value n (render j @ rest) = Some (j, rest)"
  "list_all wf_json xs \<Longrightarrow> xs \<noteq> [] \<Longrightarrow> need_elems xs \<le> n \<Longrightarrow>
     parse_elems n (render_elems xs @ CHR '']'' # rest) = Some (xs, rest)"
  "list_all (\<lambda>p. wf_json (snd p)) ms \<Longrightarrow> ms \<noteq> [] \<Longrightarrow> need_members ms \<le> n \<Longrightarrow>
     parse_members n (render_members ms @ CHR ''}'' # rest) = Some (ms, rest)"
proof (induction j and xs and ms arbitrary: n rest and n rest and n rest
    rule: render_render_elems_render_members.induct)
  case 1
  then show ?case
    by (cases n) (simp_all add: parse_value_scalar scalar_start_def parse_literal_def has_prefix_def
        del: parse_value.simps)
next
  case (2 b)
  then show ?case
    by (cases n) (auto simp: parse_value_scalar scalar_start_def parse_literal_def has_prefix_def
        simp del: parse_value.simps)
next
  case (3 i)
  then show ?case by (cases n) (simp_all add: parse_value_num del: parse_value.simps)
next
  case (4 t)
  then show ?case by simp
next
  case (5 s)
  then show ?case by (cases n) (simp_all add: parse_value_render_str del: parse_value.simps)
next
  case (6 xs)
  obtain m where n: "n = Suc m" using "6.prems"(2) by (cases n) auto
  show ?case
  proof (cases "xs = []")
    case True
    then show ?thesis by (simp add: n tokens)
  next
    case False
    then have "parse_elems m (render_elems xs @ CHR '']'' # rest) = Some (xs, rest)"
      using "6.IH" "6.prems" n by simp
    moreover have "token CHR '']'' (render_elems xs @ CHR '']'' # rest) = None"
      using render_elems_start False "6.prems"(1) by simp
    ultimately show ?thesis by (simp add: n tokens)
  qed
next
  case (7 ms)
  obtain m where n: "n = Suc m" using "7.prems"(2) by (cases n) auto
  show ?case
  proof (cases "ms = []")
    case True
    then show ?thesis by (simp add: n tokens)
  next
    case False
    then have "parse_members m (render_members ms @ CHR ''}'' # rest) = Some (ms, rest)"
      using "7.IH" "7.prems" n by simp
    moreover have "token CHR ''}'' (render_members ms @ CHR ''}'' # rest) = None"
      using render_members_start False by simp
    ultimately show ?thesis by (simp add: n tokens)
  qed
next
  case 8
  then show ?case by simp
next
  case (9 x)
  obtain m where n: "n = Suc m" using "9.prems"(3) by (cases n) auto
  have "parse_value m (render x @ CHR '']'' # rest) = Some (x, CHR '']'' # rest)"
    using "9.IH" "9.prems" n by (simp add: value_end_punct)
  then show ?case by (simp add: n tokens)
next
  case (10 x y ys)
  obtain m where n: "n = Suc m" using "10.prems"(3) by (cases n) auto
  have "parse_value m (render x @ CHR '','' # render_elems (y # ys) @ CHR '']'' # rest)
      = Some (x, CHR '','' # render_elems (y # ys) @ CHR '']'' # rest)"
    using "10.IH"(1) "10.prems" n by (simp add: value_end_punct)
  moreover have "parse_elems m (render_elems (y # ys) @ CHR '']'' # rest) = Some (y # ys, rest)"
    using "10.IH"(2) "10.prems" n by simp
  ultimately show ?case by (simp add: n tokens)
next
  case 11
  then show ?case by simp
next
  case (12 k v)
  obtain m where n: "n = Suc m" using "12.prems"(3) by (cases n) auto
  have "parse_value m (render v @ CHR ''}'' # rest) = Some (v, CHR ''}'' # rest)"
    using "12.IH" "12.prems" n by (simp add: value_end_punct)
  then show ?case by (simp add: n tokens render_str_def parse_str_render)
next
  case (13 k v m0 ms)
  obtain m where n: "n = Suc m" using "13.prems"(3) by (cases n) auto
  have "parse_value m (render v @ CHR '','' # render_members (m0 # ms) @ CHR ''}'' # rest)
      = Some (v, CHR '','' # render_members (m0 # ms) @ CHR ''}'' # rest)"
    using "13.IH"(1) "13.prems" n by (simp add: value_end_punct)
  moreover have "parse_members m (render_members (m0 # ms) @ CHR ''}'' # rest) = Some (m0 # ms, rest)"
    using "13.IH"(2) "13.prems" n by simp
  ultimately show ?case by (simp add: n tokens render_str_def parse_str_render)
qed

lemma render_Nil: "wf_json j \<Longrightarrow> 0 < length (render j)"
  using render_start [of j] by auto

lemma need_bound:
  "wf_json j \<Longrightarrow> need j \<le> length (render j)"
  "list_all wf_json xs \<Longrightarrow> need_elems xs \<le> Suc (length (render_elems xs))"
  "list_all (\<lambda>p. wf_json (snd p)) ms \<Longrightarrow> need_members ms \<le> Suc (length (render_members ms))"
proof (induction j and xs and ms rule: render_render_elems_render_members.induct)
  case (10 x y ys)
  then show ?case using render_Nil [of x] by simp
next
  case (3 i)
  then show ?case using render_Nil [of "JNum i"] by (simp add: Suc_le_eq)
qed (auto simp: render_str_def)

theorem parse_render:
  assumes "wf_json j"
  shows "parse (render j) = Some j"
proof -
  have "parse_value (Suc (length (render j))) (render j @ []) = Some (j, [])"
    by (rule parse_render_steps(1)) (use assms need_bound(1) [OF assms] in \<open>auto simp: value_end_def\<close>)
  then show ?thesis by (simp add: parse_def skip_ws_def del: parse_value.simps)
qed

corollary render_inj: "wf_json j \<Longrightarrow> wf_json j' \<Longrightarrow> render j = render j' \<Longrightarrow> j = j'"
  by (metis parse_render option.inject)

end
