(* ===== verification/Json_Struct.thy ===== *)
theory Json_Struct imports Json begin

text \<open>
  How \<open>encoding/json\<close> writes and fills Go structs: a struct is written as the object of its
  fields in declaration order, a field tagged \<open>omitempty\<close> only when it is not the zero value;
  an object fills a struct member by member, a member naming a field exactly or up to the case of
  its letters, unknown members ignored, the last of several members winning and a missing one
  leaving the field as it was.
\<close>

section \<open>Writing structs\<close>

text \<open>A field that is always written, and one that is left out when it is empty.\<close>

definition field :: "string \<Rightarrow> json \<Rightarrow> (string \<times> json) list" where
  "field k v = [(k, v)]"

definition field_unless :: "bool \<Rightarrow> string \<Rightarrow> json \<Rightarrow> (string \<times> json) list" where
  "field_unless omit k v = (if omit then [] else [(k, v)])"

definition json_smap :: "smap \<Rightarrow> json" where
  "json_smap m = JObj (map (\<lambda>(k, v). (k, JStr v)) m)"

text \<open>A nil map is \<open>null\<close>.\<close>

definition json_smap_opt :: "smap option \<Rightarrow> json" where
  "json_smap_opt m = (case m of None \<Rightarrow> JNull | Some m' \<Rightarrow> json_smap m')"

section \<open>Filling structs\<close>

definition lower_char :: "char \<Rightarrow> char" where
  "lower_char c = (if 65 \<le> (of_char c :: nat) \<and> (of_char c :: nat) \<le> 90 then char_of (of_char c + 32 :: nat) else c)"

definition fold_eq :: "string \<Rightarrow> string \<Rightarrow> bool" where
  "fold_eq a b \<longleftrightarrow> a = b \<or> map lower_char a = map lower_char b"

text \<open>A field decoder takes the member's value and the struct so far; \<open>None\<close> is a type error.\<close>

type_synonym 'r field_dec = "json \<Rightarrow> 'r \<Rightarrow> 'r option"

fun find_field :: "(string \<times> 'r field_dec) list \<Rightarrow> string \<Rightarrow> 'r field_dec option" where
  "find_field [] k = None"
| "find_field ((n, d) # fs) k = (if fold_eq n k then Some d else find_field fs k)"

fun fill_members :: "(string \<times> 'r field_dec) list \<Rightarrow> (string \<times> json) list \<Rightarrow> 'r \<Rightarrow> 'r option" where
  "fill_members fs [] r = Some r"
| "fill_members fs ((k, v) # ms) r =
     (case find_field fs k of
        None \<Rightarrow> fill_members fs ms r
      | Some d \<Rightarrow> (case d v r of None \<Rightarrow> None | Some r' \<Rightarrow> fill_members fs ms r'))"

fun fill :: "(string \<times> 'r field_dec) list \<Rightarrow> 'r field_dec" where
  "fill fs JNull r = Some r"
| "fill fs (JObj ms) r = fill_members fs ms r"
| "fill fs _ r = None"

fun get_string :: "json \<Rightarrow> string \<Rightarrow> string option" where
  "get_string (JStr s) old = Some s"
| "get_string JNull old = Some old"
| "get_string _ old = None"

fun get_bool :: "json \<Rightarrow> bool \<Rightarrow> bool option" where
  "get_bool (JBool b) old = Some b"
| "get_bool JNull old = Some old"
| "get_bool _ old = None"

text \<open>Integer fields of \<open>uint\<close>, \<open>uint64\<close> and \<open>int64\<close> refuse a number out of their range.\<close>

fun get_uint :: "nat \<Rightarrow> json \<Rightarrow> nat \<Rightarrow> nat option" where
  "get_uint bits (JNum i) old = (if 0 \<le> i \<and> i < 2 ^ bits then Some (nat i) else None)"
| "get_uint bits JNull old = Some old"
| "get_uint bits _ old = None"

fun get_int :: "nat \<Rightarrow> json \<Rightarrow> int \<Rightarrow> int option" where
  "get_int bits (JNum i) old = (if - (2 ^ (bits - 1)) \<le> i \<and> i < 2 ^ (bits - 1) then Some i else None)"
| "get_int bits JNull old = Some old"
| "get_int bits _ old = None"

text \<open>Map members are added to the map; a \<open>null\<close> member is the empty string, a \<open>null\<close> map is nil.\<close>

fun put_members :: "(string \<times> json) list \<Rightarrow> smap \<Rightarrow> smap option" where
  "put_members [] m = Some m"
| "put_members ((k, JStr v) # ms) m = put_members ms (smap_put k v m)"
| "put_members ((k, JNull) # ms) m = put_members ms (smap_put k [] m)"
| "put_members (_ # ms) m = None"

fun get_smap :: "json \<Rightarrow> smap option \<Rightarrow> smap option option" where
  "get_smap JNull old = Some None"
| "get_smap (JObj ms) old = map_option Some (put_members ms (case old of None \<Rightarrow> [] | Some m \<Rightarrow> m))"
| "get_smap _ old = None"

text \<open>A pointer to a struct: \<open>null\<close> is nil, an object fills the struct pointed to or a new one.\<close>

fun get_ptr :: "(string \<times> 'r field_dec) list \<Rightarrow> 'r \<Rightarrow> json \<Rightarrow> 'r option \<Rightarrow> 'r option option" where
  "get_ptr fs z JNull old = Some None"
| "get_ptr fs z j old = map_option Some (fill fs j (case old of None \<Rightarrow> z | Some r \<Rightarrow> r))"

text \<open>\<open>json.Unmarshal(text, &r)\<close> for a struct with these fields.\<close>

definition unmarshal :: "(string \<times> 'r field_dec) list \<Rightarrow> string \<Rightarrow> 'r \<Rightarrow> 'r res" where
  "unmarshal fs s r =
     (case parse s of
        None \<Rightarrow> Err (Plain ''invalid JSON'')
      | Some j \<Rightarrow> (case fill fs j r of None \<Rightarrow> Err (Plain ''cannot unmarshal'') | Some r' \<Rightarrow> Ok r'))"

section \<open>Lemmas\<close>

named_theorems json_fields \<comment> \<open>field tables and writers, unfolded to compute a round trip\<close>

lemmas [json_fields] = field_def field_unless_def

lemma put_members_smap:
  "put_members (map (\<lambda>(k, v). (k, JStr v)) m2) m1 = Some (fold (\<lambda>(k, v). smap_put k v) m2 m1)"
  by (induction m2 arbitrary: m1) auto

lemma get_smap_json [simp]:
  assumes "smap_ok m"
  shows "get_smap (json_smap m) None = Some (Some m)"
  using smap_rebuild [of "[]" m] assms by (simp add: json_smap_def put_members_smap)

lemma get_smap_json_opt [simp]:
  assumes "\<And>m'. m = Some m' \<Longrightarrow> smap_ok m'"
  shows "get_smap (json_smap_opt m) None = Some m"
  using assms by (cases m) (simp_all add: json_smap_opt_def)

lemma wf_json_smap [simp]: "wf_json (json_smap m)"
  by (auto simp: json_smap_def list_all_iff)

lemma wf_json_smap_opt [simp]: "wf_json (json_smap_opt m)"
  by (cases m) (simp_all add: json_smap_opt_def)

lemma get_uint_json [simp]: "n < 2 ^ bits \<Longrightarrow> get_uint bits (JNum (int n)) old = Some n"
proof -
  assume "n < 2 ^ bits"
  then have "int n < 2 ^ bits" by (metis of_nat_less_iff of_nat_numeral of_nat_power)
  then show ?thesis by simp
qed

lemma get_ptr_obj [simp]:
  "get_ptr fs z (JObj ms) None = map_option Some (fill_members fs ms z)"
  by simp

lemma put_members_ok: "put_members ms m = Some m' \<Longrightarrow> smap_ok m \<Longrightarrow> smap_ok m'"
  by (induction ms m rule: put_members.induct) auto

text \<open>Whatever is read into a map field keeps the representation sorted.\<close>

lemma get_smap_ok:
  assumes "get_smap j old = Some m" "\<And>o'. old = Some o' \<Longrightarrow> smap_ok o'" "m = Some m'"
  shows "smap_ok m'"
  using assms by (cases j) (auto split: option.splits intro: put_members_ok)

lemma unmarshal_render:
  assumes "wf_json j" "fill fs j r = Some r'"
  shows "unmarshal fs (render j) r = Ok r'"
  using assms by (simp add: unmarshal_def parse_render)

lemma fold_eq_refl [simp]: "fold_eq a a" by (simp add: fold_eq_def)

end
