(* ===== verification/Etcd.thy ===== *)
theory Etcd imports Json_Struct begin

text \<open>
  The key-value store. The repository reaches etcd through the \<open>KeysAPI\<close> of the vendored client;
  here its three calls are functions of the record \<open>client\<close> over a world the development
  does not look into. What the code relies on (the documented atomic compare-and-swap of etcd) is
  stated as locales, and proved of a store kept in memory, on which the witnesses run.
\<close>

section \<open>The client\<close>

datatype node = Node (n_key: string) (n_dir: bool) (n_value: string) (n_nodes: "node list")

datatype prev_exist = PrevIgnore | PrevExist | PrevNoExist

record set_opts =
  so_value :: string      \<comment> \<open>\<open>PrevValue\<close>, empty when not compared\<close>
  so_exist :: prev_exist
  so_ttl :: int
  so_dir :: bool

record del_opts =
  do_value :: string
  do_recursive :: bool
  do_dir :: bool

record get_opts =
  go_recursive :: bool
  go_sort :: bool
  go_quorum :: bool

text \<open>Nil options, and the ones the code builds.\<close>

definition set_nil :: set_opts where
  "set_nil = \<lparr>so_value = [], so_exist = PrevIgnore, so_ttl = 0, so_dir = False\<rparr>"

definition del_nil :: del_opts where
  "del_nil = \<lparr>do_value = [], do_recursive = False, do_dir = False\<rparr>"

definition get_nil :: get_opts where
  "get_nil = \<lparr>go_recursive = False, go_sort = False, go_quorum = False\<rparr>"

text \<open>
  A client: the calls of the \<open>KeysAPI\<close> and the key prefix of the installation
  (\<open>config.Client\<close>, \<open>etcd.Client\<close>).
\<close>

record 'w client =
  kv_get :: "string \<Rightarrow> get_opts \<Rightarrow> ('w, goerr, node) io"
  kv_set :: "string \<Rightarrow> string \<Rightarrow> set_opts \<Rightarrow> ('w, goerr, node) io"
  kv_del :: "string \<Rightarrow> del_opts \<Rightarrow> ('w, goerr, node) io"
  c_prefix :: string

section \<open>What etcd promises\<close>

text \<open>
  \<open>admits opt cur\<close>: the conditions of the options hold of the current value of the key. A call that
  succeeds was admitted and has taken effect; a refusal by a command error (a code below 200) has
  changed nothing and says why; after any other error the update may or may not have happened. The errors are the
  client's own, never values of package \<open>errored\<close>.
\<close>

definition admits :: "set_opts \<Rightarrow> string option \<Rightarrow> bool" where
  "admits opt cur \<longleftrightarrow>
     (so_exist opt = PrevNoExist \<longrightarrow> cur = None) \<and> (so_exist opt = PrevExist \<longrightarrow> cur \<noteq> None) \<and>
     (so_value opt \<noteq> [] \<longrightarrow> cur = Some (so_value opt))"

definition del_admits :: "del_opts \<Rightarrow> string option \<Rightarrow> bool" where
  "del_admits opt cur \<longleftrightarrow> cur \<noteq> None \<and> (do_value opt \<noteq> [] \<longrightarrow> cur = Some (do_value opt))"

text \<open>\<open>k\<close> lies below the directory \<open>d\<close>; what is left of the files when a subtree is gone.\<close>

definition below :: "string \<Rightarrow> string \<Rightarrow> bool" where
  "below d k \<longleftrightarrow> has_prefix (d @ slash) k"

definition prune :: "string \<Rightarrow> (string \<Rightarrow> string option) \<Rightarrow> string \<Rightarrow> string option" where
  "prune d fs k = (if k = d \<or> below d k then None else fs k)"

locale etcd =
  fixes c :: "('w, 'z) client_scheme"
    and fval :: "'w \<Rightarrow> string \<Rightarrow> string option"
  assumes set_returns: "\<exists>r w'. kv_set c k v opt w = (Ok r, w') \<or> (\<exists>e. kv_set c k v opt w = (Err e, w'))"
    and set_ok: "kv_set c k v opt w = (Ok r, w') \<Longrightarrow> \<not> so_dir opt \<Longrightarrow>
          admits opt (fval w k) \<and> fval w' = (fval w)(k \<mapsto> v)"
    and set_refused: "kv_set c k v opt w = (Err (EtcdErr code t), w') \<Longrightarrow> code < 200 \<Longrightarrow> fval w' = fval w"
    and set_mismatch: "kv_set c k v opt w = (Err (EtcdErr 101 t), w') \<Longrightarrow>
          so_value opt \<noteq> [] \<and> fval w k \<noteq> Some (so_value opt)"
    and set_missing: "kv_set c k v opt w = (Err (EtcdErr 100 t), w') \<Longrightarrow> fval w k = None"
    and set_exists: "kv_set c k v opt w = (Err (EtcdErr 105 t), w') \<Longrightarrow> so_exist opt = PrevNoExist"
    and set_unknown: "kv_set c k v opt w = (Err e, w') \<Longrightarrow> \<not> so_dir opt \<Longrightarrow>
          fval w' = fval w \<or> (admits opt (fval w k) \<and> fval w' = (fval w)(k \<mapsto> v))"
    and set_foreign: "kv_set c k v opt w = (Err e, w') \<Longrightarrow> \<not> is_errored e"
    and set_dir: "kv_set c k v opt w = (res, w') \<Longrightarrow> so_dir opt \<Longrightarrow> fval w' = fval w \<or> fval w' = (fval w)(k := None)"
    and del_returns: "\<exists>r w'. kv_del c k d w = (Ok r, w') \<or> (\<exists>e. kv_del c k d w = (Err e, w'))"
    and del_ok: "kv_del c k d w = (Ok r, w') \<Longrightarrow> \<not> do_recursive d \<Longrightarrow> \<not> do_dir d \<Longrightarrow>
          del_admits d (fval w k) \<and> fval w' = (fval w)(k := None)"
    and del_refused: "kv_del c k d w = (Err (EtcdErr code t), w') \<Longrightarrow> code < 200 \<Longrightarrow> fval w' = fval w"
    and del_unknown: "kv_del c k d w = (Err e, w') \<Longrightarrow> \<not> do_recursive d \<Longrightarrow> \<not> do_dir d \<Longrightarrow>
          fval w' = fval w \<or> (del_admits d (fval w k) \<and> fval w' = (fval w)(k := None))"
    and del_tree_ok: "kv_del c k d w = (Ok r, w') \<Longrightarrow> do_recursive d \<Longrightarrow> fval w' = prune k (fval w)"
    and del_tree_unknown: "kv_del c k d w = (Err e, w') \<Longrightarrow> do_recursive d \<Longrightarrow>
          fval w' = fval w \<or> fval w' = prune k (fval w)"
    and get_returns: "\<exists>r w'. kv_get c k g w = (Ok r, w') \<or> (\<exists>e. kv_get c k g w = (Err e, w'))"
    and get_keeps: "kv_get c k g w = (res, w') \<Longrightarrow> fval w' = fval w"
    and get_ok: "kv_get c k g w = (Ok n, w') \<Longrightarrow> fval w k = (if n_dir n then None else Some (n_value n))"
    and get_dir: "kv_get c k g w = (Ok n, w') \<Longrightarrow> n_dir n \<Longrightarrow> n_value n = []"
    and get_missing: "kv_get c k g w = (Err (EtcdErr 100 t), w') \<Longrightarrow> fval w k = None"
    and get_foreign: "kv_get c k g w = (Err e, w') \<Longrightarrow> \<not> is_errored e"

context etcd begin

lemma set_cases:
  assumes "kv_set c k v opt w = (r, w')"
  obtains n where "r = Ok n" | e where "r = Err e"
  using set_returns [of k v opt w] assms by (metis prod.inject)

lemma del_cases:
  assumes "kv_del c k d w = (r, w')"
  obtains n where "r = Ok n" | e where "r = Err e"
  using del_returns [of k d w] assms by (metis prod.inject)

lemma get_cases:
  assumes "kv_get c k g w = (r, w')"
  obtains n where "r = Ok n" | e where "r = Err e"
  using get_returns [of k g w] assms by (metis prod.inject)

end

text \<open>
  A store that is reachable answers by the conditions alone. \<open>free w k\<close> says that the tree has
  room for a file at \<open>k\<close>: \<open>k\<close> is not a directory and no parent of it is a file.
\<close>

locale etcd_up = etcd c fval
  for c :: "('w, 'z) client_scheme" and fval +
  fixes free :: "'w \<Rightarrow> string \<Rightarrow> bool"
  assumes set_up: "free w k \<Longrightarrow> \<not> so_dir opt \<Longrightarrow> admits opt (fval w k) \<Longrightarrow> \<exists>r w'. kv_set c k v opt w = (Ok r, w')"
    and set_taken: "free w k \<Longrightarrow> \<not> so_dir opt \<Longrightarrow> so_exist opt = PrevNoExist \<Longrightarrow> fval w k \<noteq> None \<Longrightarrow>
          \<exists>t w'. kv_set c k v opt w = (Err (EtcdErr 105 t), w')"
    and set_absent: "free w k \<Longrightarrow> \<not> so_dir opt \<Longrightarrow> so_exist opt \<noteq> PrevNoExist \<Longrightarrow> fval w k = None \<Longrightarrow>
          so_exist opt = PrevExist \<or> so_value opt \<noteq> [] \<Longrightarrow> \<exists>t w'. kv_set c k v opt w = (Err (EtcdErr 100 t), w')"
    and set_differs: "free w k \<Longrightarrow> \<not> so_dir opt \<Longrightarrow> so_exist opt \<noteq> PrevNoExist \<Longrightarrow> fval w k = Some x \<Longrightarrow>
          so_value opt \<noteq> [] \<Longrightarrow> so_value opt \<noteq> x \<Longrightarrow> \<exists>t w'. kv_set c k v opt w = (Err (EtcdErr 101 t), w')"
    and del_up: "fval w k = Some x \<Longrightarrow> \<not> do_recursive d \<Longrightarrow> \<not> do_dir d \<Longrightarrow> do_value d = [] \<or> do_value d = x \<Longrightarrow>
          \<exists>r w'. kv_del c k d w = (Ok r, w')"
    and del_differs: "fval w k = Some x \<Longrightarrow> \<not> do_recursive d \<Longrightarrow> \<not> do_dir d \<Longrightarrow> do_value d \<noteq> [] \<Longrightarrow> do_value d \<noteq> x \<Longrightarrow>
          \<exists>t w'. kv_del c k d w = (Err (EtcdErr 101 t), w')"
    and del_absent: "free w k \<Longrightarrow> fval w k = None \<Longrightarrow> \<not> do_recursive d \<Longrightarrow> \<not> do_dir d \<Longrightarrow>
          \<exists>t w'. kv_del c k d w = (Err (EtcdErr 100 t), w')"
    and get_up: "fval w k = Some x \<Longrightarrow> \<exists>n w'. kv_get c k g w = (Ok n, w') \<and> \<not> n_dir n \<and> n_value n = x"
    and get_absent: "free w k \<Longrightarrow> fval w k = None \<Longrightarrow> \<exists>t w'. kv_get c k g w = (Err (EtcdErr 100 t), w')"

section \<open>A store in memory\<close>

text \<open>
  The files in key order and the directories made explicitly. A key is a directory when it was
  made one or some file lies below it.
\<close>

record mem =
  m_files :: smap
  m_dirs :: "string list"

definition mem_file :: "'m mem_scheme \<Rightarrow> string \<Rightarrow> string option" where
  "mem_file w k = map_of (m_files w) k"

definition mem_dir :: "'m mem_scheme \<Rightarrow> string \<Rightarrow> bool" where
  "mem_dir w k \<longleftrightarrow> k \<in> set (m_dirs w) \<or> list_ex (below k) (map fst (m_files w)) \<or> list_ex (below k) (m_dirs w)"

definition mem_free :: "'m mem_scheme \<Rightarrow> string \<Rightarrow> bool" where
  "mem_free w k \<longleftrightarrow> \<not> mem_dir w k \<and> \<not> list_ex (\<lambda>f. below f k) (map fst (m_files w))"

definition cause :: string where "cause = ''refused''"

definition mem_set :: "string \<Rightarrow> string \<Rightarrow> set_opts \<Rightarrow> ('m mem_scheme, goerr, node) io" where
  "mem_set k v opt w =
     (if list_ex (\<lambda>f. below f k) (map fst (m_files w)) then (Err (EtcdErr 104 cause), w)
      else if so_dir opt then
        (if mem_file w k \<noteq> None \<or> mem_dir w k then (Err (EtcdErr 102 cause), w)
         else (Ok (Node k True [] []), w\<lparr>m_dirs := k # m_dirs w\<rparr>))
      else if so_exist opt = PrevNoExist \<and> (mem_file w k \<noteq> None \<or> mem_dir w k) then (Err (EtcdErr 105 cause), w)
      else if mem_dir w k then (Err (EtcdErr 102 cause), w)
      else if (so_exist opt = PrevExist \<or> so_value opt \<noteq> []) \<and> mem_file w k = None then (Err (EtcdErr 100 cause), w)
      else if so_value opt \<noteq> [] \<and> mem_file w k \<noteq> Some (so_value opt) then (Err (EtcdErr 101 cause), w)
      else (Ok (Node k False v []), w\<lparr>m_files := smap_put k v (m_files w)\<rparr>))"

definition mem_prune :: "string \<Rightarrow> 'm mem_scheme \<Rightarrow> 'm mem_scheme" where
  "mem_prune k w =
     w\<lparr>m_files := filter (\<lambda>p. \<not> (fst p = k \<or> below k (fst p))) (m_files w),
       m_dirs := filter (\<lambda>d. \<not> (d = k \<or> below k d)) (m_dirs w)\<rparr>"

definition mem_del :: "string \<Rightarrow> del_opts \<Rightarrow> ('m mem_scheme, goerr, node) io" where
  "mem_del k opt w =
     (case mem_file w k of
        Some x \<Rightarrow>
          if do_value opt \<noteq> [] \<and> do_value opt \<noteq> x then (Err (EtcdErr 101 cause), w)
          else if do_recursive opt then (Ok (Node k False [] []), mem_prune k w)
          else (Ok (Node k False [] []), w\<lparr>m_files := smap_del k (m_files w)\<rparr>)
      | None \<Rightarrow>
          if \<not> mem_dir w k then (Err (EtcdErr 100 cause), w)
          else if do_recursive opt then (Ok (Node k True [] []), mem_prune k w)
          else if \<not> do_dir opt then (Err (EtcdErr 102 cause), w)
          else if list_ex (below k) (map fst (m_files w)) \<or> list_ex (below k) (m_dirs w)
          then (Err (EtcdErr 108 cause), w)
          else (Ok (Node k True [] []), w\<lparr>m_dirs := filter (\<lambda>d. d \<noteq> k) (m_dirs w)\<rparr>))"

text \<open>
  The tree below a directory, from the entries below it: each entry is the list of the elements
  of its path and the file's value, or nothing for a directory.
\<close>

fun tree_of :: "nat \<Rightarrow> string \<Rightarrow> (string list \<times> string option) list \<Rightarrow> node list" where
  "tree_of 0 k es = []"
| "tree_of (Suc n) k es =
     map (\<lambda>s. let sub = map (\<lambda>e. (tl (fst e), snd e)) (filter (\<lambda>e. fst e \<noteq> [] \<and> hd (fst e) = s) es);
                 k' = k @ slash @ s
             in (case map_of sub [] of
                   Some (Some v) \<Rightarrow> Node k' False v []
                 | _ \<Rightarrow> Node k' True [] (tree_of n k' sub)))
       (remdups (map (\<lambda>e. hd (fst e)) (filter (\<lambda>e. fst e \<noteq> []) es)))"

definition entries_below :: "'m mem_scheme \<Rightarrow> string \<Rightarrow> (string list \<times> string option) list" where
  "entries_below w k =
     (let rel = (\<lambda>s. split_on CHR ''/'' (drop (length k + 1) s))
      in map (\<lambda>(f, v). (rel f, Some v)) (filter (\<lambda>p. below k (fst p)) (m_files w)) @
         map (\<lambda>d. (rel d, None)) (filter (below k) (m_dirs w)))"

definition mem_get :: "string \<Rightarrow> get_opts \<Rightarrow> ('m mem_scheme, goerr, node) io" where
  "mem_get k opt w =
     (case mem_file w k of
        Some x \<Rightarrow> (Ok (Node k False x []), w)
      | None \<Rightarrow>
          if mem_dir w k then
            (Ok (Node k True [] (tree_of (if go_recursive opt then 16 else 1) k (entries_below w k))), w)
          else (Err (EtcdErr 100 cause), w))"

definition mem_client :: "'m mem_scheme client" where
  "mem_client = \<lparr>kv_get = mem_get, kv_set = mem_set, kv_del = mem_del, c_prefix = ''/volplugin''\<rparr>"

definition mem_empty :: mem where
  "mem_empty = \<lparr>m_files = [], m_dirs = []\<rparr>"

lemmas mem_client_fields [simp] =
  client.select_convs(1) [of mem_get mem_set mem_del "''/volplugin''" "()", folded mem_client_def]
  client.select_convs(2) [of mem_get mem_set mem_del "''/volplugin''" "()", folded mem_client_def]
  client.select_convs(3) [of mem_get mem_set mem_del "''/volplugin''" "()", folded mem_client_def]
  client.select_convs(4) [of mem_get mem_set mem_del "''/volplugin''" "()", folded mem_client_def]

subsection \<open>The store in memory keeps the promises\<close>

lemma mem_file_put [simp]:
  "mem_file (w\<lparr>m_files := smap_put k v (m_files w)\<rparr>) = (mem_file w)(k \<mapsto> v)"
  by (simp add: mem_file_def fun_eq_iff)

lemma mem_file_del [simp]:
  "mem_file (w\<lparr>m_files := smap_del k (m_files w)\<rparr>) = (mem_file w)(k := None)"
  by (simp add: mem_file_def fun_eq_iff)

lemma mem_file_dirs [simp]: "mem_file (w\<lparr>m_dirs := ds\<rparr>) = mem_file w"
  by (simp add: mem_file_def fun_eq_iff)

lemma map_of_filter_key: "map_of (filter (\<lambda>p. \<not> P (fst p)) m) k = (if P k then None else map_of m k)"
  by (induction m) auto

lemma mem_file_pruned [simp]: "mem_file (mem_prune k w) = prune k (mem_file w)"
proof
  fix x
  show "mem_file (mem_prune k w) x = prune k (mem_file w) x"
    using map_of_filter_key [of "\<lambda>y. y = k \<or> below k y" "m_files w" x]
    by (simp add: mem_file_def mem_prune_def prune_def)
qed

interpretation mem: etcd mem_client mem_file
proof unfold_locales
  fix k v opt w w' r
  assume "kv_set mem_client k v opt w = (Ok r, w')" "\<not> so_dir opt"
  then show "admits opt (mem_file w k) \<and> mem_file w' = (mem_file w)(k \<mapsto> v)"
    by (auto simp: mem_set_def admits_def split: if_splits)
next
  fix k v opt w w' e
  assume "kv_set mem_client k v opt w = (Err e, w')" "\<not> so_dir opt"
  then show "mem_file w' = mem_file w \<or> (admits opt (mem_file w k) \<and> mem_file w' = (mem_file w)(k \<mapsto> v))"
    by (auto simp: mem_set_def split: if_splits)
next
  fix k d w w' r
  assume "kv_del mem_client k d w = (Ok r, w')" "\<not> do_recursive d" "\<not> do_dir d"
  then show "del_admits d (mem_file w k) \<and> mem_file w' = (mem_file w)(k := None)"
    by (auto simp: mem_del_def del_admits_def split: if_splits option.splits)
next
  fix k d w w' e
  assume "kv_del mem_client k d w = (Err e, w')" "\<not> do_recursive d" "\<not> do_dir d"
  then show "mem_file w' = mem_file w \<or> (del_admits d (mem_file w k) \<and> mem_file w' = (mem_file w)(k := None))"
    by (auto simp: mem_del_def split: if_splits option.splits)
qed (auto simp: mem_set_def mem_del_def mem_get_def split: if_splits option.splits)

interpretation mem: etcd_up mem_client mem_file mem_free
  by unfold_locales
    (auto simp: mem_set_def mem_del_def mem_get_def mem_free_def admits_def split: option.splits)

end
