(* ===== verification/Config_Types.thy ===== *)
theory Config_Types imports Etcd begin

text \<open>
  The data of package \<open>config\<close>: the structs kept in etcd with their JSON texts, and the layout
  of the keys below the prefix of the installation.
\<close>

section \<open>Structs of volume.go and policy.go\<close>

record CreateOptions =
  co_size :: string
  co_filesystem :: string

record RateLimitConfig =
  rl_write_bps :: nat     \<comment> \<open>\<open>uint64\<close>\<close>
  rl_read_bps :: nat

record SnapshotConfig =
  sc_frequency :: string
  sc_keep :: nat          \<comment> \<open>\<open>uint\<close>\<close>

record RuntimeOptions =
  ro_use_snapshots :: bool
  ro_snapshot :: SnapshotConfig
  ro_rate_limit :: RateLimitConfig

record BackendDrivers =
  bd_crud :: string
  bd_mount :: string
  bd_snapshot :: string

record Volume =
  v_policy :: string
  v_name :: string
  v_unlocked :: bool
  v_driver :: "smap option"
  v_mount :: string
  v_create :: CreateOptions
  v_runtime :: RuntimeOptions
  v_backends :: "BackendDrivers option"

record Policy =
  p_name :: string
  p_unlocked :: bool
  p_create :: CreateOptions
  p_runtime :: RuntimeOptions
  p_driver :: "smap option"
  p_filesystems :: "smap option"
  p_backends :: "BackendDrivers option"
  p_backend :: string

record VolumeRequest =
  vr_name :: string
  vr_policy :: string
  vr_options :: "smap option"

text \<open>Zero values (\<open>&Volume{}\<close> and the like).\<close>

definition zero_create :: CreateOptions where
  "zero_create = \<lparr>co_size = [], co_filesystem = []\<rparr>"

definition zero_rate :: RateLimitConfig where
  "zero_rate = \<lparr>rl_write_bps = 0, rl_read_bps = 0\<rparr>"

definition zero_snapshot :: SnapshotConfig where
  "zero_snapshot = \<lparr>sc_frequency = [], sc_keep = 0\<rparr>"

definition zero_runtime :: RuntimeOptions where
  "zero_runtime = \<lparr>ro_use_snapshots = False, ro_snapshot = zero_snapshot, ro_rate_limit = zero_rate\<rparr>"

definition zero_backends :: BackendDrivers where
  "zero_backends = \<lparr>bd_crud = [], bd_mount = [], bd_snapshot = []\<rparr>"

definition zero_volume :: Volume where
  "zero_volume = \<lparr>v_policy = [], v_name = [], v_unlocked = False, v_driver = None, v_mount = [],
     v_create = zero_create, v_runtime = zero_runtime, v_backends = None\<rparr>"

definition NewPolicy :: Policy where
  "NewPolicy = \<lparr>p_name = [], p_unlocked = False, p_create = zero_create, p_runtime = zero_runtime,
     p_driver = None, p_filesystems = None, p_backends = None, p_backend = []\<rparr>"

definition zero_request :: VolumeRequest where
  "zero_request = \<lparr>vr_name = [], vr_policy = [], vr_options = None\<rparr>"

lemmas zero_defs = zero_create_def zero_rate_def zero_snapshot_def zero_runtime_def
  zero_backends_def zero_volume_def NewPolicy_def zero_request_def

section \<open>Their JSON texts\<close>

definition create_json :: "CreateOptions \<Rightarrow> json" where
  "create_json c = JObj (field ''size'' (JStr (co_size c)) @ field ''filesystem'' (JStr (co_filesystem c)))"

definition rate_json :: "RateLimitConfig \<Rightarrow> json" where
  "rate_json r = JObj (field ''write-bps'' (JNum (int (rl_write_bps r))) @
                       field ''read-bps'' (JNum (int (rl_read_bps r))))"

definition snapshot_json :: "SnapshotConfig \<Rightarrow> json" where
  "snapshot_json s = JObj (field ''frequency'' (JStr (sc_frequency s)) @ field ''keep'' (JNum (int (sc_keep s))))"

text \<open>\<open>omitempty\<close> has no effect on a struct field, so \<open>rate-limit\<close> is always written.\<close>

definition runtime_json :: "RuntimeOptions \<Rightarrow> json" where
  "runtime_json r = JObj (field ''snapshots'' (JBool (ro_use_snapshots r)) @
     field ''snapshot'' (snapshot_json (ro_snapshot r)) @
     field ''rate-limit'' (rate_json (ro_rate_limit r)))"

definition backends_json :: "BackendDrivers \<Rightarrow> json" where
  "backends_json b = JObj (field ''crud'' (JStr (bd_crud b)) @ field ''mount'' (JStr (bd_mount b)) @
     field ''snapshot'' (JStr (bd_snapshot b)))"

definition ptr_json :: "('a \<Rightarrow> json) \<Rightarrow> 'a option \<Rightarrow> json" where
  "ptr_json f p = (case p of None \<Rightarrow> JNull | Some x \<Rightarrow> f x)"

definition volume_json :: "Volume \<Rightarrow> json" where
  "volume_json v = JObj (field ''policy'' (JStr (v_policy v)) @ field ''name'' (JStr (v_name v)) @
     field_unless (\<not> v_unlocked v) ''unlocked'' (JBool (v_unlocked v)) @
     field ''driver'' (json_smap_opt (v_driver v)) @
     field ''mount'' (JStr (v_mount v)) @
     field ''create'' (create_json (v_create v)) @
     field ''runtime'' (runtime_json (v_runtime v)) @
     field_unless (v_backends v = None) ''backends'' (ptr_json backends_json (v_backends v)))"

definition policy_json :: "Policy \<Rightarrow> json" where
  "policy_json p = JObj (field ''name'' (JStr (p_name p)) @
     field_unless (\<not> p_unlocked p) ''unlocked'' (JBool (p_unlocked p)) @
     field ''create'' (create_json (p_create p)) @
     field ''runtime'' (runtime_json (p_runtime p)) @
     field ''driver'' (json_smap_opt (p_driver p)) @
     field ''filesystems'' (json_smap_opt (p_filesystems p)) @
     field_unless (p_backends p = None) ''backends'' (ptr_json backends_json (p_backends p)) @
     field_unless (p_backend p = []) ''backend'' (JStr (p_backend p)))"

text \<open>The field tables for reading.\<close>

definition create_fields :: "(string \<times> CreateOptions field_dec) list" where
  "create_fields =
     [(''size'', \<lambda>j r. map_option (\<lambda>x. r\<lparr>co_size := x\<rparr>) (get_string j (co_size r))),
      (''filesystem'', \<lambda>j r. map_option (\<lambda>x. r\<lparr>co_filesystem := x\<rparr>) (get_string j (co_filesystem r)))]"

definition rate_fields :: "(string \<times> RateLimitConfig field_dec) list" where
  "rate_fields =
     [(''write-bps'', \<lambda>j r. map_option (\<lambda>x. r\<lparr>rl_write_bps := x\<rparr>) (get_uint 64 j (rl_write_bps r))),
      (''read-bps'', \<lambda>j r. map_option (\<lambda>x. r\<lparr>rl_read_bps := x\<rparr>) (get_uint 64 j (rl_read_bps r)))]"

definition snapshot_fields :: "(string \<times> SnapshotConfig field_dec) list" where
  "snapshot_fields =
     [(''frequency'', \<lambda>j r. map_option (\<lambda>x. r\<lparr>sc_frequency := x\<rparr>) (get_string j (sc_frequency r))),
      (''keep'', \<lambda>j r. map_option (\<lambda>x. r\<lparr>sc_keep := x\<rparr>) (get_uint 64 j (sc_keep r)))]"

definition runtime_fields :: "(string \<times> RuntimeOptions field_dec) list" where
  "runtime_fields =
     [(''snapshots'', \<lambda>j r. map_option (\<lambda>x. r\<lparr>ro_use_snapshots := x\<rparr>) (get_bool j (ro_use_snapshots r))),
      (''snapshot'', \<lambda>j r. map_option (\<lambda>x. r\<lparr>ro_snapshot := x\<rparr>) (fill snapshot_fields j (ro_snapshot r))),
      (''rate-limit'', \<lambda>j r. map_option (\<lambda>x. r\<lparr>ro_rate_limit := x\<rparr>) (fill rate_fields j (ro_rate_limit r)))]"

definition backends_fields :: "(string \<times> BackendDrivers field_dec) list" where
  "backends_fields =
     [(''crud'', \<lambda>j r. map_option (\<lambda>x. r\<lparr>bd_crud := x\<rparr>) (get_string j (bd_crud r))),
      (''mount'', \<lambda>j r. map_option (\<lambda>x. r\<lparr>bd_mount := x\<rparr>) (get_string j (bd_mount r))),
      (''snapshot'', \<lambda>j r. map_option (\<lambda>x. r\<lparr>bd_snapshot := x\<rparr>) (get_string j (bd_snapshot r)))]"

definition volume_fields :: "(string \<times> Volume field_dec) list" where
  "volume_fields =
     [(''policy'', \<lambda>j r. map_option (\<lambda>x. r\<lparr>v_policy := x\<rparr>) (get_string j (v_policy r))),
      (''name'', \<lambda>j r. map_option (\<lambda>x. r\<lparr>v_name := x\<rparr>) (get_string j (v_name r))),
      (''unlocked'', \<lambda>j r. map_option (\<lambda>x. r\<lparr>v_unlocked := x\<rparr>) (get_bool j (v_unlocked r))),
      (''driver'', \<lambda>j r. map_option (\<lambda>x. r\<lparr>v_driver := x\<rparr>) (get_smap j (v_driver r))),
      (''mount'', \<lambda>j r. map_option (\<lambda>x. r\<lparr>v_mount := x\<rparr>) (get_string j (v_mount r))),
      (''create'', \<lambda>j r. map_option (\<lambda>x. r\<lparr>v_create := x\<rparr>) (fill create_fields j (v_create r))),
      (''runtime'', \<lambda>j r. map_option (\<lambda>x. r\<lparr>v_runtime := x\<rparr>) (fill runtime_fields j (v_runtime r))),
      (''backends'', \<lambda>j r. map_option (\<lambda>x. r\<lparr>v_backends := x\<rparr>) (get_ptr backends_fields zero_backends j (v_backends r)))]"

definition policy_fields :: "(string \<times> Policy field_dec) list" where
  "policy_fields =
     [(''name'', \<lambda>j r. map_option (\<lambda>x. r\<lparr>p_name := x\<rparr>) (get_string j (p_name r))),
      (''unlocked'', \<lambda>j r. map_option (\<lambda>x. r\<lparr>p_unlocked := x\<rparr>) (get_bool j (p_unlocked r))),
      (''create'', \<lambda>j r. map_option (\<lambda>x. r\<lparr>p_create := x\<rparr>) (fill create_fields j (p_create r))),
      (''runtime'', \<lambda>j r. map_option (\<lambda>x. r\<lparr>p_runtime := x\<rparr>) (fill runtime_fields j (p_runtime r))),
      (''driver'', \<lambda>j r. map_option (\<lambda>x. r\<lparr>p_driver := x\<rparr>) (get_smap j (p_driver r))),
      (''filesystems'', \<lambda>j r. map_option (\<lambda>x. r\<lparr>p_filesystems := x\<rparr>) (get_smap j (p_filesystems r))),
      (''backends'', \<lambda>j r. map_option (\<lambda>x. r\<lparr>p_backends := x\<rparr>) (get_ptr backends_fields zero_backends j (p_backends r))),
      (''backend'', \<lambda>j r. map_option (\<lambda>x. r\<lparr>p_backend := x\<rparr>) (get_string j (p_backend r)))]"

definition request_fields :: "(string \<times> VolumeRequest field_dec) list" where
  "request_fields =
     [(''name'', \<lambda>j r. map_option (\<lambda>x. r\<lparr>vr_name := x\<rparr>) (get_string j (vr_name r))),
      (''policy'', \<lambda>j r. map_option (\<lambda>x. r\<lparr>vr_policy := x\<rparr>) (get_string j (vr_policy r))),
      (''options'', \<lambda>j r. map_option (\<lambda>x. r\<lparr>vr_options := x\<rparr>) (get_smap j (vr_options r)))]"

subsection \<open>Values that fit the Go types\<close>

definition runtime_fits :: "RuntimeOptions \<Rightarrow> bool" where
  "runtime_fits r \<longleftrightarrow> sc_keep (ro_snapshot r) < 2 ^ 64 \<and> rl_write_bps (ro_rate_limit r) < 2 ^ 64 \<and>
     rl_read_bps (ro_rate_limit r) < 2 ^ 64"

definition smap_fits :: "smap option \<Rightarrow> bool" where
  "smap_fits m \<longleftrightarrow> (case m of None \<Rightarrow> True | Some m' \<Rightarrow> smap_ok m')"

definition volume_fits :: "Volume \<Rightarrow> bool" where
  "volume_fits v \<longleftrightarrow> smap_fits (v_driver v) \<and> runtime_fits (v_runtime v)"

definition policy_fits :: "Policy \<Rightarrow> bool" where
  "policy_fits p \<longleftrightarrow> smap_fits (p_driver p) \<and> smap_fits (p_filesystems p) \<and> runtime_fits (p_runtime p)"

lemma get_smap_fits: "smap_fits m \<Longrightarrow> get_smap (json_smap_opt m) None = Some m"
  by (rule get_smap_json_opt) (auto simp: smap_fits_def)

section \<open>Reading back what was written\<close>

lemma fold_eq_dec: "fold_eq a b = (a = b \<or> map lower_char a = map lower_char b)"
  by (simp add: fold_eq_def)

lemma wf_parts [simp]: "wf_json (create_json c)" "wf_json (rate_json rl)" "wf_json (snapshot_json s)"
  "wf_json (runtime_json r)" "wf_json (backends_json b)"
  by (simp_all add: create_json_def rate_json_def snapshot_json_def runtime_json_def backends_json_def
      json_fields)

lemma wf_volume_json [simp]: "wf_json (volume_json v)"
  by (cases "v_backends v") (simp_all add: volume_json_def json_fields ptr_json_def)

lemma wf_policy_json [simp]: "wf_json (policy_json p)"
  by (cases "p_backends p") (simp_all add: policy_json_def json_fields ptr_json_def)

lemma fill_create: "fill create_fields (create_json c) z = Some c"
  by (simp add: create_json_def create_fields_def json_fields fold_eq_def lower_char_def)

lemma fill_rate:
  "rl_write_bps r < 2 ^ 64 \<Longrightarrow> rl_read_bps r < 2 ^ 64 \<Longrightarrow> fill rate_fields (rate_json r) z = Some r"
  by (simp add: rate_json_def rate_fields_def json_fields fold_eq_def lower_char_def)

lemma fill_snapshot: "sc_keep s < 2 ^ 64 \<Longrightarrow> fill snapshot_fields (snapshot_json s) z = Some s"
  by (simp add: snapshot_json_def snapshot_fields_def json_fields fold_eq_def lower_char_def)

lemma fill_runtime: "runtime_fits r \<Longrightarrow> fill runtime_fields (runtime_json r) z = Some r"
  by (simp add: runtime_json_def runtime_fields_def json_fields fold_eq_def lower_char_def
      fill_snapshot fill_rate runtime_fits_def)

lemma fill_backends: "fill backends_fields (backends_json b) z = Some b"
  by (simp add: backends_json_def backends_fields_def json_fields fold_eq_def lower_char_def)

lemma get_ptr_backends: "get_ptr backends_fields zero_backends (backends_json b) p = Some (Some b)"
proof -
  obtain ms where ms: "backends_json b = JObj ms" by (simp add: backends_json_def)
  then have "fill_members backends_fields ms z = Some b" for z using fill_backends [of b z] by simp
  then show ?thesis by (simp add: ms)
qed

lemma fill_obj: "fill fs (JObj ms) r = fill_members fs ms r" by simp

lemma fill_volume: "volume_fits v \<Longrightarrow> fill volume_fields (volume_json v) zero_volume = Some v"
  by (cases "v_backends v"; cases "v_unlocked v")
    (simp_all add: volume_json_def volume_fields_def json_fields fold_eq_def lower_char_def fill_create
      fill_runtime get_ptr_backends get_smap_fits volume_fits_def ptr_json_def zero_volume_def fill_obj
      del: get_ptr.simps fill.simps)

lemma fill_policy: "policy_fits p \<Longrightarrow> fill policy_fields (policy_json p) NewPolicy = Some p"
  by (cases "p_backends p"; cases "p_unlocked p"; cases "p_backend p = []")
    (simp_all add: policy_json_def policy_fields_def json_fields fold_eq_def lower_char_def fill_create
      fill_runtime get_ptr_backends get_smap_fits policy_fits_def ptr_json_def NewPolicy_def fill_obj
      del: get_ptr.simps fill.simps)

end
