(* ===== verification/Config_Client.thy ===== *)
theory Config_Client imports Config_Types begin

text \<open>
  \<open>config/config.go\<close>: the client of the intent store, the layout of its keys, the directories a
  new client makes, and the tarball of the whole namespace.
\<close>

section \<open>Keys\<close>

definition rootVolume :: string where "rootVolume = ''volumes''"
definition rootUse :: string where "rootUse = ''users''"
definition rootPolicy :: string where "rootPolicy = ''policies''"
definition rootPolicyArchive :: string where "rootPolicyArchive = ''policy-archives''"
definition rootSnapshots :: string where "rootSnapshots = ''snapshots''"

definition defaultPaths :: "string list" where
  "defaultPaths = [rootVolume, rootUse, rootPolicy, rootPolicyArchive, rootSnapshots]"

lemmas root_defs = rootVolume_def rootUse_def rootPolicy_def rootPolicyArchive_def rootSnapshots_def

definition VolumeRequest_String :: "VolumeRequest \<Rightarrow> string" where
  "VolumeRequest_String v = join slash [vr_policy v, vr_name v]"

definition prefixed :: "('w, 'z) client_scheme \<Rightarrow> string list \<Rightarrow> string" where
  "prefixed c strs = foldl (\<lambda>str s. path_join [str, s]) (c_prefix c) strs"

text \<open>A prefix as the installation writes it (\<open>/volplugin\<close>), and names that are relative paths.\<close>

definition wf_prefix :: "string \<Rightarrow> bool" where
  "wf_prefix p \<longleftrightarrow> path_segs p \<noteq> [] \<and> list_all plain_seg (path_segs p) \<and> p = slash @ join slash (path_segs p)"

definition name_segs :: "string \<Rightarrow> string list" where
  "name_segs s = split_on CHR ''/'' s"

definition name_ok :: "string \<Rightarrow> bool" where
  "name_ok s \<longleftrightarrow> list_all plain_seg (name_segs s)"

lemma join_name_segs: "join slash (name_segs s) = s"
  unfolding name_segs_def by (rule join_split_on)

lemma name_segs_not_Nil [simp]: "name_segs s \<noteq> []"
  by (simp add: name_segs_def)

lemma name_segs_plain: "plain_seg s \<Longrightarrow> name_segs s = [s]"
  by (simp add: name_segs_def plain_seg_def split_on_no_sep)

lemma plain_name_ok: "plain_seg s \<Longrightarrow> name_ok s"
  by (simp add: name_ok_def name_segs_plain)

lemma root_plain [simp]:
  "plain_seg rootVolume" "plain_seg rootUse" "plain_seg rootPolicy" "plain_seg rootPolicyArchive"
  "plain_seg rootSnapshots"
  by (simp_all add: root_defs plain_seg_def)

lemma foldl_join:
  assumes "ss \<noteq> []" "\<forall>s \<in> set ss. plain_seg s" "list_all name_ok strs"
  shows "foldl (\<lambda>str s. path_join [str, s]) (slash @ join slash ss) strs
    = slash @ join slash (ss @ concat (map name_segs strs))"
  using assms
proof (induction strs arbitrary: ss)
  case Nil
  then show ?case by simp
next
  case (Cons s strs)
  have s: "\<forall>x \<in> set (name_segs s). plain_seg x" using Cons.prems(3) by (simp add: name_ok_def list_all_iff)
  have step: "path_join [slash @ join slash ss, s] = slash @ join slash (ss @ name_segs s)"
    using path_join_segs [OF Cons.prems(1) name_segs_not_Nil Cons.prems(2) s] by (simp only: join_name_segs)
  have "foldl (\<lambda>str s. path_join [str, s]) (slash @ join slash ss) (s # strs)
      = foldl (\<lambda>str s. path_join [str, s]) (slash @ join slash (ss @ name_segs s)) strs"
    by (simp only: foldl_Cons step)
  also have "\<dots> = slash @ join slash ((ss @ name_segs s) @ concat (map name_segs strs))"
    by (rule Cons.IH) (use Cons.prems s in auto)
  finally show ?case by simp
qed

lemma prefixed_segs:
  assumes "wf_prefix (c_prefix c)" "list_all name_ok strs"
  shows "prefixed c strs = slash @ join slash (path_segs (c_prefix c) @ concat (map name_segs strs))"
proof -
  have "\<forall>s \<in> set (path_segs (c_prefix c)). plain_seg s" and ne: "path_segs (c_prefix c) \<noteq> []"
    and p: "c_prefix c = slash @ join slash (path_segs (c_prefix c))"
    using assms(1) by (auto simp: wf_prefix_def list_all_iff)
  from foldl_join [OF ne this(1) assms(2)] show ?thesis
    unfolding prefixed_def using p by metis
qed

lemma plain_no_slash: "plain_seg s \<Longrightarrow> CHR ''/'' \<notin> set s" by (simp add: plain_seg_def)

text \<open>Two keys of the layout are equal only if their elements are.\<close>

lemma prefixed_inj:
  assumes "wf_prefix (c_prefix c)" "list_all name_ok xs" "list_all name_ok ys"
    and "prefixed c xs = prefixed c ys"
  shows "concat (map name_segs xs) = concat (map name_segs ys)"
proof -
  let ?p = "path_segs (c_prefix c)"
  have sl: "\<forall>s \<in> set (?p @ concat (map name_segs zs)). CHR ''/'' \<notin> set s" if "list_all name_ok zs" for zs
    using that assms(1) by (auto simp: name_ok_def list_all_iff wf_prefix_def plain_no_slash)
  have ne: "?p @ zs \<noteq> []" for zs using assms(1) by (simp add: wf_prefix_def)
  have "join slash (?p @ concat (map name_segs xs)) = join slash (?p @ concat (map name_segs ys))"
    using assms(4) prefixed_segs [OF assms(1,2)] prefixed_segs [OF assms(1,3)] by simp
  from join_slash_inj [OF this ne ne sl [OF assms(2)] sl [OF assms(3)]] show ?thesis by simp
qed

lemma name_segs_inj: "name_segs a = name_segs b \<Longrightarrow> a = b"
  by (metis join_name_segs)

text \<open>Keys under different directories of the layout are different.\<close>

lemma prefixed_apart:
  assumes "wf_prefix (c_prefix c)" "plain_seg r1" "plain_seg r2" "r1 \<noteq> r2" "list_all name_ok xs" "list_all name_ok ys"
  shows "prefixed c (r1 # xs) \<noteq> prefixed c (r2 # ys)"
proof
  assume "prefixed c (r1 # xs) = prefixed c (r2 # ys)"
  from prefixed_inj [OF assms(1) _ _ this] assms(2,3,5,6)
  have "name_segs r1 @ concat (map name_segs xs) = name_segs r2 @ concat (map name_segs ys)"
    by (simp add: plain_name_ok)
  then show False using assms(4) by (simp add: name_segs_plain [OF assms(2)] name_segs_plain [OF assms(3)])
qed

text \<open>A key lies below another exactly when its elements extend the other's.\<close>

lemma below_segs:
  assumes "ds \<noteq> []" "ks \<noteq> []" "\<forall>s \<in> set ds. CHR ''/'' \<notin> set s" "\<forall>s \<in> set ks. CHR ''/'' \<notin> set s"
  shows "below (slash @ join slash ds) (slash @ join slash ks) \<longleftrightarrow> (\<exists>rs. rs \<noteq> [] \<and> ks = ds @ rs)"
proof
  assume "below (slash @ join slash ds) (slash @ join slash ks)"
  then obtain t where "slash @ join slash ks = ((slash @ join slash ds) @ slash) @ t"
    unfolding below_def has_prefix_def by (metis append_take_drop_id)
  then have "join slash ks = join slash ds @ slash @ join slash (split_on CHR ''/'' t)"
    by (simp add: join_split_on)
  also have "\<dots> = join slash (ds @ split_on CHR ''/'' t)" using assms(1) by (simp add: join_append)
  finally have "ks = ds @ split_on CHR ''/'' t"
    by (rule join_slash_inj) (use assms split_on_parts in auto)
  then show "\<exists>rs. rs \<noteq> [] \<and> ks = ds @ rs" by auto
next
  assume "\<exists>rs. rs \<noteq> [] \<and> ks = ds @ rs"
  then obtain rs where "rs \<noteq> []" "ks = ds @ rs" by blast
  then have "slash @ join slash ks = ((slash @ join slash ds) @ slash) @ join slash rs"
    using assms(1) by (simp add: join_append)
  then show "below (slash @ join slash ds) (slash @ join slash ks)"
    by (metis below_def has_prefix_append)
qed

section \<open>NewClient\<close>

text \<open>\<open>client.New\<close> and \<open>NewKeysAPI\<close> belong to the etcd client and are the parameter \<open>connect\<close>.\<close>

fun make_dirs :: "('w, 'z) client_scheme \<Rightarrow> string list \<Rightarrow> ('w, goerr, unit) io" where
  "make_dirs c [] = ret ()"
| "make_dirs c (p # ps) =
     regardless (kv_set c (prefixed c [p]) [] (set_nil\<lparr>so_dir := True\<rparr>)) (make_dirs c ps)"

definition NewClient ::
  "(string list \<Rightarrow> 'w client res) \<Rightarrow> string \<Rightarrow> string list \<Rightarrow> ('w, goerr, 'w client) io" where
  "NewClient connect prefix etcdHosts =
     andThen (lift (connect etcdHosts)) (\<lambda>api.
       let config = api\<lparr>c_prefix := prefix\<rparr> in
       regardless (kv_set config (c_prefix config) [] (set_nil\<lparr>so_dir := True\<rparr>))
         (andThen (make_dirs config defaultPaths) (\<lambda>_. ret config)))"

section \<open>The tarball\<close>

text \<open>
  The archive is what the tar writer has been given: the headers (name, whether it is a
  directory, mode, size) each with the content written after it. \<open>archive/tar\<close>, \<open>gzip\<close> and the
  files are parameters; a writer refuses an entry by an error.
\<close>

record tar_header =
  th_name :: string
  th_dir :: bool
  th_mode :: nat
  th_size :: nat

record 'w tar_writer =
  tw_header :: "tar_header \<Rightarrow> ('w, goerr, unit) io"
  tw_write :: "string \<Rightarrow> ('w, goerr, unit) io"
  tw_get :: "string \<Rightarrow> get_opts \<Rightarrow> ('w, goerr, node) io"
  tw_tempfile :: "string \<Rightarrow> ('w, goerr, string) io"
  tw_open :: "string \<Rightarrow> ('w, goerr, unit) io"
  tw_close :: "('w, goerr, unit) io"
  tw_rename :: "string \<Rightarrow> string \<Rightarrow> ('w, goerr, unit) io"
  tw_stamp :: "'w \<Rightarrow> string"

definition header_of :: "string \<Rightarrow> node \<Rightarrow> tar_header" where
  "header_of base n =
     (if n_dir n then \<lparr>th_name = base @ n_key n, th_dir = True, th_mode = 448, th_size = 0\<rparr>
      else \<lparr>th_name = base @ n_key n, th_dir = False, th_mode = 384, th_size = length (n_value n)\<rparr>)"

text \<open>The errors of the recursive calls are not looked at.\<close>

fun addNodeToTarball :: "('w, 'z) tar_writer_scheme \<Rightarrow> string \<Rightarrow> node \<Rightarrow> ('w, goerr, unit) io"
  and addNodesToTarball :: "('w, 'z) tar_writer_scheme \<Rightarrow> string \<Rightarrow> node list \<Rightarrow> ('w, goerr, unit) io" where
  "addNodeToTarball t base (Node k d v ns) =
     attempt (tw_header t (header_of base (Node k d v ns)))
       (\<lambda>e. fail (Combine (Fresh ''Failed to write tar entry header'') e))
       (\<lambda>_. attempt (if d then ret () else tw_write t v)
         (\<lambda>e. fail (Combine (Fresh ''Failed to write tar entry'') e))
         (\<lambda>_. addNodesToTarball t base ns))"
| "addNodesToTarball t base [] = ret ()"
| "addNodesToTarball t base (n # ns) =
     regardless (addNodeToTarball t base n) (addNodesToTarball t base ns)"

definition DumpTarball :: "('w, 'z) tar_writer_scheme \<Rightarrow> string \<Rightarrow> ('w, goerr, string) io" where
  "DumpTarball t prefix =
     attempt (tw_get t prefix \<lparr>go_recursive = True, go_sort = True, go_quorum = True\<rparr>)
       (\<lambda>e. fail (Combine (Fresh (''Failed to recursively GET '' @ [CHR 0x22] @ prefix @ [CHR 0x22] @ '' namespace from etcd''))
                   (EtcdToErrored e)))
       (\<lambda>root w.
         attempt (tw_tempfile t (''etcd_dump_'' @ tw_stamp t w @ ''_''))
           (\<lambda>e. fail (Combine (Fresh ''Failed to create tempfile'') e))
           (\<lambda>file.
             deferred
               (regardless (tw_open t file)
                 (andThen (addNodeToTarball t (path_base file) root) (\<lambda>_.
                   andThen (tw_rename t file (file @ ''.tar.gz'')) (\<lambda>_.
                     ret (file @ ''.tar.gz'')))))
               (tw_close t)) w)"

text \<open>The entries of a tree in the order they are written.\<close>

fun tar_entries :: "string \<Rightarrow> node \<Rightarrow> (tar_header \<times> string) list"
  and tar_entries_list :: "string \<Rightarrow> node list \<Rightarrow> (tar_header \<times> string) list" where
  "tar_entries base (Node k d v ns) =
     (header_of base (Node k d v ns), if d then [] else v) # tar_entries_list base ns"
| "tar_entries_list base [] = []"
| "tar_entries_list base (n # ns) = tar_entries base n @ tar_entries_list base ns"

text \<open>
  A writer that takes every entry, seen through the list of entries it holds.
\<close>

locale tar_sink =
  fixes t :: "('w, 'z) tar_writer_scheme"
    and held :: "'w \<Rightarrow> (tar_header \<times> string) list"
  assumes header: "\<exists>w'. tw_header t h w = (Ok (), w') \<and> held w' = held w @ [(h, [])]"
    and body: "held w = es @ [(h, [])] \<Longrightarrow> \<not> th_dir h \<Longrightarrow> th_size h = length v \<Longrightarrow>
          \<exists>w'. tw_write t v w = (Ok (), w') \<and> held w' = es @ [(h, v)]"
begin

lemma tarball_entries:
  "\<exists>w'. addNodeToTarball t base n w = (Ok (), w') \<and> held w' = held w @ tar_entries base n"
  "\<exists>w'. addNodesToTarball t base ns w = (Ok (), w') \<and> held w' = held w @ tar_entries_list base ns"
proof (induction base n and base ns arbitrary: w and w rule: tar_entries_tar_entries_list.induct)
  case (1 base k d v ns)
  let ?h = "header_of base (Node k d v ns)"
  obtain w1 where h: "tw_header t ?h w = (Ok (), w1)" "held w1 = held w @ [(?h, [])]"
    using header by blast
  obtain w2 where b: "(if d then ret () else tw_write t v) w1 = (Ok (), w2)"
      "held w2 = held w @ [(?h, if d then [] else v)]"
  proof (cases d)
    case True
    then show ?thesis using that [of w1] h(2) by simp
  next
    case False
    then show ?thesis using body [OF h(2), of v] that by (auto simp: header_of_def)
  qed
  obtain w3 where r: "addNodesToTarball t base ns w2 = (Ok (), w3)"
      "held w3 = held w2 @ tar_entries_list base ns"
    using "1.IH" by blast
  have "addNodeToTarball t base (Node k d v ns) w = (Ok (), w3)"
    using h(1) b(1) r(1) by (cases d) simp_all
  with b(2) r(2) show ?case by simp
next
  case (2 base)
  then show ?case by simp
next
  case (3 base n ns)
  obtain w1 where n: "addNodeToTarball t base n w = (Ok (), w1)" "held w1 = held w @ tar_entries base n"
    using "3.IH"(1) by blast
  obtain w2 where "addNodesToTarball t base ns w1 = (Ok (), w2)" "held w2 = held w1 @ tar_entries_list base ns"
    using "3.IH"(2) by blast
  with n show ?case by simp
qed

end

text \<open>A tar file in memory is such a writer.\<close>

record tar_mem =
  tm_entries :: "(tar_header \<times> string) list"
  tm_root :: node

definition mem_tar :: "tar_mem tar_writer" where
  "mem_tar =
     \<lparr>tw_header = (\<lambda>h w. (Ok (), w\<lparr>tm_entries := tm_entries w @ [(h, [])]\<rparr>)),
      tw_write = (\<lambda>v w.
        if tm_entries w \<noteq> [] \<and> \<not> th_dir (fst (last (tm_entries w))) \<and> th_size (fst (last (tm_entries w))) = length v
        then (Ok (), w\<lparr>tm_entries := butlast (tm_entries w) @ [(fst (last (tm_entries w)), v)]\<rparr>)
        else (Err (Plain ''archive/tar: write too long''), w)),
      tw_get = (\<lambda>k g w. (Ok (tm_root w), w)),
      tw_tempfile = (\<lambda>n. ret (''/tmp/'' @ n)),
      tw_open = (\<lambda>f. ret ()), tw_close = ret (), tw_rename = (\<lambda>a b. ret ()),
      tw_stamp = (\<lambda>w. ''20160102-030405'')\<rparr>"

interpretation tar: tar_sink mem_tar tm_entries
  by unfold_locales (auto simp: mem_tar_def)

end
