(* ===== verification/Config_Use.thy ===== *)
theory Config_Use imports Config_Client begin

text \<open>
  \<open>config/use.go\<close>: the use locks. A lock is a key of etcd that holds the JSON text of its owner;
  it is taken by a conditional write and given back by a conditional delete. The lemmas, proved
  once for every store that keeps etcd's promises, say what each call leaves at the lock's key.
\<close>

section \<open>The lock records\<close>

text \<open>\<open>UseMount\<close> (volume, host name, reason), \<open>UseSnapshot\<close> (volume, reason), \<open>UseVolsupervisor\<close> (host).\<close>

datatype use =
    UseMount string string string
  | UseSnapshot string string
  | UseVolsupervisor string

definition UseTypeMount :: string where "UseTypeMount = ''mount''"
definition UseTypeSnapshot :: string where "UseTypeSnapshot = ''snapshot''"
definition UseTypeVolsupervisor :: string where "UseTypeVolsupervisor = ''volsupervisor''"

lemmas use_type_defs = UseTypeMount_def UseTypeSnapshot_def UseTypeVolsupervisor_def

fun use_GetVolume :: "use \<Rightarrow> string" where
  "use_GetVolume (UseMount v h r) = v"
| "use_GetVolume (UseSnapshot v r) = v"
| "use_GetVolume (UseVolsupervisor h) = ''volsupervisor''"

fun use_GetReason :: "use \<Rightarrow> string" where
  "use_GetReason (UseMount v h r) = r"
| "use_GetReason (UseSnapshot v r) = r"
| "use_GetReason (UseVolsupervisor h) = []"

fun use_Type :: "use \<Rightarrow> string" where
  "use_Type (UseMount v h r) = UseTypeMount"
| "use_Type (UseSnapshot v r) = UseTypeSnapshot"
| "use_Type (UseVolsupervisor h) = UseTypeVolsupervisor"

fun MayExist :: "use \<Rightarrow> bool" where
  "MayExist (UseMount v h r) = True"
| "MayExist (UseSnapshot v r) = False"
| "MayExist (UseVolsupervisor h) = False"

fun use_json :: "use \<Rightarrow> json" where
  "use_json (UseMount v h r) =
     JObj (field ''Volume'' (JStr v) @ field ''Hostname'' (JStr h) @ field ''Reason'' (JStr r))"
| "use_json (UseSnapshot v r) = JObj (field ''Volume'' (JStr v) @ field ''Reason'' (JStr r))"
| "use_json (UseVolsupervisor h) = JObj (field ''Hostname'' (JStr h))"

text \<open>\<open>string(content)\<close> of \<open>json.Marshal(ut)\<close>\<close>

definition use_text :: "use \<Rightarrow> string" where
  "use_text u = render (use_json u)"

text \<open>The field tables of the three structs.\<close>

fun set_use_volume :: "use \<Rightarrow> string \<Rightarrow> use" where
  "set_use_volume (UseMount v h r) x = UseMount x h r"
| "set_use_volume (UseSnapshot v r) x = UseSnapshot x r"
| "set_use_volume u x = u"

fun set_use_reason :: "use \<Rightarrow> string \<Rightarrow> use" where
  "set_use_reason (UseMount v h r) x = UseMount v h x"
| "set_use_reason (UseSnapshot v r) x = UseSnapshot v x"
| "set_use_reason u x = u"

fun use_host :: "use \<Rightarrow> string" where
  "use_host (UseMount v h r) = h"
| "use_host (UseSnapshot v r) = []"
| "use_host (UseVolsupervisor h) = h"

fun set_use_host :: "use \<Rightarrow> string \<Rightarrow> use" where
  "set_use_host (UseMount v h r) x = UseMount v x r"
| "set_use_host (UseVolsupervisor h) x = UseVolsupervisor x"
| "set_use_host u x = u"

definition use_volume_field :: "string \<times> use field_dec" where
  "use_volume_field = (''Volume'', \<lambda>j u. map_option (set_use_volume u) (get_string j (use_GetVolume u)))"

definition use_host_field :: "string \<times> use field_dec" where
  "use_host_field = (''Hostname'', \<lambda>j u. map_option (set_use_host u) (get_string j (use_host u)))"

definition use_reason_field :: "string \<times> use field_dec" where
  "use_reason_field = (''Reason'', \<lambda>j u. map_option (set_use_reason u) (get_string j (use_GetReason u)))"

fun use_fields :: "use \<Rightarrow> (string \<times> use field_dec) list" where
  "use_fields (UseMount v h r) = [use_volume_field, use_host_field, use_reason_field]"
| "use_fields (UseSnapshot v r) = [use_volume_field, use_reason_field]"
| "use_fields (UseVolsupervisor h) = [use_host_field]"

section \<open>The calls\<close>

definition use_key :: "('w, 'z) client_scheme \<Rightarrow> string \<Rightarrow> string \<Rightarrow> string" where
  "use_key c typ vc = prefixed c [rootUse, typ, vc]"

definition lock_key :: "('w, 'z) client_scheme \<Rightarrow> use \<Rightarrow> string" where
  "lock_key c ut = use_key c (use_Type ut) (use_GetVolume ut)"

text \<open>The two writes of \<open>PublishUse\<close>: create the key, or overwrite it if it already says the same.\<close>

definition publish_create :: "('w, 'z) client_scheme \<Rightarrow> use \<Rightarrow> ('w, goerr, node) io" where
  "publish_create c ut = kv_set c (lock_key c ut) (use_text ut) (set_nil\<lparr>so_exist := PrevNoExist\<rparr>)"

definition publish_again :: "('w, 'z) client_scheme \<Rightarrow> use \<Rightarrow> ('w, goerr, node) io" where
  "publish_again c ut =
     kv_set c (lock_key c ut) (use_text ut) (set_nil\<lparr>so_exist := PrevExist, so_value := use_text ut\<rparr>)"

fun is_node_exist :: "goerr \<Rightarrow> bool" where
  "is_node_exist (EtcdErr code t) = (code = ErrorCodeNodeExist)"
| "is_node_exist _ = False"

definition PublishUse :: "('w, 'z) client_scheme \<Rightarrow> use \<Rightarrow> ('w, goerr, unit) io" where
  "PublishUse c ut =
     attempt (publish_create c ut)
       (\<lambda>err.
         if is_node_exist err then
           (if MayExist ut then attempt (publish_again c ut) (\<lambda>e. fail (EtcdToErrored e)) (\<lambda>_. ret ())
            else fail (Combine Exists err))
         else fail (EtcdToErrored err))
       (\<lambda>_. ret ())"

definition PublishUseWithTTL :: "('w, 'z) client_scheme \<Rightarrow> use \<Rightarrow> int \<Rightarrow> ('w, goerr, unit) io" where
  "PublishUseWithTTL c ut ttl =
     (if ttl < 0 then fail (Fresh ''TTL was less than 0 for locker'')
      else attempt (kv_set c (lock_key c ut) (use_text ut) (set_nil\<lparr>so_ttl := ttl, so_value := use_text ut\<rparr>))
        (\<lambda>err.
          if Contains (EtcdToErrored err) NotExists \<and> is_errored (EtcdToErrored err) then
            attempt (kv_set c (lock_key c ut) (use_text ut) (set_nil\<lparr>so_ttl := ttl, so_exist := PrevNoExist\<rparr>))
              (\<lambda>e. fail (Combine PublishMount e)) (\<lambda>_. ret ())
          else fail (Combine PublishMount err))
        (\<lambda>_. ret ()))"

definition remove_opts :: "use \<Rightarrow> bool \<Rightarrow> del_opts" where
  "remove_opts ut force = (if force then del_nil else del_nil\<lparr>do_value := use_text ut\<rparr>)"

definition RemoveUse :: "('w, 'z) client_scheme \<Rightarrow> use \<Rightarrow> bool \<Rightarrow> ('w, goerr, unit) io" where
  "RemoveUse c ut force =
     attempt (kv_del c (lock_key c ut) (remove_opts ut force)) (\<lambda>e. fail (EtcdToErrored e)) (\<lambda>_. ret ())"

definition Volume_String :: "Volume \<Rightarrow> string" where
  "Volume_String v = path_join [v_policy v, v_name v]"

text \<open>\<open>GetUse(ut, vc)\<close> fills the struct \<open>ut\<close> points to; the filled struct is the result.\<close>

definition GetUse :: "('w, 'z) client_scheme \<Rightarrow> use \<Rightarrow> Volume \<Rightarrow> ('w, goerr, use) io" where
  "GetUse c ut vc =
     attempt (kv_get c (use_key c (use_Type ut) (Volume_String vc)) get_nil)
       (\<lambda>e. fail (EtcdToErrored e))
       (\<lambda>resp. lift (unmarshal (use_fields ut) (n_value resp) ut))"

text \<open>The names below a directory of locks; slicing an empty key panics.\<close>

fun trim_keys :: "string \<Rightarrow> node list \<Rightarrow> string list res" where
  "trim_keys pre [] = Ok []"
| "trim_keys pre (n # ns) =
     (case path_join [trim_prefix pre (n_key n)] of
        [] \<Rightarrow> Panic ''slice bounds out of range''
      | ch # key \<Rightarrow>
          (case trim_keys pre ns of Ok ks \<Rightarrow> Ok (key # ks) | Err e \<Rightarrow> Err e | Panic m \<Rightarrow> Panic m | Hang \<Rightarrow> Hang))"

definition ListUses :: "('w, 'z) client_scheme \<Rightarrow> string \<Rightarrow> ('w, goerr, string list) io" where
  "ListUses c typ =
     attempt (kv_get c (prefixed c [rootUse, typ]) \<lparr>go_recursive = True, go_sort = True, go_quorum = False\<rparr>)
       (\<lambda>e. fail (EtcdToErrored e))
       (\<lambda>resp. lift (trim_keys (prefixed c [rootUse, typ]) (concat (map n_nodes (n_nodes resp)))))"

section \<open>Texts and keys tell locks apart\<close>

lemma wf_use_json [simp]: "wf_json (use_json u)"
  by (cases u) (simp_all add: json_fields)

lemma parse_use_text: "parse (use_text u) = Some (use_json u)"
  by (simp add: use_text_def parse_render)

lemma use_text_not_Nil [simp]: "use_text u \<noteq> []"
  using render_Nil [of "use_json u"] by (simp add: use_text_def)

lemma use_text_inj: "use_text u = use_text u' \<longleftrightarrow> u = u'"
proof
  assume "use_text u = use_text u'"
  then have "use_json u = use_json u'"
    unfolding use_text_def by (rule render_inj [OF wf_use_json wf_use_json])
  then show "u = u'" by (cases u; cases u') (simp_all add: json_fields)
qed simp

lemma unmarshal_use: "use_Type u = use_Type u' \<Longrightarrow> unmarshal (use_fields u') (use_text u) u' = Ok u"
  unfolding use_text_def
  by (rule unmarshal_render, simp, cases u; cases u')
    (simp_all add: json_fields use_volume_field_def use_host_field_def use_reason_field_def
      fold_eq_def lower_char_def use_type_defs)

lemma use_type_plain [simp]: "plain_seg (use_Type u)"
  by (cases u) (simp_all add: use_type_defs plain_seg_def)

definition use_ok :: "use \<Rightarrow> bool" where
  "use_ok u \<longleftrightarrow> name_ok (use_GetVolume u)"

lemma lock_key_inj:
  assumes "wf_prefix (c_prefix c)" "use_ok u" "use_ok u'" "lock_key c u = lock_key c u'"
  shows "use_Type u = use_Type u' \<and> use_GetVolume u = use_GetVolume u'"
proof -
  have "concat (map name_segs [rootUse, use_Type u, use_GetVolume u])
      = concat (map name_segs [rootUse, use_Type u', use_GetVolume u'])"
    by (rule prefixed_inj [OF assms(1)])
      (use assms in \<open>auto simp: use_ok_def lock_key_def use_key_def plain_name_ok\<close>)
  then show ?thesis by (auto simp: name_segs_plain dest: name_segs_inj)
qed

section \<open>What the calls leave in the store\<close>

lemma set_nil_fields [simp]:
  "so_value set_nil = []" "so_exist set_nil = PrevIgnore" "so_ttl set_nil = 0" "\<not> so_dir set_nil"
  by (simp_all add: set_nil_def)

lemma del_nil_fields [simp]:
  "do_value del_nil = []" "\<not> do_recursive del_nil" "\<not> do_dir del_nil"
  by (simp_all add: del_nil_def)

lemma remove_opts_fields [simp]:
  "do_value (remove_opts ut force) = (if force then [] else use_text ut)"
  "\<not> do_recursive (remove_opts ut force)" "\<not> do_dir (remove_opts ut force)"
  by (simp_all add: remove_opts_def)

context etcd begin

lemma publish_create_ok:
  assumes "publish_create c u w = (Ok r, w')"
  shows "fval w (lock_key c u) = None" "fval w' = (fval w)(lock_key c u \<mapsto> use_text u)"
  using set_ok [OF assms [unfolded publish_create_def]] by (simp_all add: admits_def)

lemma publish_again_ok:
  assumes "publish_again c u w = (Ok r, w')"
  shows "fval w (lock_key c u) = Some (use_text u)" "fval w' = fval w"
  using set_ok [OF assms [unfolded publish_again_def]]
  by (simp_all add: admits_def fun_upd_idem)

lemma is_node_exist_refused:
  assumes "publish_create c u w = (Err e, w1)" "is_node_exist e"
  shows "fval w1 = fval w"
  using assms(2) by (cases e) (use assms(1) in \<open>auto simp: publish_create_def dest!: set_refused\<close>)

lemma publish_ok:
  assumes "PublishUse c u w = (Ok x, w')"
  shows "fval w' = (fval w)(lock_key c u \<mapsto> use_text u)"
    and "fval w (lock_key c u) = None \<or> (MayExist u \<and> fval w (lock_key c u) = Some (use_text u))"
proof -
  have "fval w' = (fval w)(lock_key c u \<mapsto> use_text u) \<and>
    (fval w (lock_key c u) = None \<or> (MayExist u \<and> fval w (lock_key c u) = Some (use_text u)))"
    using assms unfolding PublishUse_def
  proof (cases rule: attempt_OkE)
    case (ok r w1)
    then show ?thesis using publish_create_ok by simp
  next
    case (err e w1)
    from err(2) have ex: "is_node_exist e" and may: "MayExist u"
      and again: "attempt (publish_again c u) (\<lambda>e. fail (EtcdToErrored e)) (\<lambda>_. ret ()) w1 = (Ok x, w')"
      by (auto split: if_splits)
    from again obtain r where "publish_again c u w1 = (Ok r, w')"
      by (cases rule: attempt_OkE) auto
    from publish_again_ok [OF this] is_node_exist_refused [OF err(1) ex] may
    show ?thesis by (simp add: fun_upd_idem)
  qed
  then show "fval w' = (fval w)(lock_key c u \<mapsto> use_text u)"
    "fval w (lock_key c u) = None \<or> (MayExist u \<and> fval w (lock_key c u) = Some (use_text u))"
    by blast+
qed

lemma publish_again_unchanged:
  assumes "publish_again c u w = (r, w')"
  shows "fval w' = fval w" and "fval w (lock_key c u) \<noteq> Some (use_text u) \<Longrightarrow> \<exists>e. r = Err e"
proof -
  note call = assms [unfolded publish_again_def]
  have "fval w' = fval w \<and> (fval w (lock_key c u) \<noteq> Some (use_text u) \<longrightarrow> (\<exists>e. r = Err e))"
  proof (cases rule: set_cases [OF call])
    case 1
    then show ?thesis using publish_again_ok assms by simp
  next
    case (2 e)
    from set_unknown [OF call [unfolded 2]] show ?thesis
      by (auto simp: 2 admits_def fun_upd_idem)
  qed
  then show "fval w' = fval w" "fval w (lock_key c u) \<noteq> Some (use_text u) \<Longrightarrow> \<exists>e. r = Err e"
    by blast+
qed

text \<open>Whatever happens, a lock held by someone else stays as it is.\<close>

lemma publish_other:
  assumes "PublishUse c u w = (r, w')" "fval w (lock_key c u) = Some t" "t \<noteq> use_text u"
  shows "fval w' = fval w" and "\<exists>e. r = Err e"
proof -
  obtain r1 w1 where m: "publish_create c u w = (r1, w1)" by force
  note call = m [unfolded publish_create_def]
  have both: "fval w' = fval w \<and> (\<exists>e. r = Err e)"
  proof (cases rule: set_cases [OF call])
    case 1
    then show ?thesis using publish_create_ok(1) m assms(2) by simp
  next
    case (2 e)
    have w1: "fval w1 = fval w"
      using set_unknown [OF call [unfolded 2]] assms(2) by (auto simp: admits_def)
    obtain r2 w2 where a: "publish_again c u w1 = (r2, w2)" by force
    from publish_again_unchanged [OF a] w1 assms(2,3) obtain e2 where
      "r2 = Err e2" "fval w2 = fval w" by auto
    then show ?thesis
      using assms(1) m 2 w1 a by (auto simp: PublishUse_def split: if_splits)
  qed
  then show "fval w' = fval w" "\<exists>e. r = Err e" by auto
qed

lemma remove_ok:
  assumes "RemoveUse c u force w = (Ok x, w')"
  shows "fval w' = (fval w)(lock_key c u := None)"
    and "fval w (lock_key c u) \<noteq> None"
    and "\<not> force \<Longrightarrow> fval w (lock_key c u) = Some (use_text u)"
proof -
  from assms obtain r where "kv_del c (lock_key c u) (remove_opts u force) w = (Ok r, w')"
    unfolding RemoveUse_def by (cases rule: attempt_OkE) auto
  from del_ok [OF this] show "fval w' = (fval w)(lock_key c u := None)" "fval w (lock_key c u) \<noteq> None"
    "\<not> force \<Longrightarrow> fval w (lock_key c u) = Some (use_text u)"
    by (simp_all add: del_admits_def)
qed

lemma remove_unforced:
  assumes "RemoveUse c u False w = (r, w')"
  shows "fval w' = fval w \<or>
    (fval w (lock_key c u) = Some (use_text u) \<and> fval w' = (fval w)(lock_key c u := None))"
proof -
  obtain r1 w1 where m: "kv_del c (lock_key c u) (remove_opts u False) w = (r1, w1)" by force
  show ?thesis
  proof (cases rule: del_cases [OF m])
    case 1
    then show ?thesis using m assms del_ok [OF m [unfolded 1]] by (auto simp: RemoveUse_def del_admits_def)
  next
    case 2
    then show ?thesis using m assms del_unknown [OF m [unfolded 2]] by (auto simp: RemoveUse_def del_admits_def)
  qed
qed

lemma publish_returns: "\<exists>w'. PublishUse c u w = (Ok (), w') \<or> (\<exists>e. PublishUse c u w = (Err e, w'))"
proof -
  obtain r1 w1 where m: "publish_create c u w = (r1, w1)" by force
  obtain r2 w2 where a: "publish_again c u w1 = (r2, w2)" by force
  show ?thesis
    by (rule set_cases [OF m [unfolded publish_create_def]];
        rule set_cases [OF a [unfolded publish_again_def]]; simp add: PublishUse_def m a)
qed

lemma remove_returns: "\<exists>w'. RemoveUse c u f w = (Ok (), w') \<or> (\<exists>e. RemoveUse c u f w = (Err e, w'))"
proof -
  obtain r1 w1 where m: "kv_del c (lock_key c u) (remove_opts u f) w = (r1, w1)" by force
  show ?thesis by (rule del_cases [OF m]; simp add: RemoveUse_def m)
qed

lemma publish_ttl_ok:
  assumes "PublishUseWithTTL c u ttl w = (Ok x, w')"
  shows "0 \<le> ttl" and "fval w (lock_key c u) = None \<or> fval w (lock_key c u) = Some (use_text u)"
    and "fval w' = (fval w)(lock_key c u \<mapsto> use_text u)"
proof -
  let ?k = "lock_key c u"
  from assms show ttl: "0 \<le> ttl" by (auto simp: PublishUseWithTTL_def split: if_splits)
  have "(fval w ?k = None \<or> fval w ?k = Some (use_text u)) \<and> fval w' = (fval w)(?k \<mapsto> use_text u)"
    using assms ttl unfolding PublishUseWithTTL_def if_not_P [OF ttl [unfolded not_less [symmetric]]]
  proof (cases rule: attempt_OkE)
    case (ok r w1)
    from set_ok [OF ok(1)] ok(2) show ?thesis by (auto simp: admits_def)
  next
    case (err e w1)
    from err(2) obtain r where ne: "Contains (EtcdToErrored e) NotExists"
      and s: "kv_set c ?k (use_text u) (set_nil\<lparr>so_ttl := ttl, so_exist := PrevNoExist\<rparr>) w1 = (Ok r, w')"
      by (auto split: if_splits elim!: attempt_OkE)
    from set_ok [OF s] have none: "fval w1 ?k = None" and w': "fval w' = (fval w1)(?k \<mapsto> use_text u)"
      by (simp_all add: admits_def)
    from set_unknown [OF err(1)] none have "fval w1 = fval w" by auto
    with none w' show ?thesis by simp
  qed
  then show "fval w ?k = None \<or> fval w ?k = Some (use_text u)" "fval w' = (fval w)(?k \<mapsto> use_text u)"
    by blast+
qed

end

text \<open>A reachable store answers as the conditions say.\<close>

context etcd_up begin

lemma publish_free:
  assumes "free w (lock_key c u)" "fval w (lock_key c u) = None"
  shows "\<exists>w'. PublishUse c u w = (Ok (), w')"
proof -
  obtain r w' where "publish_create c u w = (Ok r, w')"
    using set_up [OF assms(1), of "set_nil\<lparr>so_exist := PrevNoExist\<rparr>" "use_text u"] assms(2)
    by (auto simp: publish_create_def admits_def)
  then show ?thesis by (auto simp: PublishUse_def)
qed

lemma get_use:
  assumes "fval w (use_key c (use_Type u) (Volume_String v)) = Some (use_text u)" "use_Type u' = use_Type u"
  shows "\<exists>w'. GetUse c u' v w = (Ok u, w') \<and> fval w' = fval w"
proof -
  obtain n w' where g: "kv_get c (use_key c (use_Type u) (Volume_String v)) get_nil w = (Ok n, w')"
    and n: "n_value n = use_text u"
    using get_up [OF assms(1)] by blast
  have "GetUse c u' v w = (Ok u, w')"
    using g n unmarshal_use [of u u'] assms(2) by (simp add: GetUse_def)
  with get_keeps [OF g] show ?thesis by blast
qed

end

end
