(* ===== verification/Host.thy ===== *)
theory Host imports Config_Use begin

text \<open>
  The services around the program: the clock, the kernel's mount calls, the file system, the
  execution of commands, name lookup and the parser of human-readable sizes. They are code outside
  this repository, so each is a field of the record \<open>host\<close>, a parameter of every definition
  that reaches it. A loop that retries until some service answers takes the number of retries
  observed from \<open>h_fuel\<close>, and ends as \<open>Hang\<close> when it has used them up.
\<close>

record exec_result =
  er_status :: int
  er_stdout :: string
  er_stderr :: string

record link =
  l_type :: string
  l_name :: string

text \<open>
  \<open>h_now\<close> reads the clock (nanoseconds), \<open>h_sleep\<close> sleeps for at least a duration (the code
  jitters it upwards), \<open>h_exec\<close> runs a command under a timeout and yields the executor's result
  and error, either of which may be nil, \<open>h_order\<close> is the order in which a range over a map meets
  its keys, \<open>h_contains\<close> tells if an address of a link is in whose network an IP lies, \<open>h_write\<close>
  writes to the connection of an HTTP request.
\<close>

record 'w host = "'w client" +
  h_now :: "'w \<Rightarrow> int \<times> 'w"
  h_time_string :: "'w \<Rightarrow> string"
  h_sleep :: "int \<Rightarrow> 'w \<Rightarrow> 'w"
  h_fuel :: nat
  h_hostname :: "('w, goerr, string) io"
  h_human_size :: "string \<Rightarrow> int \<times> goerr option"
  h_exec :: "string list \<Rightarrow> int option \<Rightarrow> 'w \<Rightarrow> (exec_result option \<times> goerr option) \<times> 'w"
  h_mkdir :: "string \<Rightarrow> nat \<Rightarrow> ('w, goerr, unit) io"
  h_stat :: "string \<Rightarrow> ('w, goerr, nat) io"
  h_remove :: "string \<Rightarrow> ('w, goerr, unit) io"
  h_mount :: "string \<Rightarrow> string \<Rightarrow> string \<Rightarrow> string \<Rightarrow> ('w, goerr, unit) io"
  h_unmount :: "string \<Rightarrow> ('w, goerr, unit) io"
  h_read_file :: "string \<Rightarrow> ('w, goerr, string) io"
  h_write_file :: "string \<Rightarrow> string \<Rightarrow> ('w, goerr, unit) io"
  h_lookup_host :: "string \<Rightarrow> ('w, goerr, string list) io"
  h_parse_ip :: "string \<Rightarrow> string option"
  h_links :: "('w, goerr, link list) io"
  h_addrs :: "link \<Rightarrow> ('w, goerr, string list) io"
  h_contains :: "string \<Rightarrow> string \<Rightarrow> bool"
  h_order :: "string list \<Rightarrow> string list"
  h_write :: "string \<Rightarrow> ('w, goerr, unit) io"

text \<open>Error numbers the code tells apart.\<close>

abbreviation ENOENT :: goerr where "ENOENT \<equiv> Errno 2"
abbreviation EIO :: goerr where "EIO \<equiv> Errno 5"
abbreviation EBUSY :: goerr where "EBUSY \<equiv> Errno 16"
abbreviation EEXIST :: goerr where "EEXIST \<equiv> Errno 17"
abbreviation EINVAL :: goerr where "EINVAL \<equiv> Errno 22"

definition second :: int where "second = 1000000000"
definition millisecond :: int where "millisecond = 1000000"
definition minute :: int where "minute = 60 * second"

lemmas time_defs = second_def millisecond_def minute_def

section \<open>What is relied on of the clock\<close>

text \<open>
  \<open>clk\<close> is the clock in the world. It never goes back, sleeping moves it on by at least the
  duration, and reading it changes nothing.
\<close>

locale clock =
  fixes c :: "('w, 'z) host_scheme"
    and clk :: "'w \<Rightarrow> int"
  assumes now_run: "h_now c w = (clk w, w)"
    and sleep_moves: "clk w + t \<le> clk (h_sleep c t w)"
    and set_time: "kv_set c k v opt w = (r, w') \<Longrightarrow> clk w \<le> clk w'"
    and del_time: "kv_del c k d w = (r, w') \<Longrightarrow> clk w \<le> clk w'"

section \<open>A machine in memory\<close>

text \<open>
  A host whose etcd is the store in memory, with a clock, a trace of the calls it has received, and
  queues of prepared answers for the calls a witness wants to fail.
\<close>

record machine = mem +
  mc_clock :: int
  mc_mounts :: "(string \<times> string) list"
  mc_trace :: "string list list"
  mc_exec :: "(exec_result option \<times> goerr option) list"
  mc_files :: smap
  mc_unmounts :: "goerr option list"

definition machine_start :: machine where
  "machine_start = \<lparr>m_files = [], m_dirs = [], mc_clock = 0, mc_mounts = [], mc_trace = [], mc_exec = [],
     mc_files = [], mc_unmounts = []\<rparr>"

definition mc_answer :: "(exec_result option \<times> goerr option) list \<Rightarrow> exec_result option \<times> goerr option" where
  "mc_answer q = (case q of [] \<Rightarrow> (Some \<lparr>er_status = 0, er_stdout = [], er_stderr = []\<rparr>, None) | a # _ \<Rightarrow> a)"

definition mc_sleep :: "int \<Rightarrow> machine \<Rightarrow> machine" where
  "mc_sleep d w = w\<lparr>mc_clock := mc_clock w + max 0 d\<rparr>"

definition mc_now :: "machine \<Rightarrow> int \<times> machine" where
  "mc_now w = (mc_clock w, w)"

definition mc_size :: "string \<Rightarrow> int \<times> goerr option" where
  "mc_size s = (case parse_uint 62 s of Some n \<Rightarrow> (int n, None) | None \<Rightarrow> (-1, Some (Plain ''invalid size'')))"

definition mc_run :: "string list \<Rightarrow> int option \<Rightarrow> machine \<Rightarrow> (exec_result option \<times> goerr option) \<times> machine" where
  "mc_run args t w = (mc_answer (mc_exec w), w\<lparr>mc_exec := tl (mc_exec w), mc_trace := mc_trace w @ [args]\<rparr>)"

definition mc_mount :: "string \<Rightarrow> string \<Rightarrow> string \<Rightarrow> string \<Rightarrow> (machine, goerr, unit) io" where
  "mc_mount src dst ty data w = (Ok (), w\<lparr>mc_mounts := (dst, src) # mc_mounts w\<rparr>)"

definition mc_unmount :: "string \<Rightarrow> (machine, goerr, unit) io" where
  "mc_unmount dst w =
     (case mc_unmounts w of
        Some e # q \<Rightarrow> (Err e, w\<lparr>mc_unmounts := q\<rparr>)
      | q \<Rightarrow> (Ok (), w\<lparr>mc_unmounts := tl q, mc_mounts := filter (\<lambda>m. fst m \<noteq> dst) (mc_mounts w)\<rparr>))"

definition mc_read :: "string \<Rightarrow> (machine, goerr, string) io" where
  "mc_read p w = (case map_of (mc_files w) p of None \<Rightarrow> (Err ENOENT, w) | Some s \<Rightarrow> (Ok s, w))"

definition mc_write :: "string \<Rightarrow> string \<Rightarrow> (machine, goerr, unit) io" where
  "mc_write p s w = (Ok (), w\<lparr>mc_files := smap_put p s (mc_files w)\<rparr>)"

definition mc_parse_ip :: "string \<Rightarrow> string option" where
  "mc_parse_ip s = (if list_all (\<lambda>ch. is_digit ch \<or> ch = CHR ''.'') s then Some s else None)"

definition mc_contains :: "string \<Rightarrow> string \<Rightarrow> bool" where
  "mc_contains net ip = has_prefix ''10.'' ip"

definition machine_host :: "nat \<Rightarrow> machine host" where
  "machine_host fuel =
     \<lparr>kv_get = mem_get, kv_set = mem_set, kv_del = mem_del, c_prefix = ''/volplugin'',
      h_now = mc_now, h_time_string = (\<lambda>w. ''now''), h_sleep = mc_sleep, h_fuel = fuel,
      h_hostname = ret ''mon0'', h_human_size = mc_size, h_exec = mc_run,
      h_mkdir = (\<lambda>p m. ret ()), h_stat = (\<lambda>p. ret 64256), h_remove = (\<lambda>p. ret ()),
      h_mount = mc_mount, h_unmount = mc_unmount, h_read_file = mc_read, h_write_file = mc_write,
      h_lookup_host = (\<lambda>n. ret [''10.0.0.1'']), h_parse_ip = mc_parse_ip,
      h_links = ret [\<lparr>l_type = ''device'', l_name = ''eth0''\<rparr>], h_addrs = (\<lambda>l. ret [''10.0.0.0/8'']),
      h_contains = mc_contains, h_order = id, h_write = (\<lambda>s. ret ())\<rparr>"

lemma machine_host_fields [simp]:
  "kv_get (machine_host n) = mem_get" "kv_set (machine_host n) = mem_set" "kv_del (machine_host n) = mem_del"
  "c_prefix (machine_host n) = ''/volplugin''" "h_now (machine_host n) = mc_now"
  "h_sleep (machine_host n) = mc_sleep" "h_fuel (machine_host n) = n"
  "h_hostname (machine_host n) = ret ''mon0''" "h_order (machine_host n) = id"
  "h_human_size (machine_host n) = mc_size" "h_exec (machine_host n) = mc_run"
  "h_mount (machine_host n) = mc_mount" "h_unmount (machine_host n) = mc_unmount"
  "h_read_file (machine_host n) = mc_read" "h_write_file (machine_host n) = mc_write"
  "h_write (machine_host n) = (\<lambda>s. ret ())"
  by (simp_all add: machine_host_def)

interpretation machine: etcd "machine_host n" mem_file
proof unfold_locales
  fix k v opt w w' r
  assume "kv_set (machine_host n) k v opt w = (Ok r, w')" "\<not> so_dir opt"
  then show "admits opt (mem_file w k) \<and> mem_file w' = (mem_file w)(k \<mapsto> v)"
    using mem.set_ok by fastforce
next
  fix k v opt w w' e
  assume "kv_set (machine_host n) k v opt w = (Err e, w')" "\<not> so_dir opt"
  then show "mem_file w' = mem_file w \<or> (admits opt (mem_file w k) \<and> mem_file w' = (mem_file w)(k \<mapsto> v))"
    using mem.set_unknown by fastforce
next
  fix k d w w' r
  assume "kv_del (machine_host n) k d w = (Ok r, w')" "\<not> do_recursive d" "\<not> do_dir d"
  then show "del_admits d (mem_file w k) \<and> mem_file w' = (mem_file w)(k := None)"
    using mem.del_ok by fastforce
next
  fix k d w w' e
  assume "kv_del (machine_host n) k d w = (Err e, w')" "\<not> do_recursive d" "\<not> do_dir d"
  then show "mem_file w' = mem_file w \<or> (del_admits d (mem_file w k) \<and> mem_file w' = (mem_file w)(k := None))"
    using mem.del_unknown by fastforce
qed (auto simp: mem_set_def mem_del_def mem_get_def split: if_splits option.splits)

interpretation machine: etcd_up "machine_host n" mem_file mem_free
  by unfold_locales
    (auto simp: mem_set_def mem_del_def mem_get_def mem_free_def admits_def split: option.splits)

interpretation machine: clock "machine_host n" mc_clock
  by unfold_locales
    (auto simp: mc_now_def mc_sleep_def mem_set_def mem_del_def mem_prune_def split: if_splits option.splits)

end
