(* ===== verification/Lock.thy ===== *)
theory Lock imports Host begin

text \<open>
  \<open>lock/lock.go\<close>: the lock driver. It retries the conditional writes of \<open>Config_Use\<close> until a
  timeout, runs a function with one or several locks held, and refreshes a lock in the background.
\<close>

definition Unlocked :: string where "Unlocked = ''-unlocked-''"
definition ReasonCreate :: string where "ReasonCreate = ''Create''"
definition ReasonMount :: string where "ReasonMount = ''Mount''"
definition ReasonRemove :: string where "ReasonRemove = ''Remove''"
definition ReasonSnapshot :: string where "ReasonSnapshot = ''Snapshot''"
definition ReasonSnapshotPrune :: string where "ReasonSnapshotPrune = ''SnapshotPrune''"
definition ReasonCopy :: string where "ReasonCopy = ''Copy''"
definition ReasonMaintenance :: string where "ReasonMaintenance = ''Maintenance''"

lemmas reason_defs = ReasonCreate_def ReasonMount_def ReasonRemove_def ReasonSnapshot_def
  ReasonSnapshotPrune_def ReasonCopy_def ReasonMaintenance_def

section \<open>Acquiring\<close>

text \<open>\<open>time.Since(now)\<close>\<close>

definition since :: "('w, 'z) host_scheme \<Rightarrow> int \<Rightarrow> ('w, goerr, int) io" where
  "since c now w = (let (t, w') = h_now c w in (Ok (t - now), w'))"

definition sleep :: "('w, 'z) host_scheme \<Rightarrow> int \<Rightarrow> ('w, goerr, unit) io" where
  "sleep c d = modify (h_sleep c d)"

text \<open>
  \<open>lockWait\<close> yields whether to try again; the clock is read only where the code reads it.
\<close>

definition lockWait :: "('w, 'z) host_scheme \<Rightarrow> int \<Rightarrow> int \<Rightarrow> ('w, goerr, bool) io" where
  "lockWait c timeout now =
     andThen (if timeout = 0 then ret False
              else if timeout = -1 then ret True
              else andThen (since c now) (\<lambda>t. ret (t < timeout)))
       (\<lambda>waiting.
         if waiting then andThen (sleep c (100 * millisecond)) (\<lambda>_. ret True)
         else andThen (since c now) (\<lambda>t. if t \<ge> timeout then fail LockFailed else ret False))"

text \<open>The body after the label \<open>retry\<close>; the first argument is the number of retries observed.\<close>

fun retry_lock :: "nat \<Rightarrow> ('w, 'z) host_scheme \<Rightarrow> ('w, goerr, unit) io \<Rightarrow> int \<Rightarrow> int \<Rightarrow> ('w, goerr, unit) io" where
  "retry_lock 0 c call timeout now = hang"
| "retry_lock (Suc n) c call timeout now =
     attempt call
       (\<lambda>_. andThen (lockWait c timeout now)
              (\<lambda>again. if again then retry_lock n c call timeout now else ret ()))
       (\<lambda>_. ret ())"

definition lock_call :: "('w, 'z) host_scheme \<Rightarrow> use \<Rightarrow> int \<Rightarrow> ('w, goerr, unit) io" where
  "lock_call c uc ttl = (if ttl \<noteq> 0 then PublishUseWithTTL c uc ttl else PublishUse c uc)"

definition acquire :: "('w, 'z) host_scheme \<Rightarrow> use \<Rightarrow> int \<Rightarrow> int \<Rightarrow> ('w, goerr, unit) io" where
  "acquire c uc ttl timeout w =
     (let (now, w') = h_now c w in retry_lock (h_fuel c) c (lock_call c uc ttl) timeout now w')"

text \<open>\<open>clear\<close> and \<open>ClearLock\<close>\<close>

definition ClearLock :: "('w, 'z) host_scheme \<Rightarrow> use \<Rightarrow> int \<Rightarrow> ('w, goerr, unit) io" where
  "ClearLock c uc timeout w =
     (let (now, w') = h_now c w in retry_lock (h_fuel c) c (RemoveUse c uc False) timeout now w')"

section \<open>Running under locks\<close>

definition ExecuteWithUseLock ::
  "('w, 'z) host_scheme \<Rightarrow> use \<Rightarrow> ('w, goerr, 'a) io \<Rightarrow> ('w, goerr, 'a) io" where
  "ExecuteWithUseLock c uc runFunc =
     attempt (PublishUse c uc) (\<lambda>_. fail ErrLockPublish)
       (\<lambda>_. deferred runFunc (RemoveUse c uc False))"

text \<open>The loop over the lockers: the first that cannot be acquired ends it.\<close>

fun acquire_all :: "('w, 'z) host_scheme \<Rightarrow> int \<Rightarrow> use list \<Rightarrow> ('w, goerr, unit) io" where
  "acquire_all c timeout [] = ret ()"
| "acquire_all c timeout (uc # ucs) =
     andThen (acquire c uc 0 timeout) (\<lambda>_. acquire_all c timeout ucs)"

fun release_all :: "('w, 'z) host_scheme \<Rightarrow> use list \<Rightarrow> ('w, goerr, unit) io" where
  "release_all c [] = ret ()"
| "release_all c (uc # ucs) = regardless (RemoveUse c uc False) (release_all c ucs)"

definition ExecuteWithMultiUseLock ::
  "('w, 'z) host_scheme \<Rightarrow> use list \<Rightarrow> int \<Rightarrow> ('w, goerr, 'a) io \<Rightarrow> ('w, goerr, 'a) io" where
  "ExecuteWithMultiUseLock c ucs timeout runFunc =
     andThen (acquire_all c timeout ucs)
       (\<lambda>_. attempt runFunc
              (\<lambda>e. andThen (release_all c ucs) (\<lambda>_. fail e))
              (\<lambda>x. andThen (release_all c ucs) (\<lambda>_. ret x)))"

section \<open>Refreshing\<close>

text \<open>
  \<open>AcquireWithTTLRefresh\<close> takes the lock and starts a goroutine. The goroutine waits for the
  stop message or a quarter of the TTL: on \<open>Tick\<close> it acquires the lock again with the TTL, on
  \<open>Stop\<close> it removes the lock and ends; errors are logged. \<open>refresher\<close> runs it on the
  events it receives and yields whether it is still running.
\<close>

datatype refresh_event = Tick | Stop

definition AcquireWithTTLRefresh :: "('w, 'z) host_scheme \<Rightarrow> use \<Rightarrow> ('w, goerr, unit) io" where
  "AcquireWithTTLRefresh c uc = PublishUse c uc"

fun refresher ::
  "('w, 'z) host_scheme \<Rightarrow> use \<Rightarrow> int \<Rightarrow> int \<Rightarrow> refresh_event list \<Rightarrow> ('w, goerr, bool) io" where
  "refresher c uc ttl timeout [] = ret True"
| "refresher c uc ttl timeout (Stop # es) = regardless (RemoveUse c uc False) (ret False)"
| "refresher c uc ttl timeout (Tick # es) =
     regardless (acquire c uc ttl timeout) (refresher c uc ttl timeout es)"

section \<open>Lemmas\<close>

text \<open>
  The interface of a lock: what the driver relies on of a call it retries. \<open>good\<close> is what holds in
  the store after the call has succeeded.
\<close>

locale retried = clock c clk
  for c :: "('w, 'z) host_scheme" and clk +
  fixes call :: "('w, goerr, unit) io"
    and good :: "'w \<Rightarrow> bool"
  assumes call_ok: "call w = (Ok u, w') \<Longrightarrow> good w'"
    and call_returns: "\<exists>w'. call w = (Ok (), w') \<or> (\<exists>e. call w = (Err e, w'))"
    and call_time: "call w = (r, w') \<Longrightarrow> clk w \<le> clk w'"
begin

lemma call_cases:
  obtains (ok) w1 where "call w = (Ok (), w1)" "clk w \<le> clk w1"
    | (err) e w1 where "call w = (Err e, w1)" "clk w \<le> clk w1"
  using call_returns [of w] call_time by metis

lemma since_run: "since c now w = (Ok (clk w - now), w)"
  by (simp add: since_def now_run)

text \<open>With a clock that does not go back \<open>lockWait\<close> never yields false without an error.\<close>

lemma lockWait_run:
  assumes "now \<le> clk w" "0 \<le> timeout \<or> timeout = -1"
  shows "lockWait c timeout now w =
    (if timeout \<noteq> 0 \<and> (timeout = -1 \<or> clk w - now < timeout)
     then (Ok True, h_sleep c (100 * millisecond) w) else (Err LockFailed, w))"
proof -
  have s: "andThen (since c now) k w = k (clk w - now) w" for k :: "int \<Rightarrow> ('w, goerr, bool) io"
    using since_run by simp
  have z: "andThen (sleep c (100 * millisecond)) (\<lambda>_. ret True) w
      = ((Ok True :: bool res), h_sleep c (100 * millisecond) w)"
    by (simp add: sleep_def io_defs)
  show ?thesis using assms s z by (auto simp: lockWait_def andThen_def attempt_def)
qed

lemma retry_good:
  assumes "retry_lock n c call timeout now w = (Ok u, w')" "now \<le> clk w" "0 \<le> timeout \<or> timeout = -1"
  shows "good w'"
  using assms(1,2)
proof (induction n arbitrary: w)
  case 0
  then show ?case by simp
next
  case (Suc n)
  show ?case
  proof (cases rule: call_cases [of w])
    case (ok w1)
    then show ?thesis using Suc.prems call_ok by auto
  next
    case (err e w1)
    then have now: "now \<le> clk w1" using Suc.prems by simp
    have "clk w1 \<le> clk (h_sleep c (100 * millisecond) w1)"
      using sleep_moves [of w1 "100 * millisecond"] by (simp add: millisecond_def)
    with Suc.IH now Suc.prems err lockWait_run [OF now assms(3)] show ?thesis
      by (auto split: if_splits)
  qed
qed

text \<open>Enough retries for the timeout: the loop returns.\<close>

lemma retry_returns:
  assumes "now \<le> clk w" "0 \<le> timeout" "timeout - (clk w - now) \<le> (int n - 1) * (100 * millisecond)" "0 < n"
  shows "\<exists>w'. retry_lock n c call timeout now w = (Ok (), w') \<or>
              (retry_lock n c call timeout now w = (Err LockFailed, w') \<and> timeout \<le> clk w' - now)"
  using assms(1,3,4)
proof (induction n arbitrary: w)
  case 0
  then show ?case by simp
next
  case (Suc n)
  show ?case
  proof (cases rule: call_cases [of w])
    case (ok w1)
    then show ?thesis by simp
  next
    case (err e w1)
    then have now: "now \<le> clk w1" using Suc.prems by simp
    let ?w2 = "h_sleep c (100 * millisecond) w1"
    show ?thesis
    proof (cases "clk w1 - now < timeout")
      case False
      then show ?thesis using err lockWait_run [OF now, of timeout] assms(2) by auto
    next
      case True
      have mv: "clk w1 + 100 * millisecond \<le> clk ?w2" using sleep_moves by simp
      have m: "(0::int) < 100 * millisecond" by (simp add: millisecond_def)
      have le: "timeout - (clk w1 - now) \<le> int n * (100 * millisecond)"
        using Suc.prems(2) err(2) by simp
      have n: "0 < n" using le True m by (cases n) auto
      have "timeout - (clk ?w2 - now) \<le> (int n - 1) * (100 * millisecond)"
        using le mv by (simp add: left_diff_distrib)
      from Suc.IH [of ?w2, OF _ this n] obtain w' where
        "retry_lock n c call timeout now ?w2 = (Ok (), w') \<or>
         (retry_lock n c call timeout now ?w2 = (Err LockFailed, w') \<and> timeout \<le> clk w' - now)"
        using now mv m by fastforce
      then show ?thesis using err True now lockWait_run [OF now, of timeout] assms(2) by auto
    qed
  qed
qed

end

subsection \<open>The calls of the driver can be retried\<close>

locale lock_store = etcd c fval + clock c clk
  for c :: "('w, 'z) host_scheme" and fval and clk
begin

definition later :: "'w \<Rightarrow> 'w \<Rightarrow> bool" where
  "later a b \<longleftrightarrow> clk a \<le> clk b"

lemma later_trans: "later a b \<Longrightarrow> later b d \<Longrightarrow> later a d"
  by (simp add: later_def)

lemma later_pure: "keeps later (ret x)" "keeps later (fail e)"
  by (simp_all add: keeps_def later_def)

lemma later_kv: "keeps later (kv_set c k v opt)" "keeps later (kv_del c k d)"
  by (rule keepsI, simp add: later_def set_time, rule keepsI, simp add: later_def del_time)

lemma publish_later: "keeps later (PublishUse c u)"
  unfolding PublishUse_def publish_create_def publish_again_def
  by (auto intro!: keeps_attempt [of later] later_kv later_pure intro: later_trans simp: if_split_asm)

lemma publish_ttl_later: "keeps later (PublishUseWithTTL c u ttl)"
  unfolding PublishUseWithTTL_def
  by (auto intro!: keeps_attempt [of later] later_kv later_pure intro: later_trans)

lemma remove_later: "keeps later (RemoveUse c u force)"
  unfolding RemoveUse_def
  by (auto intro!: keeps_attempt [of later] later_kv later_pure intro: later_trans)

lemma publish_ttl_returns:
  "\<exists>w'. PublishUseWithTTL c u ttl w = (Ok (), w') \<or> (\<exists>e. PublishUseWithTTL c u ttl w = (Err e, w'))"
proof -
  let ?k = "lock_key c u" and ?v = "use_text u"
  obtain r1 w1 where m: "kv_set c ?k ?v (set_nil\<lparr>so_ttl := ttl, so_value := ?v\<rparr>) w = (r1, w1)" by force
  obtain r2 w2 where a: "kv_set c ?k ?v (set_nil\<lparr>so_ttl := ttl, so_exist := PrevNoExist\<rparr>) w1 = (r2, w2)" by force
  show ?thesis
    by (rule set_cases [OF m]; rule set_cases [OF a]; simp add: PublishUseWithTTL_def m a)
qed

abbreviation held :: "use \<Rightarrow> 'w \<Rightarrow> bool" where
  "held u w \<equiv> fval w (lock_key c u) = Some (use_text u)"

sublocale pub: retried c clk "PublishUse c u" "held u" for u
proof unfold_locales
  show "PublishUse c u w = (Ok x, w') \<Longrightarrow> held u w'" for w x w'
    using publish_ok(1) by simp
  show "PublishUse c u w = (r, w') \<Longrightarrow> clk w \<le> clk w'" for w r w'
    using keepsD [OF publish_later] by (simp add: later_def)
qed (rule publish_returns)

sublocale ttl: retried c clk "PublishUseWithTTL c u t" "held u" for u t
proof unfold_locales
  show "PublishUseWithTTL c u t w = (Ok x, w') \<Longrightarrow> held u w'" for w x w'
    using publish_ttl_ok(3) by simp
  show "PublishUseWithTTL c u t w = (r, w') \<Longrightarrow> clk w \<le> clk w'" for w r w'
    using keepsD [OF publish_ttl_later] by (simp add: later_def)
qed (rule publish_ttl_returns)

sublocale rem: retried c clk "RemoveUse c u False" "\<lambda>w. fval w (lock_key c u) = None" for u
proof unfold_locales
  show "RemoveUse c u False w = (Ok x, w') \<Longrightarrow> fval w' (lock_key c u) = None" for w x w'
    using remove_ok(1) by simp
  show "RemoveUse c u False w = (r, w') \<Longrightarrow> clk w \<le> clk w'" for w r w'
    using keepsD [OF remove_later] by (simp add: later_def)
qed (rule remove_returns)

text \<open>A successful \<open>acquire\<close> holds the lock; a successful \<open>ClearLock\<close> has removed it.\<close>

lemma acquire_held:
  assumes "acquire c u t timeout w = (Ok x, w')" "0 \<le> timeout \<or> timeout = -1"
  shows "held u w'"
proof -
  have run: "retry_lock (h_fuel c) c (lock_call c u t) timeout (clk w) w = (Ok x, w')"
    using assms(1) by (simp add: acquire_def now_run)
  show ?thesis
  proof (cases "t = 0")
    case True
    with run show ?thesis using pub.retry_good assms(2) by (fastforce simp: lock_call_def)
  next
    case False
    with run show ?thesis using ttl.retry_good assms(2) by (fastforce simp: lock_call_def)
  qed
qed

lemma acquire_in_time:
  assumes "0 \<le> timeout" "timeout \<le> (int (h_fuel c) - 1) * (100 * millisecond)" "0 < h_fuel c"
  shows "\<exists>w'. acquire c u t timeout w = (Ok (), w') \<or>
              (acquire c u t timeout w = (Err LockFailed, w') \<and> timeout \<le> clk w' - clk w)"
proof (cases "t = 0")
  case True
  then show ?thesis
    using pub.retry_returns [of "clk w" w timeout "h_fuel c" u] assms
    by (simp add: acquire_def now_run lock_call_def)
next
  case False
  then show ?thesis
    using ttl.retry_returns [of "clk w" w timeout "h_fuel c" u t] assms
    by (simp add: acquire_def now_run lock_call_def)
qed

lemma clear_removed:
  assumes "ClearLock c u timeout w = (Ok x, w')" "0 \<le> timeout \<or> timeout = -1"
  shows "fval w' (lock_key c u) = None"
  using rem.retry_good [of "h_fuel c" u timeout "clk w" w x w'] assms
  by (simp add: ClearLock_def now_run)

text \<open>With a timeout of zero a lock of another owner is reported at once and left alone.\<close>

lemma acquire_taken:
  assumes "fval w (lock_key c u) = Some t" "t \<noteq> use_text u" "0 < h_fuel c"
  shows "\<exists>w'. acquire c u 0 0 w = (Err LockFailed, w') \<and> fval w' = fval w"
proof -
  obtain n where n: "h_fuel c = Suc n" using assms(3) by (cases "h_fuel c") auto
  obtain r w1 where p: "PublishUse c u w = (r, w1)" by force
  from publish_other [OF p assms(1,2)] obtain e where w1: "fval w1 = fval w" and e: "r = Err e" by auto
  have "clk w \<le> clk w1" using pub.call_time [OF p] .
  from pub.lockWait_run [OF this, of 0] have "lockWait c 0 (clk w) w1 = (Err LockFailed, w1)" by simp
  then have "acquire c u 0 0 w = (Err LockFailed, w1)"
    using p e by (simp add: acquire_def now_run lock_call_def n)
  with w1 show ?thesis by blast
qed

text \<open>No call on one lock touches another key.\<close>

lemma set_frame:
  assumes "kv_set c k v opt w = (r, w')" "\<not> so_dir opt" "k' \<noteq> k"
  shows "fval w' k' = fval w k'"
proof (cases rule: set_cases [OF assms(1)])
  case 1
  then show ?thesis using set_ok [OF assms(1) [unfolded 1]] assms by simp
next
  case 2
  then show ?thesis using set_unknown [OF assms(1) [unfolded 2]] assms by auto
qed

definition same_at :: "string \<Rightarrow> 'w \<Rightarrow> 'w \<Rightarrow> bool" where
  "same_at k a b \<longleftrightarrow> fval b k = fval a k"

lemma same_at_trans: "same_at k a b \<Longrightarrow> same_at k b d \<Longrightarrow> same_at k a d"
  by (simp add: same_at_def)

lemma same_at_pure: "keeps (same_at k) (ret x)" "keeps (same_at k) (fail e)"
  by (simp_all add: keeps_def same_at_def)

lemma same_at_set: "k' \<noteq> k \<Longrightarrow> \<not> so_dir opt \<Longrightarrow> keeps (same_at k') (kv_set c k v opt)"
  by (rule keepsI) (simp add: same_at_def set_frame)

lemma publish_frame:
  assumes "PublishUse c u w = (r, w')" "k \<noteq> lock_key c u"
  shows "fval w' k = fval w k"
proof -
  have "keeps (same_at k) (PublishUse c u)"
    unfolding PublishUse_def publish_create_def publish_again_def using assms(2)
    by (auto intro!: keeps_attempt same_at_set same_at_pure intro: same_at_trans)
  from keepsD [OF this assms(1)] show ?thesis by (simp add: same_at_def)
qed

end

subsection \<open>Several locks at once\<close>

text \<open>
  While this process sleeps others change the store, but nobody takes away a lock it holds:
  \<open>mine\<close> marks the texts it writes.
\<close>

locale lock_world = lock_store c fval clk
  for c :: "('w, 'z) host_scheme" and fval and clk +
  fixes mine :: "string \<Rightarrow> bool"
  assumes sleep_mine: "mine x \<Longrightarrow> fval w k = Some x \<Longrightarrow> fval (h_sleep c t w) k = Some x"
begin

definition owned :: "string \<Rightarrow> 'w \<Rightarrow> bool" where
  "owned k w \<longleftrightarrow> (\<exists>x. mine x \<and> fval w k = Some x)"

text \<open>A key of ours other than the one being acquired keeps its value.\<close>

lemma retry_frame:
  assumes "retry_lock n c (PublishUse c u) timeout now w = (r, w')"
    and "k \<noteq> lock_key c u" "mine x" "fval w k = Some x" "now \<le> clk w" "0 \<le> timeout \<or> timeout = -1"
  shows "fval w' k = Some x"
  using assms(1,4,5)
proof (induction n arbitrary: w)
  case 0
  then show ?case by simp
next
  case (Suc n)
  show ?case
  proof (cases rule: pub.call_cases [of u w])
    case (ok w1)
    then show ?thesis using Suc.prems publish_frame [OF ok(1) assms(2)] by simp
  next
    case (err e w1)
    have x: "fval w1 k = Some x" using Suc.prems publish_frame [OF err(1) assms(2)] by simp
    have now: "now \<le> clk w1" using err(2) Suc.prems by simp
    have "clk w1 \<le> clk (h_sleep c (100 * millisecond) w1)"
      using sleep_moves [of w1 "100 * millisecond"] by (simp add: millisecond_def)
    with Suc.IH [of "h_sleep c (100 * millisecond) w1"] Suc.prems err x now
      sleep_mine [OF assms(3) x] pub.lockWait_run [OF now assms(6)]
    show ?thesis by (auto split: if_splits)
  qed
qed

lemma acquire_frame:
  assumes "acquire c u 0 timeout w = (r, w')"
    and "k \<noteq> lock_key c u" "mine x" "fval w k = Some x" "0 \<le> timeout \<or> timeout = -1"
  shows "fval w' k = Some x"
  by (rule retry_frame [of "h_fuel c" u timeout "clk w" w r w' k x])
    (use assms in \<open>simp_all add: acquire_def lock_call_def now_run\<close>)

lemma acquire_all_frame:
  assumes "acquire_all c timeout us w = (r, w')"
    and "k \<notin> lock_key c ` set us" "mine x" "fval w k = Some x" "0 \<le> timeout \<or> timeout = -1"
  shows "fval w' k = Some x"
  using assms(1,2,4)
proof (induction us arbitrary: w)
  case Nil
  then show ?case by simp
next
  case (Cons u us)
  obtain r1 w1 where a: "acquire c u 0 timeout w = (r1, w1)" by force
  have "fval w1 k = Some x" by (rule acquire_frame [OF a]) (use Cons.prems assms in auto)
  with Cons a show ?case by (cases r1) auto
qed

lemma acquire_all_held:
  assumes "acquire_all c timeout us w = (Ok x, w')" "distinct (map (lock_key c) us)"
    and "\<forall>u \<in> set us. mine (use_text u)" "0 \<le> timeout \<or> timeout = -1" "u \<in> set us"
  shows "held u w'"
  using assms(1,2,3,5)
proof (induction us arbitrary: w)
  case Nil
  then show ?case by simp
next
  case (Cons v us)
  from Cons.prems(1) obtain w1 where a: "acquire c v 0 timeout w = (Ok (), w1)"
    and rest: "acquire_all c timeout us w1 = (Ok x, w')"
    by (auto elim: andThen_OkE)
  show ?case
  proof (cases "u = v")
    case True
    have "held v w1" using acquire_held [OF a assms(4)] .
    then show ?thesis unfolding True
      by (intro acquire_all_frame [OF rest]) (use Cons.prems assms(4) in auto)
  next
    case False
    then show ?thesis using Cons.IH [OF rest] Cons.prems by auto
  qed
qed

text \<open>
  The function runs only with every lock held; otherwise the error is that of the acquisition.
\<close>

lemma multi_lock:
  assumes "ExecuteWithMultiUseLock c us timeout run w = (r, w')" "distinct (map (lock_key c) us)"
    and "\<forall>u \<in> set us. mine (use_text u)" "0 \<le> timeout \<or> timeout = -1"
  shows "(\<exists>w1. acquire_all c timeout us w = (Ok (), w1) \<and> fst (run w1) = r \<and> (\<forall>u \<in> set us. held u w1)) \<or>
         ((\<forall>w1. acquire_all c timeout us w \<noteq> (Ok (), w1)) \<and> snd (acquire_all c timeout us w) = w' \<and>
          (\<forall>x. r \<noteq> Ok x))"
proof (cases "acquire_all c timeout us w" rule: prod.exhaust)
  case (Pair r1 w1)
  have rel: "\<exists>w2. release_all c us v = (Ok (), w2)" for v
  proof (induction us arbitrary: v)
    case Nil
    then show ?case by simp
  next
    case (Cons u us)
    from remove_returns [of u False v] Cons show ?case by auto
  qed
  show ?thesis
  proof (cases r1)
    case (Ok x)
    have held: "\<forall>u \<in> set us. held u w1"
      using acquire_all_held Pair Ok assms(2-4) by blast
    obtain r2 w2 where run: "run w1 = (r2, w2)" by force
    obtain w3 where "release_all c us w2 = (Ok (), w3)" using rel by blast
    then have "r = r2"
      using assms(1) Pair Ok run by (cases r2) (auto simp: ExecuteWithMultiUseLock_def)
    with held run Pair Ok show ?thesis by (intro disjI1 exI [of _ w1]) simp
  qed (use assms(1) Pair in \<open>auto simp: ExecuteWithMultiUseLock_def\<close>)
qed

text \<open>
  A lock that is taken leaves the locks acquired before it behind: nothing releases them.
\<close>

lemma multi_lock_leaves:
  assumes "acquire c u 0 0 w = (Ok (), w1)" "fval w1 (lock_key c v) = Some t" "t \<noteq> use_text v"
    and "mine (use_text u)" "lock_key c u \<noteq> lock_key c v" "0 < h_fuel c"
  shows "\<exists>w'. ExecuteWithMultiUseLock c [u, v] 0 run w = (Err LockFailed, w') \<and> held u w'"
proof -
  obtain w2 where v: "acquire c v 0 0 w1 = (Err LockFailed, w2)" "fval w2 = fval w1"
    using acquire_taken [OF assms(2,3,6)] by blast
  have "held u w1" by (rule acquire_held [OF assms(1)]) simp
  moreover have "ExecuteWithMultiUseLock c [u, v] 0 run w = (Err LockFailed, w2)"
    using assms(1) v(1) by (simp add: ExecuteWithMultiUseLock_def)
  ultimately show ?thesis using v(2) by auto
qed

text \<open>The refresher keeps the lock until it is stopped, and a stop removes it from a reachable store.\<close>

definition stays :: "string \<Rightarrow> string \<Rightarrow> 'w \<Rightarrow> 'w \<Rightarrow> bool" where
  "stays k x a b \<longleftrightarrow> (fval a k = Some x \<longrightarrow> fval b k = Some x)"

lemma stays_trans: "stays k x a b \<Longrightarrow> stays k x b d \<Longrightarrow> stays k x a d"
  by (simp add: stays_def)

lemma stays_pure: "keeps (stays k x) (ret y)" "keeps (stays k x) (fail e)"
  by (simp_all add: keeps_def stays_def)

lemma stays_set: "\<not> so_dir opt \<Longrightarrow> keeps (stays k x) (kv_set c k x opt)"
proof (rule keepsI)
  fix w r w'
  assume o: "\<not> so_dir opt" and m: "kv_set c k x opt w = (r, w')"
  show "stays k x w w'"
  proof (cases rule: set_cases [OF m])
    case 1
    then show ?thesis using set_ok [OF m [unfolded 1] o] by (simp add: stays_def)
  next
    case 2
    then show ?thesis using set_unknown [OF m [unfolded 2] o] by (auto simp: stays_def)
  qed
qed

lemma ttl_keeps_own:
  assumes "PublishUseWithTTL c u t w = (r, w')" "held u w"
  shows "held u w'"
proof -
  have "keeps (stays (lock_key c u) (use_text u)) (PublishUseWithTTL c u t)"
    unfolding PublishUseWithTTL_def
    by (auto intro!: keeps_attempt stays_set stays_pure intro: stays_trans)
  from keepsD [OF this assms(1)] assms(2) show ?thesis by (simp add: stays_def)
qed

lemma refresh_keeps:
  assumes "mine (use_text u)" "held u w" "t \<noteq> 0" "0 \<le> timeout \<or> timeout = -1"
    and "acquire c u t timeout w = (r, w')"
  shows "held u w'"
proof -
  have "held u w'" if "retry_lock n c (PublishUseWithTTL c u t) timeout now v = (r, w')" "held u v" "now \<le> clk v"
    for n now v
    using that
  proof (induction n arbitrary: v)
    case 0
    then show ?case by simp
  next
    case (Suc n)
    show ?case
    proof (cases rule: ttl.call_cases [of u t v])
      case (ok v1)
      then show ?thesis using Suc.prems ttl.call_ok [OF ok(1)] by simp
    next
      case (err e v1)
      have h: "held u v1" using ttl_keeps_own [OF err(1) Suc.prems(2)] .
      have now: "now \<le> clk v1" using err(2) Suc.prems(3) by simp
      have "clk v1 \<le> clk (h_sleep c (100 * millisecond) v1)"
        using sleep_moves [of v1 "100 * millisecond"] by (simp add: millisecond_def)
      with Suc.IH [of "h_sleep c (100 * millisecond) v1"] Suc.prems err h now
        sleep_mine [OF assms(1) h] ttl.lockWait_run [OF now assms(4)]
      show ?thesis by (auto split: if_splits)
    qed
  qed
  from this [of "h_fuel c" "clk w" w] assms show ?thesis
    by (simp add: acquire_def now_run lock_call_def)
qed

end

interpretation machine: lock_world "machine_host n" mem_file mc_clock "\<lambda>_. True"
  by unfold_locales (simp add: mem_file_def mc_sleep_def)

end
