(* ===== verification/Lock_System.thy ===== *)
theory Lock_System imports Lock begin

text \<open>
  The use locks as a system: any number of hosts, each running the lock protocol of
  \<open>PublishUse\<close>, \<open>PublishUseWithTTL\<close> and \<open>RemoveUse\<close> against one store, their calls to
  etcd interleaved one by one, with errors and lost replies. The invariant gives mutual exclusion.
\<close>

section \<open>The protocol of one host\<close>

text \<open>
  A host is idle, about to make the second write of \<open>PublishUse\<close>, holds a lock, or is about to
  make the second write of \<open>PublishUseWithTTL\<close>.
\<close>

datatype pc = Idle | Retry use | Holding use | Recreate use

type_synonym 'w system = "'w \<times> (string \<Rightarrow> pc)"

text \<open>A mount lock carries the name of the host that takes it.\<close>

fun owner_ok :: "string \<Rightarrow> use \<Rightarrow> bool" where
  "owner_ok a (UseMount v h r) = (h = a)"
| "owner_ok a _ = True"

definition refresh_write :: "('w, 'z) client_scheme \<Rightarrow> use \<Rightarrow> int \<Rightarrow> ('w, goerr, node) io" where
  "refresh_write c u ttl =
     kv_set c (lock_key c u) (use_text u) (set_nil\<lparr>so_ttl := ttl, so_value := use_text u\<rparr>)"

definition recreate_write :: "('w, 'z) client_scheme \<Rightarrow> use \<Rightarrow> int \<Rightarrow> ('w, goerr, node) io" where
  "recreate_write c u ttl =
     kv_set c (lock_key c u) (use_text u) (set_nil\<lparr>so_ttl := ttl, so_exist := PrevNoExist\<rparr>)"

inductive step :: "('w, 'z) client_scheme \<Rightarrow> ('w \<Rightarrow> string \<Rightarrow> string option) \<Rightarrow> 'w system \<Rightarrow> 'w system \<Rightarrow> bool"
  for c fval where
  create_ok: "pc a = Idle \<Longrightarrow> owner_ok a u \<Longrightarrow> publish_create c u w = (Ok n, w') \<Longrightarrow>
     step c fval (w, pc) (w', pc(a := Holding u))"
| create_exists: "pc a = Idle \<Longrightarrow> owner_ok a u \<Longrightarrow> publish_create c u w = (Err e, w') \<Longrightarrow>
     is_node_exist e \<Longrightarrow> MayExist u \<Longrightarrow> step c fval (w, pc) (w', pc(a := Retry u))"
| create_fails: "pc a = Idle \<Longrightarrow> owner_ok a u \<Longrightarrow> publish_create c u w = (Err e, w') \<Longrightarrow>
     \<not> (is_node_exist e \<and> MayExist u) \<Longrightarrow> step c fval (w, pc) (w', pc)"
| again_ok: "pc a = Retry u \<Longrightarrow> publish_again c u w = (Ok n, w') \<Longrightarrow>
     step c fval (w, pc) (w', pc(a := Holding u))"
| again_fails: "pc a = Retry u \<Longrightarrow> publish_again c u w = (Err e, w') \<Longrightarrow>
     step c fval (w, pc) (w', pc(a := Idle))"
| refresh: "pc a = Holding u \<Longrightarrow> refresh_write c u ttl w = (r, w') \<Longrightarrow>
     \<not> (\<exists>e. r = Err e \<and> Contains (EtcdToErrored e) NotExists) \<Longrightarrow> step c fval (w, pc) (w', pc)"
| refresh_missing: "pc a = Holding u \<Longrightarrow> refresh_write c u ttl w = (Err e, w') \<Longrightarrow>
     Contains (EtcdToErrored e) NotExists \<Longrightarrow> step c fval (w, pc) (w', pc(a := Recreate u))"
| recreate: "pc a = Recreate u \<Longrightarrow> recreate_write c u ttl w = (r, w') \<Longrightarrow>
     step c fval (w, pc) (w', pc(a := Holding u))"
| release: "pc a = Holding u \<Longrightarrow> RemoveUse c u False w = (r, w') \<Longrightarrow>
     step c fval (w, pc) (w', pc(a := Idle))"
| other: "\<forall>u. fval w' (lock_key c u) = fval w (lock_key c u) \<Longrightarrow> step c fval (w, pc) (w', pc)"

inductive_cases stepE: "step c fval (w, pc) (w', pc')"

lemmas step_cases = stepE [consumes 1, case_names create_ok create_exists create_fails again_ok
  again_fails refresh refresh_missing recreate release other]

inductive reach :: "('w, 'z) client_scheme \<Rightarrow> ('w \<Rightarrow> string \<Rightarrow> string option) \<Rightarrow> 'w system \<Rightarrow> 'w system \<Rightarrow> bool"
  for c fval where
  reach_refl: "reach c fval s s"
| reach_step: "reach c fval s s' \<Longrightarrow> step c fval s' s'' \<Longrightarrow> reach c fval s s''"

definition all_idle :: "string \<Rightarrow> pc" where
  "all_idle = (\<lambda>a. Idle)"

section \<open>The invariant\<close>

definition exclusive ::
  "('w, 'z) client_scheme \<Rightarrow> ('w \<Rightarrow> string \<Rightarrow> string option) \<Rightarrow> 'w system \<Rightarrow> bool" where
  "exclusive c fval s \<longleftrightarrow>
     (\<forall>a u. snd s a = Holding u \<longrightarrow> fval (fst s) (lock_key c u) = Some (use_text u) \<and> owner_ok a u) \<and>
     (\<forall>a u. snd s a = Retry u \<longrightarrow> MayExist u \<and> owner_ok a u) \<and>
     (\<forall>a u. snd s a \<noteq> Recreate u) \<and>
     (\<forall>a b u v. a \<noteq> b \<longrightarrow> snd s a = Holding u \<longrightarrow> snd s b = Holding v \<longrightarrow> lock_key c u \<noteq> lock_key c v)"

lemma exclusive_idle: "exclusive c fval (w, all_idle)"
  by (simp add: exclusive_def all_idle_def)

lemma exclusive_held:
  "exclusive c fval (w, pc) \<Longrightarrow> pc a = Holding u \<Longrightarrow> fval w (lock_key c u) = Some (use_text u)"
  by (simp add: exclusive_def)

text \<open>A host gives up or keeps what it has, and the held keys are as before.\<close>

lemma exclusive_release:
  assumes "exclusive c fval (w, pc)" "x = Idle \<or> x = pc a \<or> (\<exists>u. x = Retry u \<and> MayExist u \<and> owner_ok a u)"
    and "\<forall>b u. (pc(a := x)) b = Holding u \<longrightarrow> fval w' (lock_key c u) = fval w (lock_key c u)"
  shows "exclusive c fval (w', pc(a := x))"
  using assms by (fastforce simp: exclusive_def)

lemma exclusive_same:
  assumes "exclusive c fval (w, pc)"
    and "\<forall>b u. pc b = Holding u \<longrightarrow> fval w' (lock_key c u) = fval w (lock_key c u)"
  shows "exclusive c fval (w', pc)"
  using assms by (fastforce simp: exclusive_def)

text \<open>A host takes a lock whose key nobody else holds.\<close>

lemma exclusive_take:
  assumes "exclusive c fval (w, pc)" "owner_ok a u" "fval w' (lock_key c u) = Some (use_text u)"
    and "\<forall>k. k \<noteq> lock_key c u \<longrightarrow> fval w' k = fval w k"
    and free: "\<forall>b v. b \<noteq> a \<longrightarrow> pc b = Holding v \<longrightarrow> lock_key c v \<noteq> lock_key c u"
  shows "exclusive c fval (w', pc(a := Holding u))"
proof -
  have "fval w' (lock_key c v) = Some (use_text v)" if "b \<noteq> a" "pc b = Holding v" for b v
  proof -
    have "lock_key c v \<noteq> lock_key c u" using free that by blast
    then have "fval w' (lock_key c v) = fval w (lock_key c v)" using assms(4) by blast
    then show ?thesis using exclusive_held [OF assms(1) that(2)] by simp
  qed
  then show ?thesis using assms by (auto simp: exclusive_def)
qed

context etcd begin

lemma create_frame:
  assumes "publish_create c u w = (r, w')" "fval w k = Some x"
  shows "fval w' k = Some x"
proof -
  note call = assms(1) [unfolded publish_create_def]
  show ?thesis
  proof (cases rule: set_cases [OF call])
    case 1
    then show ?thesis using set_ok [OF call [unfolded 1]] assms(2) by (auto simp: admits_def)
  next
    case 2
    then show ?thesis using set_unknown [OF call [unfolded 2]] assms(2) by (auto simp: admits_def)
  qed
qed

lemma refresh_frame:
  assumes "refresh_write c u ttl w = (r, w')" "fval w (lock_key c u) = Some (use_text u)"
  shows "fval w' = fval w"
proof -
  note call = assms(1) [unfolded refresh_write_def]
  show ?thesis
  proof (cases rule: set_cases [OF call])
    case 1
    then show ?thesis using set_ok [OF call [unfolded 1]] assms(2) by (simp add: fun_upd_idem)
  next
    case 2
    then show ?thesis using set_unknown [OF call [unfolded 2]] assms(2) by (auto simp: fun_upd_idem)
  qed
qed

lemma refresh_not_missing:
  assumes "refresh_write c u ttl w = (Err e, w')" "fval w (lock_key c u) \<noteq> None"
  shows "\<not> Contains (EtcdToErrored e) NotExists"
proof
  assume m: "Contains (EtcdToErrored e) NotExists"
  note call = assms(1) [unfolded refresh_write_def]
  have f: "\<not> is_errored e" using set_foreign [OF call] .
  then obtain code t where e: "e = EtcdErr code t" using m by (cases e) auto
  have "code \<noteq> 100" using set_missing [of "lock_key c u"] call assms(2) e by auto
  then show False using m e by (auto simp: etcdCodeTable_def split: if_splits)
qed

text \<open>Every step keeps the invariant.\<close>

lemma exclusive_step:
  assumes "exclusive c fval (w, pc)" "step c fval (w, pc) (w', pc')"
  shows "exclusive c fval (w', pc')"
  using assms(2)
proof (cases rule: step_cases)
  case (create_ok a u n)
  from publish_create_ok [OF create_ok(4)] have none: "fval w (lock_key c u) = None"
    and w': "fval w' = (fval w)(lock_key c u \<mapsto> use_text u)" .
  have "\<forall>b v. pc b = Holding v \<longrightarrow> lock_key c v \<noteq> lock_key c u"
    using exclusive_held [OF assms(1)] none by fastforce
  then show ?thesis unfolding create_ok(1)
    by (intro exclusive_take [OF assms(1) create_ok(3)]) (auto simp: w')
next
  case (create_exists a u e)
  then show ?thesis
    using exclusive_release [OF assms(1), of "Retry u" a w'] exclusive_held [OF assms(1)] create_frame
    by (fastforce split: if_splits)
next
  case (create_fails a u e)
  then show ?thesis
    using exclusive_same [OF assms(1), of w'] exclusive_held [OF assms(1)] create_frame by fastforce
next
  case (again_ok a u n)
  from publish_again_ok [OF again_ok(3)] have stored: "fval w (lock_key c u) = Some (use_text u)"
    and w': "fval w' = fval w" .
  have own_a: "MayExist u" "owner_ok a u" using assms(1) again_ok(2) by (auto simp: exclusive_def)
  have "lock_key c v \<noteq> lock_key c u" if "b \<noteq> a" "pc b = Holding v" for b v
  proof
    assume k: "lock_key c v = lock_key c u"
    have "use_text v = use_text u" using exclusive_held [OF assms(1) that(2)] stored k by simp
    then have "v = u" by (simp add: use_text_inj)
    moreover have "owner_ok b v" using assms(1) that(2) by (auto simp: exclusive_def)
    ultimately show False using own_a that(1) by (cases u) auto
  qed
  then show ?thesis unfolding again_ok(1)
    by (intro exclusive_take [OF assms(1) own_a(2)]) (auto simp: w' stored)
next
  case (again_fails a u e)
  have "fval w' = fval w" using publish_again_unchanged(1) [OF again_fails(3)] .
  then show ?thesis unfolding again_fails(1) by (intro exclusive_release [OF assms(1)]) auto
next
  case (refresh a u ttl r)
  have "fval w' = fval w" using refresh_frame [OF refresh(3)] exclusive_held [OF assms(1) refresh(2)] by simp
  then show ?thesis unfolding refresh(1) by (intro exclusive_same [OF assms(1)]) auto
next
  case (refresh_missing a u ttl e)
  then show ?thesis using refresh_not_missing exclusive_held [OF assms(1)] by fastforce
next
  case (recreate a u ttl r)
  then show ?thesis using assms(1) by (auto simp: exclusive_def)
next
  case (release a u r)
  have "lock_key c v \<noteq> lock_key c u" if "b \<noteq> a" "pc b = Holding v" for b v
    using assms(1) that release(2) by (fastforce simp: exclusive_def)
  then have "fval w' (lock_key c v) = fval w (lock_key c v)" if "b \<noteq> a" "pc b = Holding v" for b v
    using remove_unforced [OF release(3)] that by auto
  then show ?thesis unfolding release(1) by (intro exclusive_release [OF assms(1)]) auto
next
  case other
  then show ?thesis by (auto intro: exclusive_same [OF assms(1)])
qed

lemma exclusive_reach:
  assumes "reach c fval s s'" "exclusive c fval s"
  shows "exclusive c fval s'"
  using assms
proof (induction rule: reach.induct)
  case (reach_step s s' s'')
  then show ?case by (cases s'; cases s'') (auto intro: exclusive_step)
qed

text \<open>\<open>PublishUse\<close> run by one host alone is a path of the system.\<close>

lemma publish_steps:
  assumes "PublishUse c u w = (Ok x, w')" "pc a = Idle" "owner_ok a u"
  shows "reach c fval (w, pc) (w', pc(a := Holding u))"
  using assms(1) unfolding PublishUse_def
proof (cases rule: attempt_OkE)
  case (ok n w1)
  then show ?thesis
    using reach_step [OF reach_refl step.create_ok [of pc a u c w n w1 fval]] assms(2,3) by simp
next
  case (err e w1)
  from err(2) have ex: "is_node_exist e" "MayExist u" by (auto split: if_splits)
  with err(2) obtain n where again: "publish_again c u w1 = (Ok n, w')"
    by (auto elim: attempt_OkE)
  have s1: "step c fval (w, pc) (w1, pc(a := Retry u))"
    using err(1) ex assms(2,3) by (rule step.create_exists [rotated 2])
  have s2: "step c fval (w1, pc(a := Retry u)) (w', (pc(a := Retry u))(a := Holding u))"
    by (rule step.again_ok [OF _ again]) simp
  show ?thesis using reach_step [OF reach_step [OF reach_refl s1] s2] by simp
qed

end

section \<open>The background refresh\<close>

context lock_world begin

lemma refresher_held:
  assumes "mine (use_text u)" "held u w" "t \<noteq> 0" "0 \<le> timeout" 
    and "timeout \<le> (int (h_fuel c) - 1) * (100 * millisecond)" "0 < h_fuel c"
  shows "\<exists>w'. refresher c u t timeout (replicate n Tick @ es) w = refresher c u t timeout es w' \<and> held u w'"
  using assms(2)
proof (induction n arbitrary: w)
  case 0
  then show ?case by auto
next
  case (Suc n)
  obtain r w1 where a: "acquire c u t timeout w = (r, w1)" "r = Ok () \<or> r = Err LockFailed"
    using acquire_in_time [OF assms(4-6), of u t w] by auto
  have "held u w1" by (rule refresh_keeps [OF assms(1) Suc.prems assms(3) _ a(1)]) (use assms(4) in simp)
  from Suc.IH [OF this] a show ?case by auto
qed

end

section \<open>Properties\<close>



text \<open>
  \<open>PublishUse\<close>: a success leaves the owner's record at the lock's key and nothing else changed,
  and it is possible only when the key was absent or, for the re-entrant mount locks, already held
  the same record; a lock with another record makes the call fail and stays as it is.
\<close>

theorem publish_use_contract:
  assumes "etcd c fval" "PublishUse c u w = (r, w')"
  shows "(r = Ok () \<longrightarrow> fval w' = (fval w)(lock_key c u \<mapsto> use_text u) \<and>
            (fval w (lock_key c u) = None \<or> (MayExist u \<and> fval w (lock_key c u) = Some (use_text u)))) \<and>
         (\<forall>t. fval w (lock_key c u) = Some t \<and> t \<noteq> use_text u \<longrightarrow> fval w' = fval w \<and> (\<exists>e. r = Err e))"
  using etcd.publish_ok [OF assms(1)] etcd.publish_other [OF assms(1)] assms(2) by metis

theorem publish_use_contract_witness:
  "\<exists>w'. PublishUse (mem_client :: mem client) (UseSnapshot ''p/v'' ''Snapshot'') mem_empty = (Ok (), w') \<and>
     mem_file w' = (mem_file mem_empty)(lock_key (mem_client :: mem client) (UseSnapshot ''p/v'' ''Snapshot'')
       \<mapsto> use_text (UseSnapshot ''p/v'' ''Snapshot''))"
proof -
  let ?c = "mem_client :: mem client" and ?u = "UseSnapshot ''p/v'' ''Snapshot''"
  have "fst (PublishUse ?c ?u mem_empty) = Ok ()" by code_simp
  then have p: "PublishUse ?c ?u mem_empty = (Ok (), snd (PublishUse ?c ?u mem_empty))"
    by (metis prod.collapse)
  from publish_use_contract [OF mem.etcd_axioms p] p show ?thesis by blast
qed

text \<open>
  C2. \<open>acquire\<close> with a clock that does not go back: when it returns without an error the lock is
  held, and with retries for the whole timeout it returns, either so or with \<open>LockFailed\<close> once the
  timeout has passed.
\<close>

theorem acquire_correct:
  assumes "lock_store c fval clk" "0 \<le> timeout"
    and "timeout \<le> (int (h_fuel c) - 1) * (100 * millisecond)" "0 < h_fuel c"
  shows "\<exists>w'. (acquire c u ttl timeout w = (Ok (), w') \<and> fval w' (lock_key c u) = Some (use_text u)) \<or>
              (acquire c u ttl timeout w = (Err LockFailed, w') \<and> timeout \<le> clk w' - clk w)"
  using lock_store.acquire_in_time [OF assms, of u ttl w] lock_store.acquire_held [OF assms(1)] assms(2)
  by blast

lemma machine_lock_store: "lock_store (machine_host n) mem_file mc_clock"
  using machine.lock_world_axioms by (rule lock_world.axioms(1))

theorem acquire_correct_witness:
  "\<exists>w'. (acquire (machine_host 3) (UseMount ''p/v'' ''mon0'' ''Mount'') 0 200000000 machine_start = (Ok (), w') \<and>
          mem_file w' (lock_key (machine_host 3) (UseMount ''p/v'' ''mon0'' ''Mount'')) =
            Some (use_text (UseMount ''p/v'' ''mon0'' ''Mount''))) \<or>
        (acquire (machine_host 3) (UseMount ''p/v'' ''mon0'' ''Mount'') 0 200000000 machine_start = (Err LockFailed, w') \<and>
          200000000 \<le> mc_clock w' - mc_clock machine_start)"
  by (rule acquire_correct [OF machine_lock_store]) (simp_all add: millisecond_def)

text \<open>
  \<open>ExecuteWithMultiUseLock\<close>: the function runs only in a store in which every one of the locks
  is held by this process, and its outcome is the outcome of the call; when some lock cannot be
  acquired the function does not run and the call does not succeed.
\<close>

theorem multi_lock_holds_all:
  assumes "lock_world c fval clk mine" "ExecuteWithMultiUseLock c us timeout run w = (r, w')"
    and "distinct (map (lock_key c) us)" "\<forall>u \<in> set us. mine (use_text u)" "0 \<le> timeout \<or> timeout = -1"
  shows "(\<exists>w1. acquire_all c timeout us w = (Ok (), w1) \<and> fst (run w1) = r \<and>
               (\<forall>u \<in> set us. fval w1 (lock_key c u) = Some (use_text u))) \<or>
         ((\<forall>w1. acquire_all c timeout us w \<noteq> (Ok (), w1)) \<and> snd (acquire_all c timeout us w) = w' \<and>
          (\<forall>x. r \<noteq> Ok x))"
  using lock_world.multi_lock [OF assms] .

theorem multi_lock_holds_all_witness:
  "\<exists>w'. ExecuteWithMultiUseLock (machine_host 3)
           [UseMount ''p/v'' ''mon0'' ''Create'', UseSnapshot ''p/v'' ''Create''] 0 (ret True) machine_start
         = (Ok True, w') \<and>
       (\<exists>w1::machine. mem_file w1 (lock_key (machine_host 3) (UseSnapshot ''p/v'' ''Create'')) =
          Some (use_text (UseSnapshot ''p/v'' ''Create'')))"
proof -
  let ?us = "[UseMount ''p/v'' ''mon0'' ''Create'', UseSnapshot ''p/v'' ''Create'']"
  let ?run = "ExecuteWithMultiUseLock (machine_host 3) ?us 0 (ret True) machine_start"
  have r: "fst ?run = Ok True" by code_simp
  then have run: "?run = (Ok True, snd ?run)" by (metis prod.collapse)
  have "distinct (map (lock_key (machine_host 3)) ?us)" by code_simp
  from multi_lock_holds_all [OF machine.lock_world_axioms run this] run show ?thesis by auto
qed


definition busy_snapshot :: machine where
  "busy_snapshot = snd (PublishUse (machine_host 3) (UseSnapshot ''p/v'' ''Snapshot'') machine_start)"


text \<open>
  The refresher of \<open>AcquireWithTTLRefresh\<close>: however often it refreshes, the lock stays held; when
  it is stopped, it removes the lock from a store that answers, and runs no more.
\<close>

theorem refresher_lifecycle:
  assumes "lock_world c fval clk mine" "etcd_up c fval free"
    and "mine (use_text u)" "fval w (lock_key c u) = Some (use_text u)" "ttl \<noteq> 0" "0 \<le> timeout"
    and "timeout \<le> (int (h_fuel c) - 1) * (100 * millisecond)" "0 < h_fuel c"
  shows "\<exists>w1 w2. refresher c u ttl timeout (replicate n Tick) w = (Ok True, w1) \<and>
                 fval w1 (lock_key c u) = Some (use_text u) \<and>
                 refresher c u ttl timeout (replicate n Tick @ [Stop]) w = (Ok False, w2) \<and>
                 fval w2 (lock_key c u) = None"
proof -
  obtain w1 where t: "refresher c u ttl timeout (replicate n Tick) w = (Ok True, w1)"
    and h: "fval w1 (lock_key c u) = Some (use_text u)"
    using lock_world.refresher_held [OF assms(1,3-8), of n "[]"] by auto
  obtain v where s: "refresher c u ttl timeout (replicate n Tick @ [Stop]) w = refresher c u ttl timeout [Stop] v"
    and v: "fval v (lock_key c u) = Some (use_text u)"
    using lock_world.refresher_held [OF assms(1,3-8), of n "[Stop]"] by blast
  obtain k w2 where "kv_del c (lock_key c u) (remove_opts u False) v = (Ok k, w2)"
    using etcd_up.del_up [OF assms(2) v, of "remove_opts u False"] by auto
  then have rem: "RemoveUse c u False v = (Ok (), w2)" by (simp add: RemoveUse_def)
  have "fval w2 (lock_key c u) = None"
    using etcd.remove_ok(1) [OF etcd_up.axioms(1) [OF assms(2)] rem] by simp
  with t h s rem show ?thesis by auto
qed

definition held_by_mon0 :: machine where
  "held_by_mon0 = snd (PublishUse (machine_host 3) (UseMount ''p/v'' ''mon0'' ''Mount'') machine_start)"

theorem refresher_lifecycle_witness:
  "\<exists>w1 w2. refresher (machine_host 3) (UseMount ''p/v'' ''mon0'' ''Mount'') 30 0 (replicate 2 Tick) held_by_mon0
        = (Ok True, w1) \<and>
      mem_file w1 (lock_key (machine_host 3) (UseMount ''p/v'' ''mon0'' ''Mount'')) =
        Some (use_text (UseMount ''p/v'' ''mon0'' ''Mount'')) \<and>
      refresher (machine_host 3) (UseMount ''p/v'' ''mon0'' ''Mount'') 30 0 (replicate 2 Tick @ [Stop]) held_by_mon0
        = (Ok False, w2) \<and>
      mem_file w2 (lock_key (machine_host 3) (UseMount ''p/v'' ''mon0'' ''Mount'')) = None"
proof -
  have "mem_file held_by_mon0 (lock_key (machine_host 3) (UseMount ''p/v'' ''mon0'' ''Mount'')) =
      Some (use_text (UseMount ''p/v'' ''mon0'' ''Mount''))" by code_simp
  then show ?thesis
    by (intro refresher_lifecycle [OF machine.lock_world_axioms machine.etcd_up_axioms])
      (simp_all add: millisecond_def)
qed

definition backward_host :: "machine host" where
  "backward_host = (machine_host 3)\<lparr>h_now := \<lambda>w. (mc_clock w, w\<lparr>mc_clock := mc_clock w - 1\<rparr>)\<rparr>"

text \<open>
  The wall clock going back between the two readings of one attempt: \<open>lockWait\<close> then yields
  false without an error, and \<open>acquire\<close> with timeout 0 returns without an error although another
  host holds the lock. For a clock that does not go back the first theorems on \<open>acquire\<close> hold.
\<close>

theorem acquire_backward_clock:
  "\<exists>w'. acquire backward_host (UseMount ''p/v'' ''mon1'' ''Mount'') 0 0 held_by_mon0 = (Ok (), w') \<and>
        mem_file w' (lock_key backward_host (UseMount ''p/v'' ''mon1'' ''Mount'')) =
          Some (use_text (UseMount ''p/v'' ''mon0'' ''Mount''))"
proof -
  let ?a = "acquire backward_host (UseMount ''p/v'' ''mon1'' ''Mount'') 0 0 held_by_mon0"
  have "fst ?a = Ok ()" by code_simp
  moreover have "mem_file (snd ?a) (lock_key backward_host (UseMount ''p/v'' ''mon1'' ''Mount'')) =
      Some (use_text (UseMount ''p/v'' ''mon0'' ''Mount''))" by code_simp
  ultimately show ?thesis by (intro exI [of _ "snd ?a"] conjI) (metis prod.collapse)
qed

text \<open>
  Round trip of the lock record: after a successful \<open>PublishUse\<close> of a lock on the volume,
  \<open>GetUse\<close> with an empty record of the same type reads back the owner's record.
\<close>

theorem publish_then_get_use:
  assumes "etcd_up c fval free" "PublishUse c u w = (Ok (), w1)"
    and "use_GetVolume u = Volume_String v" "use_Type u' = use_Type u"
  shows "\<exists>w2. GetUse c u' v w1 = (Ok u, w2) \<and> fval w2 = fval w1"
proof -
  have "fval w1 (use_key c (use_Type u) (Volume_String v)) = Some (use_text u)"
    using etcd.publish_ok(1) [OF etcd_up.axioms(1) [OF assms(1)] assms(2)] assms(3)
    by (simp add: lock_key_def)
  then show ?thesis by (rule etcd_up.get_use [OF assms(1) _ assms(4)])
qed

theorem publish_then_get_use_witness:
  "\<exists>w2. GetUse (mem_client :: mem client) (UseMount [] [] []) (zero_volume\<lparr>v_policy := ''p'', v_name := ''v''\<rparr>)
      (snd (PublishUse (mem_client :: mem client) (UseMount ''p/v'' ''mon0'' ''Mount'') mem_empty)) =
      (Ok (UseMount ''p/v'' ''mon0'' ''Mount''), w2)"
proof -
  let ?p = "PublishUse (mem_client :: mem client) (UseMount ''p/v'' ''mon0'' ''Mount'') mem_empty"
  have "fst ?p = Ok ()" by code_simp
  then have p: "?p = (Ok (), snd ?p)" by (metis prod.collapse)
  have v: "use_GetVolume (UseMount ''p/v'' ''mon0'' ''Mount'') =
      Volume_String (zero_volume\<lparr>v_policy := ''p'', v_name := ''v''\<rparr>)" by code_simp
  from publish_then_get_use [OF mem.etcd_up_axioms p v, of "UseMount [] [] []"] show ?thesis by auto
qed

end
