(* ===== verification/Storage.thy ===== *)
theory Storage imports Host begin

text \<open>
  \<open>storage/driver.go\<close> and \<open>storage/utils.go\<close>: the data every storage driver receives and
  returns, their validation, and the splitting of a docker volume name.
\<close>

record StorageVolume =
  sv_name :: string
  sv_size :: nat               \<comment> \<open>\<open>uint64\<close>\<close>
  sv_params :: "smap option"

record FSOptions =
  fs_type :: string
  fs_create_command :: string

record DriverOptions =
  d_source :: string
  d_volume :: StorageVolume
  d_fs :: FSOptions
  d_timeout :: int
  d_options :: "smap option"

record Mount =
  mt_device :: string
  mt_path :: string
  mt_major :: nat
  mt_minor :: nat
  mt_volume :: StorageVolume

definition ErrVolumeExist :: goerr where
  "ErrVolumeExist = Plain ''Volume already exists''"

definition zero_sv :: StorageVolume where
  "zero_sv = \<lparr>sv_name = [], sv_size = 0, sv_params = None\<rparr>"

definition zero_driver_options :: DriverOptions where
  "zero_driver_options = \<lparr>d_source = [], d_volume = zero_sv, d_fs = \<lparr>fs_type = [], fs_create_command = []\<rparr>,
     d_timeout = 0, d_options = None\<rparr>"

text \<open>\<open>do.Volume.Params[k]\<close>: a nil map and a missing key both give the empty string.\<close>

definition lookup_opt :: "smap option \<Rightarrow> string \<Rightarrow> string" where
  "lookup_opt m k = (case m of None \<Rightarrow> [] | Some m' \<Rightarrow> smap_get m' k)"

definition param :: "DriverOptions \<Rightarrow> string \<Rightarrow> string" where
  "param d k = lookup_opt (sv_params (d_volume d)) k"

definition StorageVolume_Validate :: "StorageVolume \<Rightarrow> unit res" where
  "StorageVolume_Validate v =
     (if sv_name v = [] then Err (Fresh ''Name is missing in storage driver'')
      else if sv_params v = None then Err (Fresh ''Params are nil in storage driver'')
      else Ok ())"

definition DriverOptions_Validate :: "DriverOptions \<Rightarrow> unit res" where
  "DriverOptions_Validate d =
     (if d_timeout d = 0 then Err (Fresh ''Missing timeout in storage driver'')
      else StorageVolume_Validate (d_volume d))"

text \<open>\<open>SplitName\<close>\<close>

definition count_char :: "char \<Rightarrow> string \<Rightarrow> nat" where
  "count_char c s = length (filter (\<lambda>x. x = c) s)"

definition SplitName :: "string \<Rightarrow> (string \<times> string) res" where
  "SplitName name =
     (if count_char CHR ''/'' name > 1 then Err (Combine InvalidVolume (Fresh name))
      else (case split2 CHR ''/'' name of
          [a, b] \<Rightarrow> if a = [] \<or> b = [] then Err (Combine InvalidVolume (Fresh name)) else Ok (a, b)
        | _ \<Rightarrow> Err (Combine InvalidVolume (Fresh name))))"

lemma count_char_append [simp]: "count_char c (a @ b) = count_char c a + count_char c b"
  by (simp add: count_char_def)

lemma count_char_Cons [simp]: "count_char c (x # s) = (if x = c then 1 else 0) + count_char c s"
  by (simp add: count_char_def)

lemma count_char_zero: "count_char c s = 0 \<longleftrightarrow> c \<notin> set s"
  by (auto simp: count_char_def filter_empty_conv)

text \<open>A name splits exactly when it is two non-empty parts around its only slash.\<close>

lemma SplitName_iff:
  "SplitName name = Ok (a, b) \<longleftrightarrow>
     name = a @ ''/'' @ b \<and> a \<noteq> [] \<and> b \<noteq> [] \<and> CHR ''/'' \<notin> set a \<and> CHR ''/'' \<notin> set b"
proof
  assume ok: "SplitName name = Ok (a, b)"
  then have cnt: "count_char CHR ''/'' name \<le> 1" and s: "split2 CHR ''/'' name = [a, b]"
    and ne: "a \<noteq> []" "b \<noteq> []"
    by (auto simp: SplitName_def split: if_splits list.splits)
  have name: "name = a @ CHR ''/'' # b" and na: "CHR ''/'' \<notin> set a"
    using split2_pairE [OF s] by auto
  have "count_char CHR ''/'' b = 0" using cnt na unfolding name by simp
  with name na ne show "name = a @ ''/'' @ b \<and> a \<noteq> [] \<and> b \<noteq> [] \<and> CHR ''/'' \<notin> set a \<and> CHR ''/'' \<notin> set b"
    by (simp add: count_char_zero)
next
  assume h: "name = a @ ''/'' @ b \<and> a \<noteq> [] \<and> b \<noteq> [] \<and> CHR ''/'' \<notin> set a \<and> CHR ''/'' \<notin> set b"
  then have "split2 CHR ''/'' name = [a, b]" by (simp add: split2_append)
  moreover have "count_char CHR ''/'' a = 0" "count_char CHR ''/'' b = 0"
    using h by (simp_all add: count_char_zero)
  ultimately show "SplitName name = Ok (a, b)" using h by (simp add: SplitName_def)
qed

lemma SplitName_fails: "(\<exists>a b. SplitName name = Ok (a, b)) \<or> SplitName name = Err (Combine InvalidVolume (Fresh name))"
  by (auto simp: SplitName_def split: list.splits)

end
