(* ===== verification/Mountscan.thy ===== *)
theory Mountscan imports Storage begin

text \<open>
  \<open>storage/mountscan/mountscan.go\<close>: the mounts of the host, read from \<open>/proc/self/mountinfo\<close>,
  and the major number of a kernel driver, read from \<open>/proc/devices\<close>.
\<close>

definition mountInfoFile :: string where "mountInfoFile = ''/proc/self/mountinfo''"
definition deviceInfoFile :: string where "deviceInfoFile = ''/proc/devices''"
definition nfsMajorID :: nat where "nfsMajorID = 0"
definition totalMountInfoFieldsNum :: nat where "totalMountInfoFieldsNum = 10"

record GetMountsRequest =
  gm_driver :: string
  gm_fs_type :: string
  gm_kernel :: string

record MountInfo =
  mi_id :: nat
  mi_parent :: nat
  mi_major :: nat
  mi_minor :: nat
  mi_root :: string
  mi_point :: string
  mi_options :: string
  mi_optional :: string
  mi_separator :: string
  mi_fs_type :: string
  mi_source :: string

section \<open>Definitions\<close>

definition isEmpty :: "string \<Rightarrow> bool" where
  "isEmpty raw \<longleftrightarrow> trim_space raw = []"

definition convertToUint :: "string \<Rightarrow> nat res" where
  "convertToUint raw =
     (case parse_uint 64 raw of
        None \<Rightarrow> Err (Combine (Fresh ''Invalid data for conversion'') (Plain ''invalid syntax''))
      | Some n \<Rightarrow> Ok n)"

definition index :: "'a list \<Rightarrow> nat \<Rightarrow> 'a res" where
  "index xs i = (if i < length xs then Ok (xs ! i) else Panic ''index out of range'')"

definition convertToMountInfo :: "string \<Rightarrow> MountInfo res" where
  "convertToMountInfo line =
     (let parts = split_on CHR '' '' line in
      if length parts < totalMountInfoFieldsNum then Panic ''index out of range''
      else
        bind_res (convertToUint (parts ! 0)) (\<lambda>mountID.
        bind_res (convertToUint (parts ! 1)) (\<lambda>parentID.
        let devParts = split_on CHR '':'' (parts ! 2) in
        bind_res (convertToUint (devParts ! 0)) (\<lambda>major.
        bind_res (bind_res (index devParts 1) convertToUint) (\<lambda>minor.
          Ok \<lparr>mi_id = mountID, mi_parent = parentID, mi_major = major, mi_minor = minor,
              mi_root = parts ! 3, mi_point = parts ! 4, mi_options = parts ! 5, mi_optional = parts ! 6,
              mi_separator = parts ! 7, mi_fs_type = parts ! 8, mi_source = parts ! 9\<rparr>)))))"

text \<open>The lines of \<open>/proc/devices\<close> after the heading of the block devices.\<close>

fun find_device :: "string \<Rightarrow> bool \<Rightarrow> string list \<Rightarrow> nat res" where
  "find_device drv blockDevs [] =
     Err (Combine (Fresh ''Invalid kernel driver'') ErrDevNotFound)"
| "find_device drv blockDevs (line # lines) =
     (if \<not> blockDevs then find_device drv (line = ''Block devices:'') lines
      else if has_suffix drv line then
        (let parts = split_on CHR '' '' line in
         if length parts \<noteq> 2 then Err (Fresh ''Invalid input from file'')
         else (case convertToUint (parts ! 0) of
             Err e \<Rightarrow> Err (Combine (Fresh ''Invalid deviceID from device info file'') e)
           | r \<Rightarrow> r))
      else find_device drv blockDevs lines)"

definition getDevID :: "('w, 'z) host_scheme \<Rightarrow> string \<Rightarrow> ('w, goerr, nat) io" where
  "getDevID c kernelDriver =
     andThen (h_read_file c deviceInfoFile) (\<lambda>content.
       lift (find_device kernelDriver False (split_on CHR 0x0A content)))"

definition getDriverMajorID :: "('w, 'z) host_scheme \<Rightarrow> GetMountsRequest \<Rightarrow> ('w, goerr, nat) io" where
  "getDriverMajorID c req = (if gm_driver req = ''nfs'' then ret nfsMajorID else getDevID c (gm_kernel req))"

definition validateRequest :: "GetMountsRequest \<Rightarrow> unit res" where
  "validateRequest req =
     (if isEmpty (gm_driver req) then Err (Fresh ''DriverName is required for scanning mounts'')
      else if gm_driver req = ''nfs'' then
        (if isEmpty (gm_fs_type req) then Err (Fresh ''Filesystem type is required for scanning NFS mounts'')
         else Ok ())
      else if isEmpty (gm_kernel req) then Err (Fresh ''Kernel driver is required for scanning mounts'')
      else Ok ())"

definition wanted :: "GetMountsRequest \<Rightarrow> nat \<Rightarrow> MountInfo \<Rightarrow> bool" where
  "wanted req major mi \<longleftrightarrow> mi_major mi = major \<and> \<not> (\<not> isEmpty (gm_fs_type req) \<and> mi_fs_type mi \<noteq> gm_fs_type req)"

fun scan_lines :: "GetMountsRequest \<Rightarrow> nat \<Rightarrow> string list \<Rightarrow> MountInfo list res" where
  "scan_lines req major [] = Ok []"
| "scan_lines req major (line # lines) =
     (if isEmpty line then scan_lines req major lines
      else if length (split_on CHR '' '' line) < totalMountInfoFieldsNum then scan_lines req major lines
      else (case convertToMountInfo line of
          Err e \<Rightarrow> scan_lines req major lines
        | Ok mi \<Rightarrow>
            if wanted req major mi then bind_res (scan_lines req major lines) (\<lambda>ms. Ok (mi # ms))
            else scan_lines req major lines
        | Panic p \<Rightarrow> Panic p
        | Hang \<Rightarrow> Hang))"

definition GetMounts :: "('w, 'z) host_scheme \<Rightarrow> GetMountsRequest \<Rightarrow> ('w, goerr, MountInfo list) io" where
  "GetMounts c req =
     attempt (lift (validateRequest req)) (\<lambda>e. fail (Combine ErrMountScan e)) (\<lambda>_.
     attempt (getDriverMajorID c req) (\<lambda>e. fail (Combine ErrMountScan e)) (\<lambda>major.
     attempt (h_read_file c mountInfoFile) (\<lambda>e. fail (Combine ErrMountScan e)) (\<lambda>content.
       lift (scan_lines req major (split_on CHR 0x0A content)))))"

section \<open>Lines the kernel writes\<close>

text \<open>
  The line of a mount: ten fields without spaces, then possibly more of them (the super options,
  which the code does not read).
\<close>

definition mount_line :: "MountInfo \<Rightarrow> string list \<Rightarrow> string" where
  "mount_line mi extra = join '' ''
     ([format_nat (mi_id mi), format_nat (mi_parent mi),
       format_nat (mi_major mi) @ '':'' @ format_nat (mi_minor mi),
       mi_root mi, mi_point mi, mi_options mi, mi_optional mi, mi_separator mi, mi_fs_type mi, mi_source mi] @ extra)"

definition no_blank :: "string \<Rightarrow> bool" where
  "no_blank s \<longleftrightarrow> CHR '' '' \<notin> set s \<and> CHR 0x0A \<notin> set s"

definition mount_fits :: "MountInfo \<Rightarrow> string list \<Rightarrow> bool" where
  "mount_fits mi extra \<longleftrightarrow>
     mi_id mi < 2 ^ 64 \<and> mi_parent mi < 2 ^ 64 \<and> mi_major mi < 2 ^ 64 \<and> mi_minor mi < 2 ^ 64 \<and>
     list_all no_blank ([mi_root mi, mi_point mi, mi_options mi, mi_optional mi, mi_separator mi,
       mi_fs_type mi, mi_source mi] @ extra)"

lemma digits_no_char: "\<not> is_digit c \<Longrightarrow> c \<notin> set (format_nat n)"
  using format_nat_digits [of n] by (auto simp: list_all_iff)

lemma format_nat_no_blank: "no_blank (format_nat n)"
  by (auto simp: no_blank_def is_digit_def intro!: digits_no_char)

lemma convertToUint_format [simp]: "n < 2 ^ 64 \<Longrightarrow> convertToUint (format_nat n) = Ok n"
  by (simp add: convertToUint_def parse_uint_format)

lemma mount_line_split:
  assumes "mount_fits mi extra"
  shows "split_on CHR '' '' (mount_line mi extra) =
    [format_nat (mi_id mi), format_nat (mi_parent mi),
     format_nat (mi_major mi) @ '':'' @ format_nat (mi_minor mi),
     mi_root mi, mi_point mi, mi_options mi, mi_optional mi, mi_separator mi, mi_fs_type mi, mi_source mi] @ extra"
  unfolding mount_line_def
  by (rule split_on_join)
    (use assms format_nat_no_blank in \<open>auto simp: mount_fits_def no_blank_def list_all_iff\<close>)

lemma mount_line_no_newline: "mount_fits mi extra \<Longrightarrow> CHR 0x0A \<notin> set (mount_line mi extra)"
proof -
  have j: "\<forall>x \<in> set xs. CHR 0x0A \<notin> set x \<Longrightarrow> CHR 0x0A \<notin> set (join '' '' xs)" for xs
    by (induction "'' ''" xs rule: join.induct) auto
  assume "mount_fits mi extra"
  then show ?thesis
    unfolding mount_line_def
    by (intro j) (use format_nat_no_blank in \<open>auto simp: mount_fits_def no_blank_def list_all_iff\<close>)
qed

lemma convert_mount_line:
  assumes "mount_fits mi extra"
  shows "convertToMountInfo (mount_line mi extra) = Ok mi"
proof -
  have dev: "split_on CHR '':'' (format_nat (mi_major mi) @ '':'' @ format_nat (mi_minor mi))
      = [format_nat (mi_major mi), format_nat (mi_minor mi)]"
    using split_on_append [of "CHR '':''" "format_nat (mi_major mi)" "format_nat (mi_minor mi)"]
    by (simp add: split_on_no_sep digits_no_char is_digit_def)
  have "mi_id mi < 2 ^ 64" "mi_parent mi < 2 ^ 64" "mi_major mi < 2 ^ 64" "mi_minor mi < 2 ^ 64"
    using assms by (simp_all add: mount_fits_def)
  then show ?thesis
    unfolding convertToMountInfo_def mount_line_split [OF assms] Let_def
    using dev by (simp add: totalMountInfoFieldsNum_def bind_res_def index_def)
qed

lemma mount_line_not_empty: "\<not> isEmpty (mount_line mi extra)"
proof -
  obtain d t where "format_nat (mi_id mi) = d # t" "is_digit d"
    using format_nat_digits [of "mi_id mi"] format_nat_not_Nil [of "mi_id mi"]
    by (cases "format_nat (mi_id mi)") auto
  then have d: "d \<in> set (mount_line mi extra)" "\<not> is_space d"
    by (auto simp: mount_line_def is_digit_def is_space_def)
  have keep: "dropWhile is_space s \<noteq> [] \<and> (\<exists>x \<in> set (dropWhile is_space s). \<not> is_space x)"
    if "\<exists>x \<in> set s. \<not> is_space x" for s
    using that by (induction s) auto
  from d have "\<exists>x \<in> set (mount_line mi extra). \<not> is_space x" by auto
  from keep [OF this] have "\<exists>x \<in> set (rev (dropWhile is_space (mount_line mi extra))). \<not> is_space x" by simp
  from keep [OF this] show ?thesis by (simp add: isEmpty_def trim_space_def)
qed

lemma scan_mount_lines:
  "list_all (\<lambda>(mi, extra). mount_fits mi extra) ms \<Longrightarrow>
   scan_lines req major (map (\<lambda>(mi, extra). mount_line mi extra) ms @ [[]]) =
     Ok (filter (wanted req major) (map fst ms))"
proof (induction ms)
  case Nil
  then show ?case by (simp add: isEmpty_def trim_space_def)
next
  case (Cons m ms)
  obtain mi extra where m: "m = (mi, extra)" by (cases m)
  with Cons.prems have fits: "mount_fits mi extra" by simp
  then show ?case
    using Cons mount_line_split [OF fits] convert_mount_line [OF fits] mount_line_not_empty [of mi extra]
    by (simp add: m totalMountInfoFieldsNum_def bind_res_def)
qed

text \<open>The contents of the file: one line for each mount, each ended by a newline.\<close>

definition mountinfo_text :: "(MountInfo \<times> string list) list \<Rightarrow> string" where
  "mountinfo_text ms = concat (map (\<lambda>(mi, extra). mount_line mi extra @ [CHR 0x0A]) ms)"

lemma mountinfo_lines:
  "list_all (\<lambda>(mi, extra). mount_fits mi extra) ms \<Longrightarrow>
   split_on CHR 0x0A (mountinfo_text ms) = map (\<lambda>(mi, extra). mount_line mi extra) ms @ [[]]"
proof (induction ms)
  case Nil
  then show ?case by (simp add: mountinfo_text_def)
next
  case (Cons m ms)
  then show ?case
    using split_on_append [of "CHR 0x0A" "case m of (mi, extra) \<Rightarrow> mount_line mi extra" "mountinfo_text ms"]
    by (auto simp: mountinfo_text_def mount_line_no_newline split: prod.splits)
qed


definition root_mount :: MountInfo where
  "root_mount = \<lparr>mi_id = 22, mi_parent = 0, mi_major = 8, mi_minor = 1, mi_root = ''/'', mi_point = ''/'',
     mi_options = ''rw'', mi_optional = ''shared:1'', mi_separator = ''-'', mi_fs_type = ''ext4'',
     mi_source = ''/dev/sda1''\<rparr>"

definition nfs_mount :: MountInfo where
  "nfs_mount = root_mount\<lparr>mi_id := 40, mi_major := 0, mi_minor := 45, mi_point := ''/mnt/p/v'',
     mi_fs_type := ''nfs4'', mi_source := ''host:/export''\<rparr>"

definition nfs_request :: GetMountsRequest where
  "nfs_request = \<lparr>gm_driver = ''nfs'', gm_fs_type = ''nfs4'', gm_kernel = []\<rparr>"

definition scan_machine :: machine where
  "scan_machine = machine_start\<lparr>mc_files := [(mountInfoFile, mountinfo_text [(root_mount, []), (nfs_mount, [''rw''])])]\<rparr>"


end
