(* ===== verification/Ceph.thy ===== *)
theory Ceph imports Mountscan "HOL-Library.AList" begin

text \<open>
  \<open>storage/backend/ceph\<close>: the ceph driver (\<open>ceph.go\<close>, \<open>internals.go\<close>, \<open>util.go\<close>). Commands run
  through \<open>h_exec\<close>, which yields the executor's result and error, either of which may be nil; the
  code dereferences the result in places where it is nil when the command could not be started,
  and these are panics of the model as well. A range over the map of mapped images meets the keys
  in the order \<open>h_order\<close> gives. The driver's state is its mount path.
\<close>

definition BackendName_ceph :: string where "BackendName_ceph = ''ceph''"

section \<open>Names and paths\<close>

definition mkpool :: "string \<Rightarrow> string \<Rightarrow> string" where
  "mkpool poolName volumeName = poolName @ ''/'' @ volumeName"

definition externalName :: "string \<Rightarrow> string" where
  "externalName s = join slash (split2 CHR ''.'' s)"

definition internalName :: "string \<Rightarrow> string res" where
  "internalName s =
     (case split2 CHR ''/'' s of
        [a, b] \<Rightarrow>
          if CHR ''.'' \<in> set a then Err (Fresh ''Invalid policy name, cannot contain a dot'')
          else if CHR ''/'' \<in> set b then Err (Fresh ''Invalid volume name, cannot contain a slash'')
          else Ok (join ''.'' [a, b])
      | _ \<Rightarrow> Err (Fresh ''Invalid volume name, must be two parts''))"

definition mkMountPath :: "string \<Rightarrow> string \<Rightarrow> string \<Rightarrow> string res" where
  "mkMountPath mountpath poolName intName =
     (let volumePath = path_join [mountpath, mkpool poolName intName]
      in (case path_rel mountpath volumePath of
            None \<Rightarrow> Err (Combine MountFailed (Fresh ''Calculated volume path would escape subdir jail''))
          | Some rel \<Rightarrow>
              if contains ''..'' rel
              then Err (Combine MountFailed (Fresh ''Calculated volume path would escape subdir jail''))
              else Ok volumePath))"

definition ceph_MountPath :: "string \<Rightarrow> DriverOptions \<Rightarrow> string res" where
  "ceph_MountPath mountpath d =
     bind_res (internalName (sv_name (d_volume d)))
       (\<lambda>volName. Ok (path_join [mountpath, param d ''pool'', volName]))"

section \<open>The template of the file system command\<close>

text \<open>
  \<open>templateFSCmd\<close>: the loop over the command while it is rewritten; the index moves on by one
  after a replacement, so the text put in is scanned as well. It need not end.
\<close>

partial_function (option) template_loop :: "string \<Rightarrow> nat \<Rightarrow> string \<Rightarrow> string option" where
  "template_loop dev idx cmd =
     (if idx < length cmd then
        (if cmd ! idx = CHR ''%'' then
           (if idx < length cmd - 1 \<and> cmd ! (idx + 1) = CHR ''%'' then template_loop dev (idx + 2) cmd
            else template_loop dev (idx + 1) (take idx cmd @ dev @ drop (idx + 1) cmd))
         else template_loop dev (idx + 1) cmd)
      else Some cmd)"

declare template_loop.simps [code]

definition templateFSCmd :: "string \<Rightarrow> string \<Rightarrow> string option" where
  "templateFSCmd fscmd devicePath = template_loop devicePath 0 fscmd"

section \<open>Commands\<close>

definition exec_cmd ::
  "('w, 'z) host_scheme \<Rightarrow> string list \<Rightarrow> int option \<Rightarrow> ('w, goerr, exec_result option \<times> goerr option) io" where
  "exec_cmd c args timeout w = (let (r, w') = h_exec c args timeout w in (Ok r, w'))"

definition nil_deref :: string where "nil_deref = ''nil pointer dereference''"

text \<open>A use of \<open>er\<close>: a panic when it is nil.\<close>

definition with_er :: "exec_result option \<Rightarrow> (exec_result \<Rightarrow> ('w, 'e, 'a) io) \<Rightarrow> ('w, 'e, 'a) io" where
  "with_er er k = (case er of None \<Rightarrow> panic nil_deref | Some r \<Rightarrow> k r)"

text \<open>\<open>err != nil || er.ExitStatus != 0\<close>, with the branches taken; both use \<open>er\<close>.\<close>

definition failed_or ::
  "exec_result option \<times> goerr option \<Rightarrow> (exec_result \<Rightarrow> ('w, 'e, 'a) io) \<Rightarrow> (exec_result \<Rightarrow> ('w, 'e, 'a) io) \<Rightarrow>
    ('w, 'e, 'a) io" where
  "failed_or p bad good =
     with_er (fst p) (\<lambda>r. if snd p \<noteq> None \<or> er_status r \<noteq> 0 then bad r else good r)"

record rbd_image =
  rbd_pool :: string
  rbd_name :: string
  rbd_device :: string

definition zero_rbd :: rbd_image where
  "zero_rbd = \<lparr>rbd_pool = [], rbd_name = [], rbd_device = []\<rparr>"

definition rbd_fields :: "(string \<times> rbd_image field_dec) list" where
  "rbd_fields =
     [(''pool'', \<lambda>j r. map_option (\<lambda>x. r\<lparr>rbd_pool := x\<rparr>) (get_string j (rbd_pool r))),
      (''name'', \<lambda>j r. map_option (\<lambda>x. r\<lparr>rbd_name := x\<rparr>) (get_string j (rbd_name r))),
      (''device'', \<lambda>j r. map_option (\<lambda>x. r\<lparr>rbd_device := x\<rparr>) (get_string j (rbd_device r)))]"

type_synonym rbdMap = "(string \<times> rbd_image) list"

fun decode_rbds :: "(string \<times> json) list \<Rightarrow> rbdMap \<Rightarrow> rbdMap option" where
  "decode_rbds [] acc = Some acc"
| "decode_rbds ((k, j) # ms) acc =
     (case fill rbd_fields j zero_rbd of
        None \<Rightarrow> None
      | Some r \<Rightarrow> decode_rbds ms (AList.update k r acc))"

fun decode_rbdmap :: "json \<Rightarrow> rbdMap option" where
  "decode_rbdmap JNull = Some []"
| "decode_rbdmap (JObj ms) = decode_rbds ms []"
| "decode_rbdmap _ = None"

text \<open>The images in the order a range meets them.\<close>

definition ranged :: "('w, 'z) host_scheme \<Rightarrow> rbdMap \<Rightarrow> rbd_image list" where
  "ranged c m = List.map_filter (map_of m) (h_order c (map fst m))"

text \<open>\<open>showMapped\<close> retries until the command answers with JSON.\<close>

fun showMapped_loop :: "nat \<Rightarrow> ('w, 'z) host_scheme \<Rightarrow> int \<Rightarrow> ('w, goerr, rbdMap) io" where
  "showMapped_loop 0 c timeout = hang"
| "showMapped_loop (Suc n) c timeout =
     andThen (exec_cmd c [''rbd'', ''showmapped'', ''--format'', ''json''] (Some timeout)) (\<lambda>p.
       with_er (fst p) (\<lambda>r.
         if snd p \<noteq> None \<or> er_status r \<noteq> 0 \<or> er_stdout r = []
         then andThen (modify (h_sleep c (100 * millisecond))) (\<lambda>_. showMapped_loop n c timeout)
         else (case Option.bind (parse (er_stdout r)) decode_rbdmap of
             None \<Rightarrow> andThen (modify (h_sleep c (100 * millisecond))) (\<lambda>_. showMapped_loop n c timeout)
           | Some m \<Rightarrow> ret m)))"

definition showMapped :: "('w, 'z) host_scheme \<Rightarrow> int \<Rightarrow> ('w, goerr, rbdMap) io" where
  "showMapped c timeout = showMapped_loop (h_fuel c) c timeout"

definition getMapped :: "('w, 'z) host_scheme \<Rightarrow> int \<Rightarrow> ('w, goerr, Mount list) io" where
  "getMapped c timeout =
     andThen (showMapped c timeout) (\<lambda>m. ret (map (\<lambda>rbd.
       \<lparr>mt_device = rbd_device rbd, mt_path = [], mt_major = 0, mt_minor = 0,
        mt_volume = \<lparr>sv_name = externalName (rbd_name rbd), sv_size = 0,
          sv_params = Some [(''pool'', rbd_pool rbd)]\<rparr>\<rparr>) (ranged c m)))"

text \<open>\<open>rbd map\<close> is retried at most ten times while it yields an error.\<close>

fun map_retry ::
  "nat \<Rightarrow> ('w, 'z) host_scheme \<Rightarrow> string list \<Rightarrow> int \<Rightarrow> ('w, goerr, exec_result option \<times> goerr option) io" where
  "map_retry 0 c args timeout = exec_cmd c args (Some timeout)"
| "map_retry (Suc n) c args timeout =
     andThen (exec_cmd c args (Some timeout)) (\<lambda>p. if snd p \<noteq> None then map_retry n c args timeout else ret p)"

definition same_image :: "string \<Rightarrow> string \<Rightarrow> rbd_image \<Rightarrow> bool" where
  "same_image intName pool r \<longleftrightarrow> rbd_name r = intName \<and> rbd_pool r = pool"

definition mapImage :: "('w, 'z) host_scheme \<Rightarrow> DriverOptions \<Rightarrow> ('w, goerr, string) io" where
  "mapImage c d =
     andThen (lift (internalName (sv_name (d_volume d)))) (\<lambda>intName.
     andThen (map_retry 10 c [''rbd'', ''map'', intName, ''--pool'', param d ''pool''] (d_timeout d)) (\<lambda>p.
     failed_or p (\<lambda>r. fail (Fresh ''Could not map'')) (\<lambda>r.
     andThen (showMapped c (d_timeout d)) (\<lambda>m.
       let device = (case find (same_image intName (param d ''pool'')) (ranged c m) of None \<Rightarrow> [] | Some i \<Rightarrow> rbd_device i)
       in if device = [] then fail (Fresh ''Volume not found in RBD showmapped output'') else ret device))))"

definition mkfsVolume :: "('w, 'z) host_scheme \<Rightarrow> string \<Rightarrow> string \<Rightarrow> int \<Rightarrow> ('w, goerr, unit) io" where
  "mkfsVolume c fscmd devicePath timeout =
     (case templateFSCmd fscmd devicePath of
        None \<Rightarrow> hang
      | Some cmd \<Rightarrow>
          andThen (exec_cmd c [''/bin/sh'', ''-c'', cmd] (Some timeout)) (\<lambda>p.
            failed_or p (\<lambda>r. fail (Fresh ''Error creating filesystem'')) (\<lambda>r. ret ())))"

text \<open>\<open>doUnmap\<close> over the images in the order of the range; the result tells to retry.\<close>

fun doUnmap_range ::
  "('w, 'z) host_scheme \<Rightarrow> string \<Rightarrow> string \<Rightarrow> int \<Rightarrow> rbd_image list \<Rightarrow> ('w, goerr, bool) io" where
  "doUnmap_range c intName pool timeout [] = ret False"
| "doUnmap_range c intName pool timeout (rbd # rest) =
     (if same_image intName pool rbd then
        attempt (h_stat c (rbd_device rbd))
          (\<lambda>_. doUnmap_range c intName pool timeout rest)
          (\<lambda>_. andThen (exec_cmd c [''rbd'', ''unmap'', rbd_device rbd] (Some timeout)) (\<lambda>p.
             failed_or p
               (\<lambda>r. if er_status r = 16 then
                      andThen (modify (h_sleep c (100 * millisecond))) (\<lambda>_. ret True)
                    else (case snd p of None \<Rightarrow> ret False | Some e \<Rightarrow> fail e))
               (\<lambda>r. andThen (showMapped c timeout) (\<lambda>m2.
                      ret (list_ex (\<lambda>r2. rbd_name rbd = rbd_name r2 \<and> rbd_pool rbd = rbd_pool r2) (ranged c m2))))))
      else doUnmap_range c intName pool timeout rest)"

definition doUnmap :: "('w, 'z) host_scheme \<Rightarrow> DriverOptions \<Rightarrow> rbdMap \<Rightarrow> ('w, goerr, bool) io" where
  "doUnmap c d m =
     andThen (lift (internalName (sv_name (d_volume d)))) (\<lambda>intName.
       doUnmap_range c intName (param d ''pool'') (d_timeout d) (ranged c m))"

fun unmap_loop :: "nat \<Rightarrow> ('w, 'z) host_scheme \<Rightarrow> DriverOptions \<Rightarrow> rbdMap \<Rightarrow> ('w, goerr, unit) io" where
  "unmap_loop 0 c d m = fail (Fresh ''Could not unmap volume after 10 retries'')"
| "unmap_loop (Suc n) c d m =
     andThen (doUnmap c d m) (\<lambda>retry. if retry then unmap_loop n c d m else ret ())"

definition unmapImage :: "('w, 'z) host_scheme \<Rightarrow> DriverOptions \<Rightarrow> ('w, goerr, unit) io" where
  "unmapImage c d = andThen (showMapped c (d_timeout d)) (unmap_loop 10 c d)"

section \<open>The CRUD driver\<close>

definition ceph_Create :: "('w, 'z) host_scheme \<Rightarrow> DriverOptions \<Rightarrow> ('w, goerr, unit) io" where
  "ceph_Create c d =
     andThen (lift (internalName (sv_name (d_volume d)))) (\<lambda>intName.
     andThen (exec_cmd c [''rbd'', ''create'', mkpool (param d ''pool'') intName, ''--size'', format_nat (sv_size (d_volume d))]
                (Some (d_timeout d))) (\<lambda>p.
       (case p of
          (Some r, _) \<Rightarrow>
            if er_status r = 17 then fail ErrVolumeExist
            else if er_status r \<noteq> 0 then fail (Fresh ''Creating disk'')
            else ret ()
        | (None, Some _) \<Rightarrow> fail (Fresh ''Creating Disk'')
        | (None, None) \<Rightarrow> ret ())))"

definition ceph_Format :: "('w, 'z) host_scheme \<Rightarrow> DriverOptions \<Rightarrow> ('w, goerr, unit) io" where
  "ceph_Format c d =
     andThen (mapImage c d) (\<lambda>device.
       attempt (mkfsVolume c (fs_create_command (d_fs d)) device (d_timeout d))
         (\<lambda>err. regardless (unmapImage c d) (fail err))
         (\<lambda>_. unmapImage c d))"

definition ceph_Destroy :: "('w, 'z) host_scheme \<Rightarrow> DriverOptions \<Rightarrow> ('w, goerr, unit) io" where
  "ceph_Destroy c d =
     andThen (lift (internalName (sv_name (d_volume d)))) (\<lambda>intName.
     andThen (exec_cmd c [''rbd'', ''snap'', ''purge'', mkpool (param d ''pool'') intName] (Some (d_timeout d))) (\<lambda>p.
     with_er (fst p) (\<lambda>r.
       if er_status r \<noteq> 0 then fail (Fresh ''Destroying snapshots for disk'')
       else
         andThen (exec_cmd c [''rbd'', ''rm'', mkpool (param d ''pool'') intName] (Some (d_timeout d))) (\<lambda>p2.
         with_er (fst p2) (\<lambda>r2.
           if er_status r2 \<noteq> 0 then fail (Fresh ''Destroying disk'') else ret ())))))"

fun decode_strings :: "json list \<Rightarrow> string list option" where
  "decode_strings [] = Some []"
| "decode_strings (JStr s # js) = map_option (Cons s) (decode_strings js)"
| "decode_strings (JNull # js) = map_option (Cons []) (decode_strings js)"
| "decode_strings (_ # js) = None"

fun decode_string_list :: "json \<Rightarrow> string list option" where
  "decode_string_list JNull = Some []"
| "decode_string_list (JArr js) = decode_strings js"
| "decode_string_list _ = None"

fun ceph_List_loop :: "nat \<Rightarrow> ('w, 'z) host_scheme \<Rightarrow> string \<Rightarrow> ('w, goerr, StorageVolume list) io" where
  "ceph_List_loop 0 c poolName = hang"
| "ceph_List_loop (Suc n) c poolName =
     andThen (exec_cmd c [''rbd'', ''ls'', poolName, ''--format'', ''json''] None) (\<lambda>p.
       (case snd p of
          Some e \<Rightarrow> fail e
        | None \<Rightarrow>
            with_er (fst p) (\<lambda>r.
              if er_status r \<noteq> 0 then fail (Fresh ''Listing pool'')
              else (case Option.bind (parse (er_stdout r)) decode_string_list of
                  None \<Rightarrow> andThen (modify (h_sleep c (100 * millisecond))) (\<lambda>_. ceph_List_loop n c poolName)
                | Some names \<Rightarrow> ret (map (\<lambda>name.
                    \<lparr>sv_name = externalName (trim_space name), sv_size = 0,
                     sv_params = Some [(''pool'', poolName)]\<rparr>) names)))))"

definition ceph_List :: "('w, 'z) host_scheme \<Rightarrow> smap option \<Rightarrow> ('w, goerr, StorageVolume list) io" where
  "ceph_List c params = ceph_List_loop (h_fuel c) c (lookup_opt params ''pool'')"

definition ceph_Exists :: "('w, 'z) host_scheme \<Rightarrow> DriverOptions \<Rightarrow> ('w, goerr, bool) io" where
  "ceph_Exists c d =
     andThen (ceph_List c (sv_params (d_volume d))) (\<lambda>vs.
       ret (list_ex (\<lambda>v. sv_name v = sv_name (d_volume d)) vs))"

section \<open>The mount driver\<close>

definition mkdir_ok :: "('w, 'z) host_scheme \<Rightarrow> string \<Rightarrow> nat \<Rightarrow> goerr \<Rightarrow> ('w, goerr, unit) io" where
  "mkdir_ok c path mode failure =
     attempt (h_mkdir c path mode) (\<lambda>e. if e \<noteq> EEXIST then fail failure else ret ()) ret"

definition ceph_Mount :: "('w, 'z) host_scheme \<Rightarrow> string \<Rightarrow> DriverOptions \<Rightarrow> ('w, goerr, Mount) io" where
  "ceph_Mount c mountpath d =
     andThen (lift (internalName (sv_name (d_volume d)))) (\<lambda>intName.
     andThen (lift (mkMountPath mountpath (param d ''pool'') intName)) (\<lambda>volumePath.
     andThen (mapImage c d) (\<lambda>devName.
     andThen (mkdir_ok c mountpath 448 (Fresh ''error creating directory'')) (\<lambda>_.
     andThen (mkdir_ok c volumePath 448 (Fresh ''error creating directory'')) (\<lambda>_.
     attempt (h_stat c devName) (\<lambda>e. fail (Fresh ''Failed to stat rbd device'')) (\<lambda>rdev.
     attempt (h_mount c devName volumePath (fs_type (d_fs d)) [])
       (\<lambda>e. fail (Fresh ''Failed to mount RBD dev''))
       (\<lambda>_. ret \<lparr>mt_device = devName, mt_path = volumePath, mt_major = rdev div 256, mt_minor = rdev mod 256,
               mt_volume = d_volume d\<rparr>)))))))"

text \<open>
  The retry loop of \<open>Unmount\<close>: three failed unmounts end it, a directory that cannot be removed
  starts it again without counting.
\<close>

fun unmount_loop :: "nat \<Rightarrow> ('w, 'z) host_scheme \<Rightarrow> string \<Rightarrow> nat \<Rightarrow> ('w, goerr, unit) io" where
  "unmount_loop 0 c dir retries = hang"
| "unmount_loop (Suc n) c dir retries =
     (let remove = attempt (h_remove c dir)
            (\<lambda>e. if e \<noteq> ENOENT then unmount_loop n c dir retries else ret ()) ret
      in if retries < 3 then
           attempt (h_unmount c dir)
             (\<lambda>e. if e \<noteq> ENOENT \<and> e \<noteq> EINVAL
                  then andThen (modify (h_sleep c (100 * millisecond))) (\<lambda>_. unmount_loop n c dir (retries + 1))
                  else remove)
             (\<lambda>_. remove)
         else fail (Combine (Fresh ''Failed to umount after 3 retries'') (Fresh ''Failed to unmount (retrying)'')))"

definition os_ErrNotExist :: goerr where "os_ErrNotExist = Plain ''file does not exist''"

definition ceph_Unmount :: "('w, 'z) host_scheme \<Rightarrow> string \<Rightarrow> DriverOptions \<Rightarrow> ('w, goerr, unit) io" where
  "ceph_Unmount c mountpath d =
     andThen (lift (internalName (sv_name (d_volume d)))) (\<lambda>intName.
     andThen (lift (mkMountPath mountpath (param d ''pool'') intName)) (\<lambda>volumeDir.
     andThen (unmount_loop (h_fuel c) c volumeDir 0) (\<lambda>_.
     attempt (unmapImage c d) (\<lambda>e. if e \<noteq> os_ErrNotExist then fail e else ret ()) ret)))"

text \<open>\<open>Mounted\<close>: every mount of the host joined with the first mapped image on its device.\<close>

definition mount_of :: "MountInfo \<Rightarrow> Mount \<Rightarrow> Mount" where
  "mount_of hm mm = \<lparr>mt_device = mi_source hm, mt_path = mi_point hm, mt_major = mi_major hm,
     mt_minor = mi_minor hm, mt_volume = mt_volume mm\<rparr>"

definition join_mounts :: "MountInfo list \<Rightarrow> Mount list \<Rightarrow> Mount list" where
  "join_mounts hostMounts mapped =
     List.map_filter (\<lambda>hm. map_option (mount_of hm) (find (\<lambda>mm. mi_source hm = mt_device mm) mapped)) hostMounts"

definition ceph_Mounted :: "('w, 'z) host_scheme \<Rightarrow> int \<Rightarrow> ('w, goerr, Mount list) io" where
  "ceph_Mounted c timeout =
     attempt (GetMounts c \<lparr>gm_driver = ''ceph'', gm_fs_type = [], gm_kernel = ''rbd''\<rparr>)
       (\<lambda>e. if is_errored e \<and> Contains e ErrDevNotFound then ret [] else fail e)
       (\<lambda>hostMounts. andThen (getMapped c timeout) (\<lambda>mapped. ret (join_mounts hostMounts mapped)))"

definition ceph_Validate :: "DriverOptions \<Rightarrow> unit res" where
  "ceph_Validate d =
     bind_res (DriverOptions_Validate d) (\<lambda>_.
       if param d ''pool'' = [] then Err (Fresh ''Pool is missing in ceph storage driver.'') else Ok ())"

section \<open>The snapshot driver\<close>

definition snap_cmd :: "('w, 'z) host_scheme \<Rightarrow> string list \<Rightarrow> int \<Rightarrow> goerr \<Rightarrow> ('w, goerr, exec_result) io" where
  "snap_cmd c args timeout failure =
     andThen (exec_cmd c args (Some timeout)) (\<lambda>p.
       (case snd p of
          Some e \<Rightarrow> fail e
        | None \<Rightarrow> with_er (fst p) (\<lambda>r. if er_status r \<noteq> 0 then fail failure else ret r)))"

definition ceph_CreateSnapshot :: "('w, 'z) host_scheme \<Rightarrow> string \<Rightarrow> DriverOptions \<Rightarrow> ('w, goerr, unit) io" where
  "ceph_CreateSnapshot c snapName d =
     andThen (lift (internalName (sv_name (d_volume d)))) (\<lambda>intName.
     andThen (snap_cmd c [''rbd'', ''snap'', ''create'', mkpool (param d ''pool'') intName, ''--snap'',
         replace_char CHR '' '' CHR ''-'' snapName] (d_timeout d) (Fresh ''Creating snapshot'')) (\<lambda>_. ret ()))"

definition ceph_RemoveSnapshot :: "('w, 'z) host_scheme \<Rightarrow> string \<Rightarrow> DriverOptions \<Rightarrow> ('w, goerr, unit) io" where
  "ceph_RemoveSnapshot c snapName d =
     andThen (lift (internalName (sv_name (d_volume d)))) (\<lambda>intName.
     andThen (snap_cmd c [''rbd'', ''snap'', ''rm'', mkpool (param d ''pool'') intName, ''--snap'', snapName]
         (d_timeout d) (Fresh ''Removing snapshot'')) (\<lambda>_. ret ()))"

text \<open>\<open>spaceSplitRegex.Split(line, -1)\<close> for the expression \<open>\s+\<close>\<close>

definition re_space :: "char \<Rightarrow> bool" where
  "re_space ch \<longleftrightarrow> ch \<in> {CHR '' '', CHR 0x09, CHR 0x0A, CHR 0x0C, CHR 0x0D}"

function split_space :: "string \<Rightarrow> string list" where
  "split_space s =
     (let a = takeWhile (\<lambda>x. \<not> re_space x) s; r = dropWhile (\<lambda>x. \<not> re_space x) s
      in if r = [] then [a] else a # split_space (dropWhile re_space r))"
  by pat_completeness auto
termination
proof (relation "measure length")
  fix s a r :: string
  assume r: "r = dropWhile (\<lambda>x. \<not> re_space x) s" "r \<noteq> []"
  then have "re_space (hd r)" using hd_dropWhile [of "\<lambda>x. \<not> re_space x" s] by simp
  then have "length (dropWhile re_space r) < length r"
    using r(2) by (cases r) (auto simp: le_imp_less_Suc length_dropWhile_le)
  also have "length r \<le> length s" using r(1) by (simp add: length_dropWhile_le)
  finally show "(dropWhile re_space r, s) \<in> measure length" by simp
qed simp

declare split_space.simps [simp del]

definition snapshot_names :: "string \<Rightarrow> string list" where
  "snapshot_names out =
     List.map_filter (\<lambda>line. let parts = split_space line in if length parts < 3 then None else Some (parts ! 2))
       (tl (split_on CHR 0x0A out))"

definition ceph_ListSnapshots :: "('w, 'z) host_scheme \<Rightarrow> DriverOptions \<Rightarrow> ('w, goerr, string list) io" where
  "ceph_ListSnapshots c d =
     andThen (lift (internalName (sv_name (d_volume d)))) (\<lambda>intName.
     andThen (snap_cmd c [''rbd'', ''snap'', ''ls'', mkpool (param d ''pool'') intName] (d_timeout d)
         (Fresh ''Listing snapshots'')) (\<lambda>r. ret (snapshot_names (er_stdout r))))"

text \<open>\<open>cleanupCopy\<close> with what it finds in the error channel.\<close>

definition cleanupCopy ::
  "('w, 'z) host_scheme \<Rightarrow> string \<Rightarrow> string \<Rightarrow> DriverOptions \<Rightarrow> goerr option \<Rightarrow> ('w, goerr, unit) io" where
  "cleanupCopy c snapName newName d errChan =
     (case (internalName (sv_name (d_volume d)), internalName newName) of
        (Ok intOrig, Ok intNew) \<Rightarrow>
          (case errChan of
             None \<Rightarrow> ret ()
           | Some err \<Rightarrow>
               let unprotect =
                 (if is_errored err \<and> Contains err SnapshotProtect then
                    andThen (exec_cmd c [''rbd'', ''snap'', ''unprotect'', mkpool (param d ''pool'') intOrig, ''--snap'', snapName]
                        (Some (d_timeout d))) (\<lambda>p. failed_or p (\<lambda>r. ret ()) (\<lambda>r. ret ()))
                  else ret ())
               in if is_errored err \<and> Contains err SnapshotCopy then
                    andThen (exec_cmd c [''rbd'', ''rm'', mkpool (param d ''pool'') intNew] (Some (d_timeout d))) (\<lambda>p.
                      failed_or p (\<lambda>r. ret ()) (\<lambda>r. unprotect))
                  else unprotect)
      | _ \<Rightarrow> ret ())"

text \<open>
  \<open>clone\<close>, with the error it puts in the channel for the deferred cleanup; the function's own error
  is the outcome.
\<close>

definition clone_snapshot ::
  "('w, 'z) host_scheme \<Rightarrow> string list \<Rightarrow> int \<Rightarrow> ('w, goerr, goerr option \<times> goerr option) io" where
  "clone_snapshot c args timeout =
     andThen (exec_cmd c args (Some timeout)) (\<lambda>p.
       with_er (fst p) (\<lambda>r.
         (case snd p of
            Some err \<Rightarrow>
              if er_status r = 0 then
                (let err2 = (if is_errored err then err else Fresh (error_text err))
                 in ret (Some err2, Some (Combine err2 SnapshotCopy)))
              else
                (let newerr = Combine (Combine (Fresh ''Cloning snapshot to volume'') SnapshotCopy) SnapshotProtect
                 in ret (Some err, if er_status r \<noteq> 17 then Some newerr else None))
          | None \<Rightarrow>
              if er_status r \<noteq> 0 then
                (let newerr = Combine (Combine (Fresh ''Cloning snapshot to volume'') SnapshotCopy) SnapshotProtect
                 in ret (None, if er_status r \<noteq> 17 then Some newerr else None))
              else ret (None, None))))"

definition ceph_CopySnapshot ::
  "('w, 'z) host_scheme \<Rightarrow> DriverOptions \<Rightarrow> string \<Rightarrow> string \<Rightarrow> ('w, goerr, unit) io" where
  "ceph_CopySnapshot c d snapName newName =
     andThen (lift (internalName (sv_name (d_volume d)))) (\<lambda>intOrig.
     andThen (lift (internalName newName)) (\<lambda>intNew.
     andThen (attempt (ceph_List c (Some [(''pool'', param d ''pool'')])) (\<lambda>_. ret []) ret) (\<lambda>vols.
       if list_ex (\<lambda>v. intNew = sv_name v) vols then fail (Fresh ''Volume already exists'')
       else
         andThen (exec_cmd c [''rbd'', ''snap'', ''protect'', mkpool (param d ''pool'') intOrig, ''--snap'', snapName]
             (Some (d_timeout d))) (\<lambda>p.
           let go = andThen (clone_snapshot c [''rbd'', ''clone'', mkpool (param d ''pool'') intOrig,
                        mkpool (param d ''pool'') intNew, ''--snap'', snapName] (d_timeout d)) (\<lambda>(ret_err, chan).
                      andThen (cleanupCopy c snapName newName d chan) (\<lambda>_.
                        (case ret_err of None \<Rightarrow> ret () | Some e \<Rightarrow> fail e)))
           in (case snd p of
                 None \<Rightarrow> go
               | Some err \<Rightarrow>
                   with_er (fst p) (\<lambda>r.
                     if er_status r \<noteq> 0 \<and> er_status r \<noteq> 16 then
                       fail (if er_status r = 17 then Combine (Combine (Fresh ''Volume or snapshot name already exists'') Exists) SnapshotProtect
                             else err)
                     else go))))))"

section \<open>Lemmas\<close>

text \<open>What the template stands for: a single percent sign is the device, a double one is kept.\<close>

function subst_device :: "string \<Rightarrow> string \<Rightarrow> string" where
  "subst_device dev [] = []"
| "subst_device dev (ch # cs) =
     (if ch = CHR ''%'' then
        (if cs \<noteq> [] \<and> hd cs = CHR ''%'' then CHR ''%'' # CHR ''%'' # subst_device dev (tl cs)
         else dev @ subst_device dev cs)
      else ch # subst_device dev cs)"
  by pat_completeness auto
termination by (relation "measure (length o snd)") auto

lemma template_end: "template_loop dev (length pre) pre = Some pre"
  by (subst template_loop.simps) simp

lemma template_other:
  assumes "ch \<noteq> CHR ''%''"
  shows "template_loop dev (length pre) (pre @ ch # cs) = template_loop dev (length (pre @ [ch])) ((pre @ [ch]) @ cs)"
  using assms by (subst template_loop.simps) simp

lemma template_double:
  "template_loop dev (length pre) (pre @ CHR ''%'' # CHR ''%'' # cs) =
   template_loop dev (length (pre @ ''%%'')) ((pre @ ''%%'') @ cs)"
  by (subst template_loop.simps) (simp add: nth_append)

lemma template_single:
  assumes "cs = [] \<or> hd cs \<noteq> CHR ''%''"
  shows "template_loop dev (length pre) (pre @ CHR ''%'' # cs) = template_loop dev (length pre + 1) (pre @ dev @ cs)"
  using assms by (subst template_loop.simps) (cases cs; simp add: nth_append)

lemma template_skip:
  "CHR ''%'' \<notin> set a \<Longrightarrow>
   template_loop dev (length pre) (pre @ a @ cs) = template_loop dev (length (pre @ a)) ((pre @ a) @ cs)"
proof (induction a arbitrary: pre)
  case Nil
  then show ?case by simp
next
  case (Cons x a)
  then have "template_loop dev (length pre) (pre @ x # a @ cs) = template_loop dev (length (pre @ [x])) ((pre @ [x]) @ a @ cs)"
    by (intro template_other) auto
  with Cons.IH [of "pre @ [x]"] Cons.prems show ?case by simp
qed

lemma template_subst:
  assumes "CHR ''%'' \<notin> set dev"
  shows "template_loop dev (length pre) (pre @ cmd) = Some (pre @ subst_device dev cmd)"
proof (induction cmd arbitrary: pre rule: length_induct)
  case (1 cmd)
  show ?case
  proof (cases cmd)
    case Nil
    then show ?thesis by (simp add: template_end)
  next
    case (Cons ch cs)
    consider (other) "ch \<noteq> CHR ''%''" | (double) "ch = CHR ''%''" "cs \<noteq> []" "hd cs = CHR ''%''"
      | (single) "ch = CHR ''%''" "cs = [] \<or> hd cs \<noteq> CHR ''%''" by blast
    then show ?thesis
    proof cases
      case other
      then show ?thesis using "1.IH" [rule_format, of cs "pre @ [ch]"] Cons
        by (simp add: template_other del: append_assoc)
    next
      case double
      then obtain ds where "cs = CHR ''%'' # ds" by (cases cs) auto
      then show ?thesis using "1.IH" [rule_format, of ds "pre @ ''%%''"] Cons double
        by (simp add: template_double del: append_assoc)
    next
      case single
      have sub: "subst_device dev cmd = dev @ subst_device dev cs" using single Cons by auto
      have step: "template_loop dev (length pre) (pre @ cmd) = template_loop dev (length pre + 1) (pre @ dev @ cs)"
        using template_single [OF single(2)] single(1) Cons by simp
      show ?thesis
      proof (cases dev)
        case Nil
        show ?thesis
        proof (cases cs)
          case Nil
          then show ?thesis unfolding step sub using \<open>dev = []\<close> by (subst template_loop.simps) simp
        next
          case (Cons y ys)
          then have "y \<noteq> CHR ''%''" using single by simp
          then show ?thesis unfolding step sub
            using \<open>dev = []\<close> \<open>cs = y # ys\<close> \<open>cmd = ch # cs\<close> "1.IH" [rule_format, of ys "pre @ [y]"] by simp
        qed
      next
        case (Cons x dev')
        have skip: "template_loop dev (length (pre @ [x])) ((pre @ [x]) @ dev' @ cs)
            = template_loop dev (length ((pre @ [x]) @ dev')) (((pre @ [x]) @ dev') @ cs)"
          by (rule template_skip) (use assms Cons in simp)
        have rest: "template_loop dev (length ((pre @ [x]) @ dev')) (((pre @ [x]) @ dev') @ cs)
            = Some (((pre @ [x]) @ dev') @ subst_device dev cs)"
          by (rule "1.IH" [rule_format]) (use \<open>cmd = ch # cs\<close> in simp)
        show ?thesis using skip [unfolded rest] unfolding step sub by (simp add: Cons)
      qed
    qed
  qed
qed

lemma internal_external:
  assumes "internalName s = Ok i"
  shows "externalName i = s"
proof -
  obtain a b where sp: "split2 CHR ''/'' s = [a, b]" and na: "CHR ''.'' \<notin> set a" and i: "i = a @ ''.'' @ b"
    using assms by (auto simp: internalName_def split: list.splits if_splits)
  have "s = a @ CHR ''/'' # b" using split2_pairE(1) [OF sp] .
  then show ?thesis using split2_append [OF na] by (simp add: externalName_def i)
qed

lemma internal_inj: "internalName s = Ok i \<Longrightarrow> internalName t = Ok i \<Longrightarrow> s = t"
  using internal_external by metis

lemma drop_common_prefix:
  "drop_common bs ts = (bs', ts') \<Longrightarrow> \<exists>p. bs = p @ bs' \<and> ts = p @ ts'"
proof (induction bs ts rule: drop_common.induct)
  case (1 b bs t ts)
  then show ?case
  proof (cases "b = t")
    case True
    with 1 obtain p where "bs = p @ bs' \<and> ts = p @ ts'" by auto
    then show ?thesis using True by (intro exI [of _ "b # p"]) simp
  qed auto
qed auto

lemma contains_append: "contains sub s \<Longrightarrow> contains sub (s @ t)"
proof (induction sub s rule: contains.induct)
  case (1 sub)
  then show ?case by (cases t) (auto simp: has_prefix_def)
next
  case (2 sub x xs)
  have "has_prefix sub (x # xs @ t)" if "has_prefix sub (x # xs)"
    using that unfolding has_prefix_def
    by (metis append_Cons append_take_drop_id append_eq_conv_conj append_assoc)
  with 2 show ?case by auto
qed

lemma rel_jail:
  assumes "path_rel base targ = Some rel" "\<not> contains ''..'' rel"
  shows "\<exists>ts. path_segs targ = path_segs base @ ts" "rooted base = rooted targ"
proof -
  obtain bs ts where d: "drop_common (path_segs base) (path_segs targ) = (bs, ts)" by force
  obtain p where p: "path_segs base = p @ bs" "path_segs targ = p @ ts"
    using drop_common_prefix [OF d] by blast
  have "bs = []"
  proof (rule ccontr)
    assume ne: "bs \<noteq> []"
    then obtain n where n: "length bs = Suc n" by (cases bs) auto
    have "rel = join slash (replicate (length bs) ''..'' @ ts)"
      using assms(1) d ne by (auto simp: path_rel_def split: if_splits list.splits)
    also have "\<dots> = ''..'' @ (if replicate n ''..'' @ ts = [] then [] else slash @ join slash (replicate n ''..'' @ ts))"
      unfolding n by (cases "replicate n ''..'' @ ts") auto
    finally have "contains ''..'' rel" by (simp add: has_prefix_def)
    with assms(2) show False by simp
  qed
  with p show "\<exists>ts. path_segs targ = path_segs base @ ts" by auto
  show "rooted base = rooted targ" using assms(1) by (auto simp: path_rel_def split: if_splits)
qed

subsection \<open>The output of \<open>rbd snap ls\<close>\<close>

text \<open>
  A row: padding, the snapshot's number, its name, its size, and the rest of the line. The command
  aligns the numbers to the right below a heading of six letters.
\<close>

record snap_row =
  sr_pad :: nat
  sr_id :: nat
  sr_name :: string
  sr_size :: string
  sr_rest :: string

definition row_text :: "snap_row \<Rightarrow> string" where
  "row_text r = replicate (sr_pad r) CHR '' '' @ format_nat (sr_id r) @ '' '' @ sr_name r @ '' '' @ sr_size r @ '' '' @ sr_rest r"

definition word_ok :: "string \<Rightarrow> bool" where
  "word_ok s \<longleftrightarrow> s \<noteq> [] \<and> (\<forall>x \<in> set s. \<not> re_space x)"

definition row_ok :: "snap_row \<Rightarrow> bool" where
  "row_ok r \<longleftrightarrow> word_ok (sr_name r) \<and> word_ok (sr_size r) \<and> CHR 0x0A \<notin> set (sr_rest r)"

definition snap_ls_text :: "string \<Rightarrow> snap_row list \<Rightarrow> string" where
  "snap_ls_text heading rows = concat (map (\<lambda>l. l @ [CHR 0x0A]) (heading # map row_text rows))"

lemma split_space_word:
  assumes "\<forall>x \<in> set a. \<not> re_space x" "re_space y"
  shows "split_space (a @ y # s) = a # split_space (dropWhile re_space s)"
proof -
  have t: "takeWhile (\<lambda>x. \<not> re_space x) (a @ y # s) = a" using assms by (induction a) auto
  have d: "dropWhile (\<lambda>x. \<not> re_space x) (a @ y # s) = y # s" using assms by (induction a) auto
  show ?thesis by (subst split_space.simps) (simp add: t d assms(2))
qed

lemma word_start: "word_ok a \<Longrightarrow> dropWhile re_space (a @ s) = a @ s"
  by (cases a) (auto simp: word_ok_def)

lemma blank_re: "re_space CHR '' ''" by (simp add: re_space_def)

lemma digits_word: "word_ok (format_nat n)"
proof -
  have "\<not> re_space x" if "x \<in> set (format_nat n)" for x
    using that format_nat_digits [of n] by (auto simp: list_all_iff re_space_def is_digit_def)
  then show ?thesis by (simp add: word_ok_def)
qed

lemma split_row_tail:
  assumes "row_ok r"
  shows "\<exists>t. split_space (format_nat (sr_id r) @ '' '' @ sr_name r @ '' '' @ sr_size r @ '' '' @ sr_rest r) =
     format_nat (sr_id r) # sr_name r # sr_size r # t"
proof -
  have w: "\<forall>x \<in> set a. \<not> re_space x" if "word_ok a" for a using that by (simp add: word_ok_def)
  show ?thesis
    using assms digits_word [of "sr_id r"]
    by (simp add: row_ok_def split_space_word [OF w blank_re] word_start)
qed

lemma split_row:
  assumes "row_ok r"
  shows "\<exists>t. split_space (row_text r) =
    (if sr_pad r = 0 then format_nat (sr_id r) # sr_name r # sr_size r # t
     else [] # format_nat (sr_id r) # sr_name r # sr_size r # t)"
proof (cases "sr_pad r")
  case 0
  then show ?thesis using split_row_tail [OF assms] by (simp add: row_text_def)
next
  case (Suc n)
  have drop: "dropWhile re_space (replicate n CHR '' '' @ s) = dropWhile re_space s" for s
    by (induction n) (simp_all add: blank_re)
  let ?t = "format_nat (sr_id r) @ '' '' @ sr_name r @ '' '' @ sr_size r @ '' '' @ sr_rest r"
  have row: "row_text r = [] @ CHR '' '' # replicate n CHR '' '' @ ?t"
    by (simp add: row_text_def Suc)
  have "split_space ([] @ CHR '' '' # replicate n CHR '' '' @ ?t) = [] # split_space (dropWhile re_space (replicate n CHR '' '' @ ?t))"
    by (rule split_space_word) (simp_all add: blank_re)
  then have "split_space (row_text r) = [] # split_space ?t"
    unfolding row drop word_start [OF digits_word] .
  then show ?thesis using split_row_tail [OF assms] Suc by simp
qed

lemma row_no_newline:
  assumes "row_ok r"
  shows "CHR 0x0A \<notin> set (row_text r)"
proof -
  have w: "CHR 0x0A \<notin> set a" if "word_ok a" for a
    using that by (auto simp: word_ok_def re_space_def)
  show ?thesis using assms w [OF digits_word] w by (auto simp: row_text_def row_ok_def)
qed

lemma snap_ls_lines:
  assumes "\<forall>l \<in> set ls. CHR 0x0A \<notin> set l"
  shows "split_on CHR 0x0A (concat (map (\<lambda>l. l @ [CHR 0x0A]) ls)) = ls @ [[]]"
  using assms
proof (induction ls)
  case Nil
  then show ?case by simp
next
  case (Cons l ls)
  then show ?case
    using split_on_append [of "CHR 0x0A" l "concat (map (\<lambda>l. l @ [CHR 0x0A]) ls)"] by simp
qed

lemma snapshot_names_rows:
  assumes "\<forall>r \<in> set rows. row_ok r"
  shows "List.map_filter (\<lambda>line. let parts = split_space line in if length parts < 3 then None else Some (parts ! 2))
      (map row_text rows @ [[]]) = map (\<lambda>r. if sr_pad r = 0 then sr_size r else sr_name r) rows"
  using assms
proof (induction rows)
  case Nil
  have "split_space [] = [[]]" by (subst split_space.simps) simp
  then show ?case by (simp add: List.map_filter_def)
next
  case (Cons r rows)
  then obtain t where "split_space (row_text r) =
    (if sr_pad r = 0 then format_nat (sr_id r) # sr_name r # sr_size r # t
     else [] # format_nat (sr_id r) # sr_name r # sr_size r # t)" using split_row [of r] by auto
  with Cons show ?case by (cases "sr_pad r = 0") (simp_all add: List.map_filter_simps Let_def)
qed

section \<open>Properties\<close>

text \<open>
  Image names: the external name of an image is the volume name its internal name was made
  from, for every volume name that has an internal name.
\<close>

theorem ceph_names_roundtrip:
  assumes "internalName s = Ok i"
  shows "externalName i = s \<and> (\<forall>t. internalName t = Ok i \<longrightarrow> t = s)"
  using internal_external [OF assms] internal_external by metis

theorem ceph_names_roundtrip_witness:
  "internalName ''policy1/vol.1'' = Ok ''policy1.vol.1'' \<and> externalName ''policy1.vol.1'' = ''policy1/vol.1''"
proof -
  have i: "internalName ''policy1/vol.1'' = Ok ''policy1.vol.1''" by code_simp
  with ceph_names_roundtrip [OF i] show ?thesis by blast
qed

text \<open>
  C19. The jail of \<open>mkMountPath\<close>: a path it accepts lies below the mount path, whatever the names.
\<close>

theorem mount_path_jail:
  assumes "mkMountPath mountpath poolName intName = Ok path"
  shows "(\<exists>rest. path_segs path = path_segs mountpath @ rest) \<and> rooted path = rooted mountpath"
proof -
  obtain rel where "path_rel mountpath path = Some rel" "\<not> contains ''..'' rel"
    using assms by (auto simp: mkMountPath_def Let_def split: option.splits if_splits)
  from rel_jail [OF this] show ?thesis by auto
qed

theorem mount_path_jail_witness:
  "mkMountPath ''/mnt/ceph'' ''rbd'' ''p.v'' = Ok ''/mnt/ceph/rbd/p.v'' \<and>
   (\<exists>rest. path_segs ''/mnt/ceph/rbd/p.v'' = path_segs ''/mnt/ceph'' @ rest)"
proof -
  have m: "mkMountPath ''/mnt/ceph'' ''rbd'' ''p.v'' = Ok ''/mnt/ceph/rbd/p.v''" by code_simp
  with mount_path_jail [OF m] show ?thesis by blast
qed

text \<open>
  \<open>templateFSCmd\<close> ends for every command when the device path has no percent sign, and puts the
  path for each single percent sign of the command, leaving double ones as they are.
\<close>

theorem template_is_substitution:
  assumes "CHR ''%'' \<notin> set devicePath"
  shows "templateFSCmd fscmd devicePath = Some (subst_device devicePath fscmd)"
  using template_subst [OF assms, of "[]" fscmd] by (simp add: templateFSCmd_def)

theorem template_is_substitution_witness:
  "templateFSCmd ''mkfs.ext4 -m0 %'' ''/dev/rbd0'' = Some ''mkfs.ext4 -m0 /dev/rbd0''"
  using template_is_substitution [of "''/dev/rbd0''" "''mkfs.ext4 -m0 %''"] by simp

text \<open>
  \<open>ListSnapshots\<close> reads the names from the output of \<open>rbd snap ls\<close>: for rows whose number is
  preceded by a blank it yields exactly their names in order; for a row without padding (a number
  as wide as its column) it yields the size instead of the name.
\<close>

theorem snapshot_listing:
  assumes "\<forall>r \<in> set rows. row_ok r" "CHR 0x0A \<notin> set heading"
  shows "snapshot_names (snap_ls_text heading rows) = map (\<lambda>r. if sr_pad r = 0 then sr_size r else sr_name r) rows"
proof -
  have "\<forall>l \<in> set (heading # map row_text rows). CHR 0x0A \<notin> set l"
    using assms row_no_newline by auto
  from snap_ls_lines [OF this] show ?thesis
    using snapshot_names_rows [OF assms(1)] by (simp add: snapshot_names_def snap_ls_text_def)
qed

theorem snapshot_listing_witness:
  "snapshot_names (snap_ls_text ''SNAPID NAME SIZE''
      [\<lparr>sr_pad = 5, sr_id = 4, sr_name = ''s1'', sr_size = ''10240'', sr_rest = ''kB''\<rparr>,
       \<lparr>sr_pad = 0, sr_id = 100000, sr_name = ''s2'', sr_size = ''10240'', sr_rest = ''kB''\<rparr>]) = [''s1'', ''10240'']"
  by (subst snapshot_listing) (simp_all add: row_ok_def word_ok_def re_space_def)

text \<open>
  \<open>Create\<close> when the command is killed by its timeout: the executor then yields a result with
  exit status 0 together with the error of the context, and \<open>Create\<close> reports success.
\<close>

theorem create_timeout_is_success:
  assumes "internalName (sv_name (d_volume d)) = Ok i" "er_status r = 0"
    and "h_exec c [''rbd'', ''create'', mkpool (param d ''pool'') i, ''--size'', format_nat (sv_size (d_volume d))]
           (Some (d_timeout d)) w = ((Some r, Some e), w')"
  shows "ceph_Create c d w = (Ok (), w')"
  using assms by (simp add: ceph_Create_def exec_cmd_def io_defs)

definition timed_out :: machine where
  "timed_out = machine_start\<lparr>mc_exec :=
     [(Some \<lparr>er_status = 0, er_stdout = [], er_stderr = []\<rparr>, Some (Plain ''context deadline exceeded''))]\<rparr>"

theorem create_timeout_is_success_witness:
  "\<exists>w'. ceph_Create (machine_host 1) (zero_driver_options\<lparr>d_volume := zero_sv\<lparr>sv_name := ''p/v''\<rparr>\<rparr>) timed_out = (Ok (), w')"
proof -
  have i: "internalName (sv_name (d_volume (zero_driver_options\<lparr>d_volume := zero_sv\<lparr>sv_name := ''p/v''\<rparr>\<rparr>))) = Ok ''p.v''"
    by code_simp
  show ?thesis
    by (rule exI, rule create_timeout_is_success [OF i, of "\<lparr>er_status = 0, er_stdout = [], er_stderr = []\<rparr>"])
      (simp_all add: mc_run_def timed_out_def mc_answer_def)
qed

end
