(* ===== verification/Nfs.thy ===== *)
theory Nfs imports Mountscan begin

text \<open>
  \<open>storage/backend/nfs\<close>: the NFS driver (\<open>nfs.go\<close>, \<open>mount.go\<close>): the mount options and their text,
  the choice of the server's and client's address, mounting with retries, unmounting and the
  listing of the mounts. Name lookup, netlink and the kernel are parameters (\<open>Host\<close>).
\<close>

definition BackendName_nfs :: string where "BackendName_nfs = ''nfs''"

section \<open>Options\<close>

definition parse_option :: "string \<Rightarrow> (string \<times> string) res" where
  "parse_option raw =
     (let part = trim_space raw in
      if part = [] then Err (Fresh ''Invalid options, syntax must have data between two commas'')
      else if has_prefix ''='' part \<or> has_suffix ''='' part then
        Err (Fresh ''key=value options must contain both a key and a value'')
      else (case split_on CHR ''='' part of
          [k, v] \<Rightarrow> Ok (k, v)
        | [k] \<Rightarrow> Ok (k, [])
        | _ \<Rightarrow> Err (Fresh ''Option syntax is key, or key=value. Invalid parameters detected.'')))"

fun parse_options :: "string list \<Rightarrow> smap \<Rightarrow> smap res" where
  "parse_options [] m = Ok m"
| "parse_options (p # ps) m = bind_res (parse_option p) (\<lambda>(k, v). parse_options ps (smap_put k v m))"

definition validateConvertOptions :: "string \<Rightarrow> smap res" where
  "validateConvertOptions options =
     (if options = [] then Ok [] else parse_options (split_on CHR '','' options) [])"

text \<open>The options in the order the range over the map meets its keys.\<close>

definition ordered :: "('w, 'z) host_scheme \<Rightarrow> smap \<Rightarrow> (string \<times> string) list" where
  "ordered c m = map (\<lambda>k. (k, smap_get m k)) (h_order c (map fst m))"

definition option_text :: "string \<times> string \<Rightarrow> string" where
  "option_text kv = fst kv @ (if snd kv \<noteq> [] then ''='' @ snd kv else [])"

text \<open>Stripping the trailing comma of the empty text slices out of its bounds.\<close>

definition mapOptionsToString :: "(string \<times> string) list \<Rightarrow> string res" where
  "mapOptionsToString kvs =
     (let ret = concat (map (\<lambda>kv. option_text kv @ '','') kvs)
      in if ret = [] then Panic ''slice bounds out of range'' else Ok (butlast ret))"

section \<open>Addresses\<close>

fun find_addr :: "('w, 'z) host_scheme \<Rightarrow> string \<Rightarrow> string list \<Rightarrow> bool" where
  "find_addr c ip [] = False"
| "find_addr c ip (net # nets) = (h_contains c net ip \<or> find_addr c ip nets)"

fun scan_links :: "('w, 'z) host_scheme \<Rightarrow> smap \<Rightarrow> string \<Rightarrow> link list \<Rightarrow> ('w, goerr, smap) io" where
  "scan_links c m ip [] = fail (Fresh ''Could not find a suitable clientaddr for mount'')"
| "scan_links c m ip (l # ls) =
     (if l_type l \<noteq> ''device'' then scan_links c m ip ls
      else attempt (h_addrs c l) (\<lambda>_. fail (Fresh ''Error listing addrs for link''))
        (\<lambda>addrs. if find_addr c ip addrs then ret (smap_put ''clientaddr'' ip m)
                 else scan_links c m ip ls))"

text \<open>\<open>readNetlink\<close> yields the options as it leaves the map.\<close>

definition readNetlink :: "('w, 'z) host_scheme \<Rightarrow> smap \<Rightarrow> string \<Rightarrow> ('w, goerr, smap) io" where
  "readNetlink c mapOpts host =
     (if map_of mapOpts ''clientaddr'' = None then
        (case h_parse_ip c host of
           None \<Rightarrow> fail (Fresh ''Could not parse IP in NFS mount'')
         | Some ip \<Rightarrow>
             attempt (h_links c)
               (\<lambda>e. fail (Combine (Fresh ''Error listing netlink interfaces during NFS mount'') e))
               (\<lambda>ls. scan_links c mapOpts ip ls))
      else fail (Fresh ''Could not find a suitable clientaddr for mount''))"

definition nfs_source_host :: "DriverOptions \<Rightarrow> smap \<Rightarrow> string res" where
  "nfs_source_host d mapOpts =
     (if CHR '':'' \<notin> set (d_source d) then
        (case map_of mapOpts ''addr'' of
           None \<Rightarrow> Err (Fresh ''No server address was provided.'')
         | Some res \<Rightarrow> if trim_space res = [] then Err (Fresh ''No server address was provided.'') else Ok res)
      else Ok (hd (split2 CHR '':'' (d_source d))))"

definition resolve_host :: "('w, 'z) host_scheme \<Rightarrow> string \<Rightarrow> ('w, goerr, string) io" where
  "resolve_host c host =
     (if h_parse_ip c host = None then
        attempt (h_lookup_host c host) (\<lambda>e. fail (Combine (Fresh ''Host lookup failed for NFS server'') e))
          (\<lambda>hosts. case hosts of
              [] \<Rightarrow> fail (Fresh ''Host lookup succeeded but returned no address to use'')
            | h # _ \<Rightarrow> ret h)
      else ret host)"

definition mkOpts :: "('w, 'z) host_scheme \<Rightarrow> DriverOptions \<Rightarrow> ('w, goerr, string) io" where
  "mkOpts c d =
     andThen (lift (validateConvertOptions (param d ''options''))) (\<lambda>mapOpts.
     andThen (lift (nfs_source_host d mapOpts)) (\<lambda>host0.
     andThen (resolve_host c (if host0 = [] then ''127.0.0.1'' else host0)) (\<lambda>host.
     andThen (readNetlink c (smap_put ''addr'' host mapOpts) host) (\<lambda>opts.
     andThen (lift (mapOptionsToString (ordered c opts))) (\<lambda>str.
       ret (''nfsvers=4,'' @ str))))))"

section \<open>The mount driver\<close>

definition nfs_internalName :: "string \<Rightarrow> string res" where
  "nfs_internalName volName =
     (if remove_char CHR ''/'' volName = [] then Err (Fresh ''Invalid volume name in NFS driver'') else Ok volName)"

definition nfs_MountPath :: "string \<Rightarrow> DriverOptions \<Rightarrow> string res" where
  "nfs_MountPath mountpath d = Ok (path_join [mountpath, sv_name (d_volume d)])"

text \<open>The mount call is retried after an I/O error, three times in all; a busy mount is accepted.\<close>

fun nfs_mount_loop :: "nat \<Rightarrow> ('w, 'z) host_scheme \<Rightarrow> DriverOptions \<Rightarrow> string \<Rightarrow> string \<Rightarrow> ('w, goerr, unit) io" where
  "nfs_mount_loop 0 c d mp opts = hang"
| "nfs_mount_loop (Suc n) c d mp opts =
     attempt (h_mount c (d_source d) mp ''nfs'' opts)
       (\<lambda>err.
         if err = EBUSY then ret ()
         else if err = EIO then
           andThen (modify (h_sleep c (d_timeout d))) (\<lambda>_.
             if n = 0 then fail (Combine (Fresh ''I/O error mounting'') err)
             else nfs_mount_loop n c d mp opts)
         else fail (Combine (Fresh ''Error mounting nfs volume'') err))
       ret"

definition nfs_Mount :: "('w, 'z) host_scheme \<Rightarrow> string \<Rightarrow> DriverOptions \<Rightarrow> ('w, goerr, Mount) io" where
  "nfs_Mount c mountpath d =
     andThen (lift (nfs_MountPath mountpath d)) (\<lambda>mp.
     andThen (attempt (h_mkdir c mp 493)
       (\<lambda>e. if e \<noteq> EEXIST then fail (Combine (Fresh ''Error creating directory while preparing NFS mount'') e) else ret ()) ret)
       (\<lambda>_.
     andThen (mkOpts c d) (\<lambda>opts.
     andThen (nfs_mount_loop 3 c d mp opts) (\<lambda>_.
       ret \<lparr>mt_device = d_source d, mt_path = mp, mt_major = 0, mt_minor = 0, mt_volume = d_volume d\<rparr>))))"

definition nfs_Unmount :: "('w, 'z) host_scheme \<Rightarrow> string \<Rightarrow> DriverOptions \<Rightarrow> ('w, goerr, unit) io" where
  "nfs_Unmount c mountpath d = andThen (lift (nfs_MountPath mountpath d)) (\<lambda>mp. h_unmount c mp)"

definition nfs_Validate :: "DriverOptions \<Rightarrow> unit res" where
  "nfs_Validate d =
     (if sv_name (d_volume d) = [] \<or> d_source d = [] then
        Err (Fresh ''No source or volume supplied, cannot mount this volume'')
      else Ok ())"

text \<open>\<open>Mounted\<close>: a mount outside the mount path is given by a relative path all the same.\<close>

definition nfs_mounts :: "string \<Rightarrow> MountInfo list \<Rightarrow> Mount list" where
  "nfs_mounts mountpath hms =
     List.map_filter (\<lambda>hm. map_option (\<lambda>rel.
       \<lparr>mt_device = [], mt_path = mi_point hm, mt_major = mi_major hm, mt_minor = mi_minor hm,
        mt_volume = \<lparr>sv_name = rel, sv_size = 0, sv_params = Some [(''mount'', mi_source hm)]\<rparr>\<rparr>)
       (path_rel mountpath (mi_point hm))) hms"

definition nfs_Mounted :: "('w, 'z) host_scheme \<Rightarrow> string \<Rightarrow> int \<Rightarrow> ('w, goerr, Mount list) io" where
  "nfs_Mounted c mountpath timeout =
     attempt (GetMounts c \<lparr>gm_driver = ''nfs'', gm_fs_type = ''nfs4'', gm_kernel = []\<rparr>)
       (\<lambda>e. if is_errored e \<and> Contains e ErrDevNotFound then ret [] else fail e)
       (\<lambda>hms. ret (nfs_mounts mountpath hms))"

section \<open>Lemmas\<close>

text \<open>An option as an administrator writes it: a key, possibly with a value, without blanks.\<close>

definition opt_word :: "string \<Rightarrow> bool" where
  "opt_word s \<longleftrightarrow> (\<forall>x \<in> set s. x \<noteq> CHR '','' \<and> x \<noteq> CHR ''='' \<and> \<not> is_space x)"

definition opt_ok :: "string \<times> string \<Rightarrow> bool" where
  "opt_ok kv \<longleftrightarrow> fst kv \<noteq> [] \<and> opt_word (fst kv) \<and> opt_word (snd kv)"

lemma opt_word_sep: "opt_word s \<Longrightarrow> CHR '','' \<notin> set s \<and> CHR ''='' \<notin> set s"
  by (auto simp: opt_word_def)

lemma trim_space_id: "\<forall>x \<in> set s. \<not> is_space x \<Longrightarrow> trim_space s = s"
proof -
  have "dropWhile is_space t = t" if "\<forall>x \<in> set t. \<not> is_space x" for t
    using that by (cases t) auto
  from this [of s] this [of "rev s"] show "\<forall>x \<in> set s. \<not> is_space x \<Longrightarrow> trim_space s = s"
    by (simp add: trim_space_def)
qed

lemma no_eq_prefix: "s \<noteq> [] \<Longrightarrow> CHR ''='' \<notin> set (take 1 s) \<Longrightarrow> \<not> has_prefix ''='' s"
  by (cases s) (auto simp: has_prefix_def)

lemma suffix_last: "has_suffix [ch] s \<longleftrightarrow> s \<noteq> [] \<and> last s = ch"
  by (cases s rule: rev_cases) (auto simp: has_suffix_def)

lemma parse_option_text:
  assumes "opt_ok kv"
  shows "parse_option (option_text kv) = Ok kv"
proof -
  obtain k v where kv: "kv = (k, v)" by (cases kv)
  have k: "k \<noteq> []" "opt_word k" and v: "opt_word v" using assms by (simp_all add: opt_ok_def kv)
  have sp: "\<not> is_space CHR ''=''" by (simp add: is_space_def)
  have t: "trim_space (option_text kv) = option_text kv"
    by (rule trim_space_id) (use k v sp in \<open>auto simp: option_text_def kv opt_word_def\<close>)
  have pre: "\<not> has_prefix ''='' (option_text kv)"
    using k opt_word_sep [OF k(2)] by (cases k) (auto simp: option_text_def kv has_prefix_def)
  have suf: "\<not> has_suffix ''='' (option_text kv)"
  proof -
    have "last k \<noteq> CHR ''=''" "v \<noteq> [] \<Longrightarrow> last v \<noteq> CHR ''=''"
      using k opt_word_sep [OF k(2)] opt_word_sep [OF v] last_in_set by metis+
    then show ?thesis using k by (auto simp: option_text_def kv suffix_last)
  qed
  have split: "split_on CHR ''='' (option_text kv) = (if v = [] then [k] else [k, v])"
    using opt_word_sep [OF k(2)] opt_word_sep [OF v] split_on_append [of "CHR ''=''" k v]
    by (auto simp: option_text_def kv split_on_no_sep)
  have ne: "option_text kv \<noteq> []" using k by (simp add: option_text_def kv)
  show ?thesis unfolding parse_option_def Let_def t using pre suf split ne by (simp add: kv)
qed

lemma parse_options_texts:
  "\<forall>kv \<in> set kvs. opt_ok kv \<Longrightarrow>
   parse_options (map option_text kvs) m = Ok (fold (\<lambda>(k, v). smap_put k v) kvs m)"
  by (induction kvs arbitrary: m) (auto simp: bind_res_def parse_option_text)

lemma concat_join: "xs \<noteq> [] \<Longrightarrow> concat (map (\<lambda>x. x @ sep) xs) = join sep xs @ sep"
  by (induction sep xs rule: join.induct) auto

lemma mapOptionsToString_join:
  assumes "kvs \<noteq> []"
  shows "mapOptionsToString kvs = Ok (join '','' (map option_text kvs))"
proof -
  have "concat (map (\<lambda>kv. option_text kv @ '','') kvs) = concat (map (\<lambda>x. x @ '','') (map option_text kvs))"
    by (simp add: comp_def)
  also have "\<dots> = join '','' (map option_text kvs) @ '',''"
    by (rule concat_join) (use assms in simp)
  finally show ?thesis by (simp add: mapOptionsToString_def)
qed

lemma option_text_no_comma: "opt_ok kv \<Longrightarrow> CHR '','' \<notin> set (option_text kv)"
  using opt_word_sep by (auto simp: opt_ok_def option_text_def)

lemma scan_links_found:
  assumes "scan_links c m ip ls w = (Ok opts, w')"
  shows "opts = smap_put ''clientaddr'' ip m"
  using assms
  by (induction ls arbitrary: w) (auto split: if_splits elim!: attempt_OkE)

section \<open>Properties\<close>

text \<open>
  Mount options: the text built from a map of options, whatever order the range takes its keys
  in, is read back by \<open>validateConvertOptions\<close> as the same map.
\<close>

theorem nfs_options_roundtrip:
  assumes "smap_ok m" "m \<noteq> []" "\<forall>kv \<in> set m. opt_ok kv" "set kvs = set m" "distinct (map fst kvs)"
  shows "\<exists>str. mapOptionsToString kvs = Ok str \<and> validateConvertOptions str = Ok m"
proof -
  let ?str = "join '','' (map option_text kvs)"
  have ne: "kvs \<noteq> []" using assms(2,4) by auto
  have ok: "\<forall>kv \<in> set kvs. opt_ok kv" using assms(3,4) by simp
  have split: "split_on CHR '','' ?str = map option_text kvs"
    by (rule split_on_join) (use ne ok option_text_no_comma in auto)
  have "?str \<noteq> []"
  proof
    assume "?str = []"
    with split have "map option_text kvs = [[]]" by simp
    then obtain kv where "kvs = [kv]" "option_text kv = []" by (cases kvs) auto
    then show False using ok by (auto simp: opt_ok_def option_text_def)
  qed
  then have "validateConvertOptions ?str = Ok (fold (\<lambda>(k, v). smap_put k v) kvs [])"
    using split parse_options_texts [OF ok] by (simp add: validateConvertOptions_def)
  then show ?thesis
    using mapOptionsToString_join [OF ne] smap_refill [OF assms(1,4,5)] by simp
qed

theorem nfs_options_roundtrip_witness:
  "\<exists>str. mapOptionsToString [(''rw'', ''''), (''addr'', ''10.0.0.1'')] = Ok str \<and>
         validateConvertOptions str = Ok [(''addr'', ''10.0.0.1''), (''rw'', '''')]"
  by (rule nfs_options_roundtrip)
    (auto simp: smap_ok_def opt_ok_def opt_word_def is_space_def)

text \<open>
  An NFS volume whose options give a \<open>clientaddr\<close> cannot be mounted: whatever the host answers,
  \<open>mkOpts\<close> does not succeed.
\<close>

theorem clientaddr_never_mounts:
  assumes "validateConvertOptions (param d ''options'') = Ok m" "map_of m ''clientaddr'' \<noteq> None"
  shows "mkOpts c d w \<noteq> (Ok str, w')"
proof
  assume ok: "mkOpts c d w = (Ok str, w')"
  then obtain host w1 opts w2 where "readNetlink c (smap_put ''addr'' host m) host w1 = (Ok opts, w2)"
    using assms(1) unfolding mkOpts_def by (auto elim!: andThen_OkE)
  then show False using assms(2) by (simp add: readNetlink_def)
qed

definition client_volume :: DriverOptions where
  "client_volume = zero_driver_options\<lparr>d_source := ''host:/export'',
     d_volume := \<lparr>sv_name = ''p/v'', sv_size = 0, sv_params = Some [(''options'', ''clientaddr=10.0.0.2'')]\<rparr>\<rparr>"

theorem clientaddr_never_mounts_witness:
  "mkOpts (machine_host 1) client_volume machine_start \<noteq> (Ok ''nfsvers=4,clientaddr=10.0.0.2'', machine_start)"
proof -
  have v: "validateConvertOptions (param client_volume ''options'') = Ok [(''clientaddr'', ''10.0.0.2'')]" by code_simp
  show ?thesis by (rule clientaddr_never_mounts [OF v]) simp
qed

end
