(* ===== verification/Json_Schema.thy ===== *)
theory Json_Schema imports Storage begin

text \<open>
  \<open>config/schema.go\<close> and \<open>config/validation.go\<close>: the JSON schemas the configuration is checked
  against, as terms of the keywords they use, and an evaluator of those keywords (JSON schema
  draft 4, as the vendored \<open>gojsonschema\<close> implements it). The lemmas say, for each schema, which
  records its evaluation accepts.
\<close>

section \<open>Patterns\<close>

text \<open>
  The anchored patterns of the schemas: a sequence of pieces, each one character of a class or one
  or more of them. Characters are runes, the bytes of one UTF-8 sequence.
\<close>

definition continues :: "char \<Rightarrow> bool" where
  "continues c \<longleftrightarrow> 128 \<le> (of_char c :: nat) \<and> (of_char c :: nat) < 192"

definition leads :: "char \<Rightarrow> bool" where
  "leads c \<longleftrightarrow> 192 \<le> (of_char c :: nat)"

function runes :: "string \<Rightarrow> string list" where
  "runes [] = []"
| "runes (c # s) =
     (if leads c then (c # takeWhile continues s) # runes (dropWhile continues s) else [c] # runes s)"
  by pat_completeness auto
termination
  by (relation "measure length") (auto simp: le_imp_less_Suc length_dropWhile_le)

datatype char_class = CDigit | CAny | CNotIn "char list"

fun in_class :: "char_class \<Rightarrow> string \<Rightarrow> bool" where
  "in_class CDigit r = (case r of [c] \<Rightarrow> is_digit c | _ \<Rightarrow> False)"
| "in_class CAny r = (r \<noteq> [CHR 0x0A])"
| "in_class (CNotIn cs) r = (case r of [c] \<Rightarrow> c \<notin> set cs | _ \<Rightarrow> True)"

datatype piece = POne char_class | PMany char_class

fun matches :: "piece list \<Rightarrow> string list \<Rightarrow> bool" where
  "matches [] rs = (rs = [])"
| "matches (p # ps) [] = False"
| "matches (POne k # ps) (r # rs) = (in_class k r \<and> matches ps rs)"
| "matches (PMany k # ps) (r # rs) = (in_class k r \<and> (matches ps rs \<or> matches (PMany k # ps) rs))"

text \<open>\<open>^[^./]+$\<close> and \<open>^[0-9]+.$\<close>\<close>

definition name_pattern :: "piece list" where "name_pattern = [PMany (CNotIn ''./'')]"
definition frequency_pattern :: "piece list" where "frequency_pattern = [PMany CDigit, POne CAny]"

section \<open>Schemas\<close>

datatype keyword =
    KType string
  | KProperties "(string \<times> keyword list) list"
  | KRequired "string list"
  | KEnum "json list"
  | KMinLength nat
  | KPattern "piece list"
  | KMinimum int
  | KOneOf "keyword list list"
  | KAnyOf "keyword list list"

fun has_type :: "string \<Rightarrow> json \<Rightarrow> bool" where
  "has_type t (JObj ms) = (t = ''object'')"
| "has_type t (JStr s) = (t = ''string'')"
| "has_type t (JNum n) = (t = ''number'' \<or> t = ''integer'')"
| "has_type t (JFloat s) = (t = ''number'')"
| "has_type t (JBool b) = (t = ''boolean'')"
| "has_type t (JArr xs) = (t = ''array'')"
| "has_type t JNull = (t = ''null'')"

text \<open>A keyword that speaks of one type accepts every value of another.\<close>

fun valid :: "json \<Rightarrow> keyword list \<Rightarrow> bool"
  and valid_keyword :: "json \<Rightarrow> keyword \<Rightarrow> bool"
  and valid_members :: "json \<Rightarrow> (string \<times> keyword list) list \<Rightarrow> bool"
  and count_valid :: "json \<Rightarrow> keyword list list \<Rightarrow> nat" where
  "valid j [] = True"
| "valid j (k # ks) = (valid_keyword j k \<and> valid j ks)"
| "valid_keyword j (KType t) = has_type t j"
| "valid_keyword j (KProperties ps) = valid_members j ps"
| "valid_keyword j (KRequired ns) = (case j of JObj ms \<Rightarrow> list_all (\<lambda>n. map_of ms n \<noteq> None) ns | _ \<Rightarrow> True)"
| "valid_keyword j (KEnum vs) = (j \<in> set vs)"
| "valid_keyword j (KMinLength n) = (case j of JStr s \<Rightarrow> n \<le> length (runes s) | _ \<Rightarrow> True)"
| "valid_keyword j (KPattern p) = (case j of JStr s \<Rightarrow> matches p (runes s) | _ \<Rightarrow> True)"
| "valid_keyword j (KMinimum m) = (case j of JNum i \<Rightarrow> m \<le> i | _ \<Rightarrow> True)"
| "valid_keyword j (KOneOf ss) = (count_valid j ss = 1)"
| "valid_keyword j (KAnyOf ss) = (0 < count_valid j ss)"
| "valid_members j [] = True"
| "valid_members j ((n, s) # ps) =
     ((case j of JObj ms \<Rightarrow> (case map_of ms n of None \<Rightarrow> True | Some v \<Rightarrow> valid v s) | _ \<Rightarrow> True) \<and> valid_members j ps)"
| "count_valid j [] = 0"
| "count_valid j (s # ss) = (if valid j s then 1 else 0) + count_valid j ss"

definition RuntimeSchema :: "keyword list" where
  "RuntimeSchema =
     [KType ''object'',
      KOneOf
       [[KProperties
          [(''snapshots'', [KEnum [JBool True]]),
           (''snapshot'',
             [KType ''object'',
              KProperties
               [(''frequency'', [KType ''string'', KPattern frequency_pattern, KMinLength 1]),
                (''keep'', [KType ''number'', KMinimum 1])],
              KRequired [''frequency'', ''keep'']])]],
        [KProperties [(''snapshots'', [KEnum [JBool False]])]]]]"

definition backends_schema :: "keyword list" where
  "backends_schema =
     [KType ''object'',
      KProperties
       [(''mount'', [KType ''string'', KMinLength 1, KEnum [JStr ''ceph'', JStr ''nfs'']]),
        (''crud'', [KType ''string'', KEnum [JStr ''ceph'', JStr []]]),
        (''snapshot'', [KType ''string'', KEnum [JStr ''ceph'', JStr []]])],
      KRequired [''mount'']]"

definition name_schema :: "keyword list" where
  "name_schema = [KType ''string'', KMinLength 1, KPattern name_pattern]"

definition PolicySchema :: "keyword list" where
  "PolicySchema =
     [KType ''object'',
      KProperties
       [(''name'', name_schema), (''backends'', backends_schema),
        (''backend'', [KEnum [JStr ''ceph'', JStr ''nfs'']])],
      KAnyOf [[KRequired [''backend'']], [KRequired [''backends'']]],
      KRequired [''name'']]"

definition VolumeSchema :: "keyword list" where
  "VolumeSchema =
     [KType ''object'',
      KProperties [(''name'', name_schema), (''policy'', name_schema), (''backends'', backends_schema)],
      KRequired [''name'', ''policy'', ''backends'']]"

text \<open>
  \<open>combineErrors\<close> joins the library's descriptions of the violations into one new error; their texts
  are not modelled.
\<close>

definition combineErrors :: goerr where
  "combineErrors = Fresh ''schema violations''"

definition against :: "keyword list \<Rightarrow> json \<Rightarrow> unit res" where
  "against s j = (if valid j s then Ok () else Err combineErrors)"

definition Runtime_ValidateJSON :: "RuntimeOptions \<Rightarrow> unit res" where
  "Runtime_ValidateJSON r = against RuntimeSchema (runtime_json r)"

definition Policy_ValidateJSON :: "Policy \<Rightarrow> unit res" where
  "Policy_ValidateJSON p =
     bind_res (against PolicySchema (policy_json p)) (\<lambda>_. Runtime_ValidateJSON (p_runtime p))"

definition Volume_ValidateJSON :: "Volume \<Rightarrow> unit res" where
  "Volume_ValidateJSON v =
     bind_res (against VolumeSchema (volume_json v)) (\<lambda>_. Runtime_ValidateJSON (v_runtime v))"

section \<open>What the schemas accept\<close>

lemma runes_concat: "concat (runes s) = s"
  by (induction s rule: runes.induct) simp_all

lemma runes_empty [simp]: "runes s = [] \<longleftrightarrow> s = []"
  by (cases s) auto

definition ascii :: "char \<Rightarrow> bool" where
  "ascii c \<longleftrightarrow> (of_char c :: nat) < 128"

lemma ascii_alone: "ascii c \<Longrightarrow> r \<in> set (runes s) \<Longrightarrow> c \<in> set r \<Longrightarrow> r = [c]"
  by (induction s rule: runes.induct)
    (auto simp: ascii_def leads_def continues_def split: if_splits dest!: set_takeWhileD)

lemma ascii_in_runes:
  assumes "ascii c"
  shows "[c] \<in> set (runes s) \<longleftrightarrow> c \<in> set s"
proof
  assume "[c] \<in> set (runes s)"
  then show "c \<in> set s" using runes_concat [of s] by (metis UN_I list.set_intros(1) set_concat)
next
  assume "c \<in> set s"
  then obtain r where "r \<in> set (runes s)" "c \<in> set r"
    using runes_concat [of s] by (metis UN_E set_concat)
  then show "[c] \<in> set (runes s)" using ascii_alone [OF assms] by metis
qed

lemma matches_one: "matches [POne k] rs \<longleftrightarrow> (\<exists>r. rs = [r] \<and> in_class k r)"
  by (cases rs) auto

lemma matches_many: "matches [PMany k] rs \<longleftrightarrow> rs \<noteq> [] \<and> (\<forall>r \<in> set rs. in_class k r)"
  by (induction rs) auto

lemma matches_many_one:
  "matches [PMany k, POne l] rs \<longleftrightarrow> (\<exists>ds r. rs = ds @ [r] \<and> ds \<noteq> [] \<and> (\<forall>d \<in> set ds. in_class k d) \<and> in_class l r)"
proof (induction rs)
  case Nil
  then show ?case by simp
next
  case (Cons q rs)
  show ?case
  proof
    assume "matches [PMany k, POne l] (q # rs)"
    then have q: "in_class k q" and d: "matches [POne l] rs \<or> matches [PMany k, POne l] rs" by auto
    from d show "\<exists>ds r. q # rs = ds @ [r] \<and> ds \<noteq> [] \<and> (\<forall>d \<in> set ds. in_class k d) \<and> in_class l r"
    proof
      assume "matches [POne l] rs"
      then obtain r where "rs = [r]" "in_class l r" by (auto simp: matches_one)
      with q show ?thesis by (intro exI [of _ "[q]"] exI [of _ r]) simp
    next
      assume "matches [PMany k, POne l] rs"
      then obtain ds r where "rs = ds @ [r]" "\<forall>d \<in> set ds. in_class k d" "in_class l r"
        using Cons.IH by blast
      with q show ?thesis by (intro exI [of _ "q # ds"] exI [of _ r]) simp
    qed
  next
    assume "\<exists>ds r. q # rs = ds @ [r] \<and> ds \<noteq> [] \<and> (\<forall>d \<in> set ds. in_class k d) \<and> in_class l r"
    then obtain ds r where h: "q # rs = ds @ [r]" "ds \<noteq> []" "\<forall>d \<in> set ds. in_class k d" "in_class l r"
      by blast
    then obtain ds' where ds: "ds = q # ds'" by (cases ds) auto
    show "matches [PMany k, POne l] (q # rs)"
    proof (cases "ds' = []")
      case True
      with h ds show ?thesis by simp
    next
      case False
      with h ds have "matches [PMany k, POne l] rs" using Cons.IH by auto
      with h ds show ?thesis by simp
    qed
  qed
qed

text \<open>The two patterns on strings.\<close>

definition name_valid :: "string \<Rightarrow> bool" where
  "name_valid s \<longleftrightarrow> s \<noteq> [] \<and> CHR ''.'' \<notin> set s \<and> CHR ''/'' \<notin> set s"

lemma in_class_not: "in_class (CNotIn cs) r \<longleftrightarrow> (\<forall>c \<in> set cs. r \<noteq> [c])"
  by (auto split: list.splits)

lemma name_pattern_iff: "matches name_pattern (runes s) \<longleftrightarrow> name_valid s"
proof -
  have "ascii CHR ''.''" "ascii CHR ''/''" by (simp_all add: ascii_def)
  then show ?thesis
    unfolding name_pattern_def matches_many in_class_not name_valid_def
    using ascii_in_runes [of "CHR ''.''" s] ascii_in_runes [of "CHR ''/''" s] by auto
qed

text \<open>Digits followed by one character: \<open>30m\<close>, but \<open>10x\<close> and \<open>10\<close> as well.\<close>

definition frequency_valid :: "string \<Rightarrow> bool" where
  "frequency_valid s \<longleftrightarrow> matches frequency_pattern (runes s)"

lemma runes_digits: "list_all is_digit ds \<Longrightarrow> runes (ds @ s) = map (\<lambda>d. [d]) ds @ runes s"
  by (induction ds) (auto simp: is_digit_def leads_def)

lemma frequency_accepts:
  assumes "ds \<noteq> []" "list_all is_digit ds" "ascii u" "u \<noteq> CHR 0x0A"
  shows "frequency_valid (ds @ [u])"
proof -
  have "runes [u] = [[u]]" using assms(3) by (simp add: ascii_def leads_def)
  then have "runes (ds @ [u]) = map (\<lambda>d. [d]) ds @ [[u]]" by (simp add: runes_digits assms(2))
  then show ?thesis
    unfolding frequency_valid_def frequency_pattern_def matches_many_one
    using assms by (intro exI [of _ "map (\<lambda>d. [d]) ds"] exI [of _ "[u]"]) (auto simp: list_all_iff)
qed

lemma frequency_not_empty: "frequency_valid s \<Longrightarrow> s \<noteq> []"
  by (auto simp: frequency_valid_def frequency_pattern_def)

text \<open>What each schema accepts of the records' texts.\<close>

definition runtime_ok :: "RuntimeOptions \<Rightarrow> bool" where
  "runtime_ok r \<longleftrightarrow> (ro_use_snapshots r \<longrightarrow> frequency_valid (sc_frequency (ro_snapshot r)) \<and> 1 \<le> sc_keep (ro_snapshot r))"

definition backends_ok :: "BackendDrivers \<Rightarrow> bool" where
  "backends_ok b \<longleftrightarrow> bd_mount b \<in> {''ceph'', ''nfs''} \<and> bd_crud b \<in> {''ceph'', []} \<and> bd_snapshot b \<in> {''ceph'', []}"

lemma one_rune: "Suc 0 \<le> length (runes s) \<longleftrightarrow> s \<noteq> []"
  by (metis Suc_le_eq length_greater_0_conv runes_empty)

lemma RuntimeSchema_iff: "valid (runtime_json r) RuntimeSchema \<longleftrightarrow> runtime_ok r"
  using frequency_not_empty [of "sc_frequency (ro_snapshot r)"]
  by (auto simp: RuntimeSchema_def runtime_json_def snapshot_json_def json_fields runtime_ok_def frequency_valid_def
      one_rune)

lemma backends_schema_iff: "valid (backends_json b) backends_schema \<longleftrightarrow> backends_ok b"
  by (auto simp: backends_schema_def backends_json_def json_fields backends_ok_def one_rune)

lemma name_schema_iff: "valid (JStr s) name_schema \<longleftrightarrow> name_valid s"
  by (auto simp: name_schema_def name_pattern_iff one_rune name_valid_def)

lemma PolicySchema_iff:
  "valid (policy_json p) PolicySchema \<longleftrightarrow>
     name_valid (p_name p) \<and> (\<forall>b. p_backends p = Some b \<longrightarrow> backends_ok b) \<and>
     p_backend p \<in> {[], ''ceph'', ''nfs''} \<and> (p_backends p = None \<longrightarrow> p_backend p \<noteq> [])"
  by (cases "p_backends p"; cases "p_unlocked p"; cases "p_backend p = []")
    (auto simp: PolicySchema_def policy_json_def json_fields ptr_json_def name_schema_iff backends_schema_iff)

lemma VolumeSchema_iff:
  "valid (volume_json v) VolumeSchema \<longleftrightarrow>
     name_valid (v_name v) \<and> name_valid (v_policy v) \<and> (\<exists>b. v_backends v = Some b \<and> backends_ok b)"
  by (cases "v_backends v"; cases "v_unlocked v")
    (auto simp: VolumeSchema_def volume_json_def json_fields ptr_json_def name_schema_iff backends_schema_iff)

lemmas schema_iffs = RuntimeSchema_iff PolicySchema_iff VolumeSchema_iff

end
