(* ===== verification/Backend.thy ===== *)
theory Backend imports Ceph Nfs Json_Schema begin

text \<open>
  \<open>storage/driver.go\<close> and \<open>storage/backend\<close>: the driver interfaces as records of their methods, the
  tables of the drivers and the constructors that look a backend up in them. The locale
  \<open>mount_driver_contract\<close> is what the callers rely on of a mount driver; both drivers keep it.
\<close>

section \<open>The interfaces\<close>

record 'w MountDriver =
  md_name :: string
  md_validate :: "DriverOptions \<Rightarrow> unit res"
  md_mount :: "DriverOptions \<Rightarrow> ('w, goerr, Mount) io"
  md_unmount :: "DriverOptions \<Rightarrow> ('w, goerr, unit) io"
  md_mounted :: "int \<Rightarrow> ('w, goerr, Mount list) io"
  md_mount_path :: "DriverOptions \<Rightarrow> string res"

record 'w CRUDDriver =
  cd_name :: string
  cd_validate :: "DriverOptions \<Rightarrow> unit res"
  cd_create :: "DriverOptions \<Rightarrow> ('w, goerr, unit) io"
  cd_format :: "DriverOptions \<Rightarrow> ('w, goerr, unit) io"
  cd_destroy :: "DriverOptions \<Rightarrow> ('w, goerr, unit) io"
  cd_list :: "smap option \<Rightarrow> ('w, goerr, StorageVolume list) io"
  cd_exists :: "DriverOptions \<Rightarrow> ('w, goerr, bool) io"

record 'w SnapshotDriver =
  sd_name :: string
  sd_validate :: "DriverOptions \<Rightarrow> unit res"
  sd_create :: "string \<Rightarrow> DriverOptions \<Rightarrow> ('w, goerr, unit) io"
  sd_remove :: "string \<Rightarrow> DriverOptions \<Rightarrow> ('w, goerr, unit) io"
  sd_list :: "DriverOptions \<Rightarrow> ('w, goerr, string list) io"
  sd_copy :: "DriverOptions \<Rightarrow> string \<Rightarrow> string \<Rightarrow> ('w, goerr, unit) io"

section \<open>The drivers\<close>

definition ceph_NewMountDriver :: "('w, 'z) host_scheme \<Rightarrow> string \<Rightarrow> 'w MountDriver res" where
  "ceph_NewMountDriver c mountpath =
     Ok \<lparr>md_name = BackendName_ceph, md_validate = ceph_Validate, md_mount = ceph_Mount c mountpath,
         md_unmount = ceph_Unmount c mountpath, md_mounted = ceph_Mounted c,
         md_mount_path = ceph_MountPath mountpath\<rparr>"

definition ceph_NewCRUDDriver :: "('w, 'z) host_scheme \<Rightarrow> 'w CRUDDriver res" where
  "ceph_NewCRUDDriver c =
     Ok \<lparr>cd_name = BackendName_ceph, cd_validate = ceph_Validate, cd_create = ceph_Create c,
         cd_format = ceph_Format c, cd_destroy = ceph_Destroy c, cd_list = ceph_List c,
         cd_exists = ceph_Exists c\<rparr>"

definition ceph_NewSnapshotDriver :: "('w, 'z) host_scheme \<Rightarrow> 'w SnapshotDriver res" where
  "ceph_NewSnapshotDriver c =
     Ok \<lparr>sd_name = BackendName_ceph, sd_validate = ceph_Validate, sd_create = ceph_CreateSnapshot c,
         sd_remove = ceph_RemoveSnapshot c, sd_list = ceph_ListSnapshots c, sd_copy = ceph_CopySnapshot c\<rparr>"

definition nfs_NewMountDriver :: "('w, 'z) host_scheme \<Rightarrow> string \<Rightarrow> 'w MountDriver res" where
  "nfs_NewMountDriver c mountpath =
     Ok \<lparr>md_name = BackendName_nfs, md_validate = nfs_Validate, md_mount = nfs_Mount c mountpath,
         md_unmount = nfs_Unmount c mountpath, md_mounted = nfs_Mounted c mountpath,
         md_mount_path = nfs_MountPath mountpath\<rparr>"

section \<open>backends.go\<close>

definition backend_MountPath :: string where "backend_MountPath = ''/mnt''"

definition MountDrivers :: "('w, 'z) host_scheme \<Rightarrow> (string \<times> (string \<Rightarrow> 'w MountDriver res)) list" where
  "MountDrivers c = [(BackendName_ceph, ceph_NewMountDriver c), (BackendName_nfs, nfs_NewMountDriver c)]"

definition CRUDDrivers :: "('w, 'z) host_scheme \<Rightarrow> (string \<times> 'w CRUDDriver res) list" where
  "CRUDDrivers c = [(BackendName_ceph, ceph_NewCRUDDriver c)]"

definition SnapshotDrivers :: "('w, 'z) host_scheme \<Rightarrow> (string \<times> 'w SnapshotDriver res) list" where
  "SnapshotDrivers c = [(BackendName_ceph, ceph_NewSnapshotDriver c)]"

definition NewMountDriver :: "('w, 'z) host_scheme \<Rightarrow> string \<Rightarrow> string \<Rightarrow> 'w MountDriver res" where
  "NewMountDriver c backend mountpath =
     (case map_of (MountDrivers c) backend of
        None \<Rightarrow> Err (Fresh ''invalid mount driver backend'')
      | Some f \<Rightarrow>
          if mountpath = [] then Err (Fresh ''mount path not specified, cannot continue'')
          else f mountpath)"

definition NewCRUDDriver :: "('w, 'z) host_scheme \<Rightarrow> string \<Rightarrow> 'w CRUDDriver res" where
  "NewCRUDDriver c backend =
     (case map_of (CRUDDrivers c) backend of
        None \<Rightarrow> Err (Fresh ''invalid CRUD driver backend'')
      | Some f \<Rightarrow> f)"

definition NewSnapshotDriver :: "('w, 'z) host_scheme \<Rightarrow> string \<Rightarrow> 'w SnapshotDriver res" where
  "NewSnapshotDriver c backend =
     (case map_of (SnapshotDrivers c) backend of
        None \<Rightarrow> Err (Fresh ''invalid snapshot driver backend'')
      | Some f \<Rightarrow> f)"

lemmas backend_names = BackendName_ceph_def BackendName_nfs_def

lemmas driver_defs = ceph_NewMountDriver_def ceph_NewCRUDDriver_def ceph_NewSnapshotDriver_def nfs_NewMountDriver_def

lemma NewMountDriver_ceph [simp]:
  "mp \<noteq> [] \<Longrightarrow> NewMountDriver c ''ceph'' mp = ceph_NewMountDriver c mp"
  by (simp add: NewMountDriver_def MountDrivers_def backend_names)

lemma NewMountDriver_nfs [simp]:
  "mp \<noteq> [] \<Longrightarrow> NewMountDriver c ''nfs'' mp = nfs_NewMountDriver c mp"
  by (simp add: NewMountDriver_def MountDrivers_def backend_names)

lemma NewCRUDDriver_iff: "NewCRUDDriver c b = Ok d \<longleftrightarrow> b = ''ceph'' \<and> ceph_NewCRUDDriver c = Ok d"
  by (auto simp: NewCRUDDriver_def CRUDDrivers_def backend_names)

lemma NewSnapshotDriver_iff: "NewSnapshotDriver c b = Ok d \<longleftrightarrow> b = ''ceph'' \<and> ceph_NewSnapshotDriver c = Ok d"
  by (auto simp: NewSnapshotDriver_def SnapshotDrivers_def backend_names)

lemma NewMountDriver_cases:
  assumes "NewMountDriver c b mp = Ok d"
  obtains (ceph) "b = ''ceph''" "mp \<noteq> []" "ceph_NewMountDriver c mp = Ok d"
    | (nfs) "b = ''nfs''" "mp \<noteq> []" "nfs_NewMountDriver c mp = Ok d"
  using assms by (auto simp: NewMountDriver_def MountDrivers_def backend_names split: if_splits option.splits)

section \<open>What the callers rely on\<close>

text \<open>
  A mount driver accepts only options with a volume name, reports the mount it has made of the
  volume it was asked for, at the path it calculates for it.
\<close>

locale mount_driver_contract =
  fixes d :: "'w MountDriver"
  assumes named: "md_validate d opts = Ok () \<Longrightarrow> sv_name (d_volume opts) \<noteq> []"
    and mounts_at: "md_mount d opts w = (Ok m, w') \<Longrightarrow> md_mount_path d opts = Ok (mt_path m)"
    and mounts_volume: "md_mount d opts w = (Ok m, w') \<Longrightarrow> mt_volume m = d_volume opts"
begin

text \<open>A driver mounts a volume always at the same place, whatever happens in between.\<close>

lemma mount_twice:
  "md_mount d opts w = (Ok m, w1) \<Longrightarrow> md_mount d opts w2 = (Ok m', w3) \<Longrightarrow>
     mt_path m' = mt_path m \<and> mt_volume m' = mt_volume m"
  using mounts_at mounts_volume by (metis outcome.inject(1))

text \<open>Options with the same volume are mounted at the same place when the path is calculated alike.\<close>

lemma mount_path_known:
  "md_mount d opts w = (Ok m, w1) \<Longrightarrow> md_mount_path d opts = Ok p \<Longrightarrow> mt_path m = p"
  using mounts_at by fastforce

end

lemma mkMountPath_path:
  "mkMountPath mp pool i = Ok p \<Longrightarrow> p = path_join [mp, mkpool pool i]"
  by (auto simp: mkMountPath_def Let_def split: option.splits if_splits)

lemma lift_OkE:
  assumes "andThen (lift r) k w = (Ok y, w')"
  obtains x where "r = Ok x" "k x w = (Ok y, w')"
  using assms by (cases r) (auto simp: andThen_def attempt_def)

lemma ceph_Mount_OkE:
  assumes "ceph_Mount c mp opts w = (Ok m, w')" "mp \<noteq> []"
  shows "ceph_MountPath mp opts = Ok (mt_path m) \<and> mt_volume m = d_volume opts"
proof -
  obtain i p where i: "internalName (sv_name (d_volume opts)) = Ok i"
    and p: "mkMountPath mp (param opts ''pool'') i = Ok p"
    and rest: "mt_path m = p" "mt_volume m = d_volume opts"
    using assms(1)
    by (auto simp: ceph_Mount_def elim!: lift_OkE andThen_OkE attempt_OkE)
  then show ?thesis using assms(2) by (simp add: ceph_MountPath_def mkMountPath_path [OF p] mkpool_def)
qed

lemma nfs_Mount_OkE:
  assumes "nfs_Mount c mp opts w = (Ok m, w')"
  shows "nfs_MountPath mp opts = Ok (mt_path m) \<and> mt_volume m = d_volume opts"
  using assms by (auto simp: nfs_Mount_def elim!: lift_OkE andThen_OkE)

lemma ceph_Validate_named: "ceph_Validate opts = Ok () \<Longrightarrow> sv_name (d_volume opts) \<noteq> []"
  by (auto simp: ceph_Validate_def DriverOptions_Validate_def StorageVolume_Validate_def bind_res_Ok_iff split: if_splits)

lemma NewMountDriver_contract:
  assumes "NewMountDriver c b mp = Ok d"
  shows "mount_driver_contract d"
  using assms
proof (cases rule: NewMountDriver_cases)
  case ceph
  have d: "d = \<lparr>md_name = BackendName_ceph, md_validate = ceph_Validate, md_mount = ceph_Mount c mp,
      md_unmount = ceph_Unmount c mp, md_mounted = ceph_Mounted c, md_mount_path = ceph_MountPath mp\<rparr>"
    using ceph(3) by (simp add: ceph_NewMountDriver_def)
  show ?thesis
    unfolding d by unfold_locales (use ceph_Mount_OkE ceph_Validate_named ceph(2) in force)+
next
  case nfs
  have d: "d = \<lparr>md_name = BackendName_nfs, md_validate = nfs_Validate, md_mount = nfs_Mount c mp,
      md_unmount = nfs_Unmount c mp, md_mounted = nfs_Mounted c mp, md_mount_path = nfs_MountPath mp\<rparr>"
    using nfs(3) by (simp add: nfs_NewMountDriver_def)
  show ?thesis
    unfolding d by unfold_locales (use nfs_Mount_OkE in \<open>force simp: nfs_Validate_def split: if_splits\<close>)+
qed

text \<open>The two drivers at a mount path.\<close>

definition ceph_at :: "('w, 'z) host_scheme \<Rightarrow> string \<Rightarrow> 'w MountDriver" where
  "ceph_at c p = (case ceph_NewMountDriver c (slash @ p) of Ok d \<Rightarrow> d)"

definition nfs_at :: "('w, 'z) host_scheme \<Rightarrow> string \<Rightarrow> 'w MountDriver" where
  "nfs_at c p = (case nfs_NewMountDriver c (slash @ p) of Ok d \<Rightarrow> d)"

interpretation ceph_driver: mount_driver_contract "ceph_at c p"
  by (rule NewMountDriver_contract [of c "''ceph''" "slash @ p"]) (simp add: ceph_at_def ceph_NewMountDriver_def)

interpretation nfs_driver: mount_driver_contract "nfs_at c p"
  by (rule NewMountDriver_contract [of c "''nfs''" "slash @ p"]) (simp add: nfs_at_def nfs_NewMountDriver_def)

end
