(* ===== verification/Config_Policy.thy ===== *)
theory Config_Policy imports Backend begin

text \<open>
  \<open>config/policy.go\<close> and \<open>config/archive.go\<close>: policies, their validation and publication, and the
  archive of their revisions. \<open>ActualSize\<close> (volume.go) is here because the validation uses it.
\<close>

section \<open>Sizes and validation\<close>

text \<open>
  \<open>units.FromHumanSize\<close> is a parameter; its \<open>int64\<close> is converted to \<open>uint64\<close>, so a negative size
  wraps, and the size is returned along with the error.
\<close>

definition ActualSize :: "('w, 'z) host_scheme \<Rightarrow> CreateOptions \<Rightarrow> nat \<times> goerr option" where
  "ActualSize c co =
     (let sizeStr = (if trim_space (co_size co) = [] then ''0'' else co_size co);
          r = h_human_size c sizeStr
      in (nat (fst r mod 2 ^ 64) div 1000000, snd r))"

definition defaultDrivers :: "(string \<times> BackendDrivers) list" where
  "defaultDrivers =
     [(''ceph'', \<lparr>bd_crud = ''ceph'', bd_mount = ''ceph'', bd_snapshot = ''ceph''\<rparr>),
      (''nfs'', \<lparr>bd_crud = [], bd_mount = ''nfs'', bd_snapshot = []\<rparr>)]"

definition defaultFilesystems :: smap where
  "defaultFilesystems = [(''ext4'', ''mkfs.ext4 -m0 %'')]"

definition defaultFilesystem :: string where "defaultFilesystem = ''ext4''"

definition chosen_backends :: "Policy \<Rightarrow> BackendDrivers res" where
  "chosen_backends p =
     (case p_backends p of
        Some b \<Rightarrow> Ok b
      | None \<Rightarrow> (case map_of defaultDrivers (p_backend p) of
                  None \<Rightarrow> Err (Fresh ''Invalid backend'')
                | Some b \<Rightarrow> Ok b))"

definition with_filesystems :: "Policy \<Rightarrow> Policy" where
  "with_filesystems p =
     (if p_filesystems p = None then p\<lparr>p_filesystems := Some defaultFilesystems\<rparr> else p)"

text \<open>The validation fills in the defaults, so it yields the policy as it leaves it.\<close>

definition Policy_Validate :: "('w, 'z) host_scheme \<Rightarrow> Policy \<Rightarrow> Policy res" where
  "Policy_Validate c cfg =
     (let p = with_filesystems cfg in
      case Policy_ValidateJSON p of
        Ok _ \<Rightarrow>
          bind_res (chosen_backends p) (\<lambda>b.
            let (size, err) = ActualSize c (p_create p) in
            if bd_crud b \<noteq> [] \<and> (size = 0 \<or> err \<noteq> None)
            then Err (Combine_opt (Fresh ''Size set to zero for non-empty CRUD backend'') err)
            else Ok (p\<lparr>p_backends := Some b\<rparr>))
      | Err e \<Rightarrow> Err (Combine ErrJSONValidation e)
      | Panic m \<Rightarrow> Panic m
      | Hang \<Rightarrow> Hang)"

definition Policy_String :: "Policy \<Rightarrow> string" where
  "Policy_String p = p_name p"

section \<open>Revisions\<close>

definition policyArchive :: "('w, 'z) client_scheme \<Rightarrow> string \<Rightarrow> string" where
  "policyArchive c name = prefixed c [rootPolicyArchive, name]"

definition policyArchiveEntry :: "('w, 'z) client_scheme \<Rightarrow> string \<Rightarrow> string \<Rightarrow> string" where
  "policyArchiveEntry c name timestamp = prefixed c [rootPolicyArchive, name, timestamp]"

definition unix_time :: "int \<Rightarrow> string" where
  "unix_time ns = format_int (ns div second)"

definition etcd_set :: "('w, 'z) client_scheme \<Rightarrow> string \<Rightarrow> string \<Rightarrow> set_opts \<Rightarrow> ('w, goerr, unit) io" where
  "etcd_set c k v opt = attempt (kv_set c k v opt) (\<lambda>e. fail (EtcdToErrored e)) (\<lambda>_. ret ())"

definition CreatePolicyRevision :: "('w, 'z) host_scheme \<Rightarrow> string \<Rightarrow> string \<Rightarrow> ('w, goerr, unit) io" where
  "CreatePolicyRevision c name policy w =
     (let (now, w1) = h_now c w
      in etcd_set c (policyArchiveEntry c name (unix_time now)) policy set_nil w1)"

definition ListPolicyRevisions :: "('w, 'z) client_scheme \<Rightarrow> string \<Rightarrow> ('w, goerr, string list) io" where
  "ListPolicyRevisions c name =
     attempt (kv_get c (policyArchive c name) \<lparr>go_recursive = False, go_sort = True, go_quorum = True\<rparr>)
       (\<lambda>e. fail (EtcdToErrored e))
       (\<lambda>n. ret (map (\<lambda>m. snd (path_split (n_key m))) (n_nodes n)))"

definition cfg_GetPolicyRevision :: "('w, 'z) client_scheme \<Rightarrow> string \<Rightarrow> string \<Rightarrow> ('w, goerr, string) io" where
  "cfg_GetPolicyRevision c name revision =
     attempt (kv_get c (policyArchiveEntry c name revision) \<lparr>go_recursive = False, go_sort = False, go_quorum = True\<rparr>)
       (\<lambda>e. fail (EtcdToErrored e))
       (\<lambda>n. ret (n_value n))"

section \<open>Policies\<close>

definition policy_key :: "('w, 'z) client_scheme \<Rightarrow> string \<Rightarrow> string" where
  "policy_key c name = prefixed c [rootPolicy, name]"

definition policy_text :: "Policy \<Rightarrow> string" where
  "policy_text p = render (policy_json p)"

text \<open>The revision is written first; the directory of the policy's volumes is made without looking at the answer.\<close>

definition cfg_PublishPolicy :: "('w, 'z) host_scheme \<Rightarrow> string \<Rightarrow> Policy \<Rightarrow> ('w, goerr, unit) io" where
  "cfg_PublishPolicy c name cfg =
     andThen (lift (Policy_Validate c (cfg\<lparr>p_name := name\<rparr>))) (\<lambda>p.
     andThen (CreatePolicyRevision c name (policy_text p)) (\<lambda>_.
     regardless (kv_set c (prefixed c [rootVolume, name]) [] (set_nil\<lparr>so_dir := True\<rparr>))
       (etcd_set c (policy_key c name) (policy_text p) set_nil)))"

definition cfg_DeletePolicy :: "('w, 'z) client_scheme \<Rightarrow> string \<Rightarrow> ('w, goerr, unit) io" where
  "cfg_DeletePolicy c name =
     attempt (kv_del c (policy_key c name) del_nil) (\<lambda>e. fail (EtcdToErrored e)) (\<lambda>_. ret ())"

definition cfg_GetPolicy :: "('w, 'z) host_scheme \<Rightarrow> string \<Rightarrow> ('w, goerr, Policy) io" where
  "cfg_GetPolicy c name =
     (if name = [] then fail (Fresh ''Policy invalid: empty string for name'')
      else attempt (kv_get c (policy_key c name) get_nil) (\<lambda>e. fail (EtcdToErrored e)) (\<lambda>n.
        andThen (lift (unmarshal policy_fields (n_value n) NewPolicy)) (\<lambda>tc.
          lift (Policy_Validate c (tc\<lparr>p_name := name\<rparr>)))))"

fun decode_policies :: "node list \<Rightarrow> Policy list res" where
  "decode_policies [] = Ok []"
| "decode_policies (n # ns) =
     bind_res (unmarshal policy_fields (n_value n) NewPolicy) (\<lambda>p.
     bind_res (decode_policies ns) (\<lambda>ps. Ok (p # ps)))"

definition cfg_ListPolicies :: "('w, 'z) client_scheme \<Rightarrow> ('w, goerr, Policy list) io" where
  "cfg_ListPolicies c =
     attempt (kv_get c (prefixed c [rootPolicy]) \<lparr>go_recursive = True, go_sort = True, go_quorum = False\<rparr>)
       (\<lambda>e. fail (EtcdToErrored e))
       (\<lambda>n. lift (decode_policies (n_nodes n)))"

section \<open>Validation\<close>

lemma Runtime_ValidateJSON_iff: "Runtime_ValidateJSON r = Ok () \<longleftrightarrow> runtime_ok r"
  by (simp add: Runtime_ValidateJSON_def against_def RuntimeSchema_iff)

lemma Policy_ValidateJSON_iff:
  "Policy_ValidateJSON p = Ok () \<longleftrightarrow>
     name_valid (p_name p) \<and> (\<forall>b. p_backends p = Some b \<longrightarrow> backends_ok b) \<and>
     p_backend p \<in> {[], ''ceph'', ''nfs''} \<and> (p_backends p = None \<longrightarrow> p_backend p \<noteq> []) \<and> runtime_ok (p_runtime p)"
  unfolding Policy_ValidateJSON_def bind_res_Ok_iff Runtime_ValidateJSON_iff
  by (auto simp: against_def PolicySchema_iff split: if_splits)

lemma ValidateJSON_cases:
  "Policy_ValidateJSON p = Ok () \<or> Policy_ValidateJSON p = Err combineErrors"
  by (auto simp: Policy_ValidateJSON_def Runtime_ValidateJSON_def against_def)

text \<open>The declarative reading of the validation.\<close>

definition policy_ok :: "('w, 'z) host_scheme \<Rightarrow> Policy \<Rightarrow> bool" where
  "policy_ok c p \<longleftrightarrow>
     name_valid (p_name p) \<and> runtime_ok (p_runtime p) \<and> p_filesystems p \<noteq> None \<and>
     p_backend p \<in> {[], ''ceph'', ''nfs''} \<and>
     (\<exists>b. p_backends p = Some b \<and> backends_ok b \<and>
        (bd_crud b \<noteq> [] \<longrightarrow> 0 < fst (ActualSize c (p_create p)) \<and> snd (ActualSize c (p_create p)) = None))"

lemma defaultDrivers_ok: "map_of defaultDrivers k = Some b \<Longrightarrow> backends_ok b"
  by (auto simp: defaultDrivers_def backends_ok_def split: if_splits)

lemma with_filesystems_fields [simp]:
  "p_name (with_filesystems p) = p_name p" "p_runtime (with_filesystems p) = p_runtime p"
  "p_backends (with_filesystems p) = p_backends p" "p_backend (with_filesystems p) = p_backend p"
  "p_create (with_filesystems p) = p_create p" "p_driver (with_filesystems p) = p_driver p"
  "p_filesystems (with_filesystems p) \<noteq> None" "p_unlocked (with_filesystems p) = p_unlocked p"
  by (simp_all add: with_filesystems_def)

lemma chosen_backends_fs [simp]: "chosen_backends (with_filesystems p) = chosen_backends p"
  by (cases "p_backends p") (simp_all add: chosen_backends_def with_filesystems_def)

lemma Validate_result:
  assumes "Policy_Validate c p = Ok q"
  shows "Policy_ValidateJSON (with_filesystems p) = Ok ()"
    "\<exists>b. chosen_backends p = Ok b \<and> q = (with_filesystems p)\<lparr>p_backends := Some b\<rparr> \<and>
         (bd_crud b \<noteq> [] \<longrightarrow> 0 < fst (ActualSize c (p_create p)) \<and> snd (ActualSize c (p_create p)) = None)"
proof -
  show "Policy_ValidateJSON (with_filesystems p) = Ok ()"
    using assms ValidateJSON_cases [of "with_filesystems p"] by (auto simp: Policy_Validate_def Let_def)
  then obtain b where "chosen_backends p = Ok b"
      "(let (size, err) = ActualSize c (p_create p) in
          if bd_crud b \<noteq> [] \<and> (size = 0 \<or> err \<noteq> None)
          then Err (Combine_opt (Fresh ''Size set to zero for non-empty CRUD backend'') err)
          else Ok ((with_filesystems p)\<lparr>p_backends := Some b\<rparr>)) = Ok q"
    using assms by (simp add: Policy_Validate_def bind_res_Ok_iff) blast
  then show "\<exists>b. chosen_backends p = Ok b \<and> q = (with_filesystems p)\<lparr>p_backends := Some b\<rparr> \<and>
         (bd_crud b \<noteq> [] \<longrightarrow> 0 < fst (ActualSize c (p_create p)) \<and> snd (ActualSize c (p_create p)) = None)"
    by (cases "ActualSize c (p_create p)") (auto split: if_splits)
qed

lemma Validate_ok:
  assumes "Policy_Validate c p = Ok q"
  shows "policy_ok c q"
proof -
  obtain b where b: "chosen_backends p = Ok b" "q = (with_filesystems p)\<lparr>p_backends := Some b\<rparr>"
      "bd_crud b \<noteq> [] \<longrightarrow> 0 < fst (ActualSize c (p_create p)) \<and> snd (ActualSize c (p_create p)) = None"
    using Validate_result(2) [OF assms] by blast
  have j: "name_valid (p_name p) \<and> (\<forall>b. p_backends p = Some b \<longrightarrow> backends_ok b) \<and>
     p_backend p \<in> {[], ''ceph'', ''nfs''} \<and> (p_backends p = None \<longrightarrow> p_backend p \<noteq> []) \<and> runtime_ok (p_runtime p)"
    using Validate_result(1) [OF assms] by (simp add: Policy_ValidateJSON_iff)
  have "backends_ok b"
    using b(1) j defaultDrivers_ok by (auto simp: chosen_backends_def split: option.splits)
  then show ?thesis using j b by (simp add: policy_ok_def)
qed

text \<open>A policy that has passed passes again unchanged.\<close>

lemma policy_ok_Validate:
  assumes "policy_ok c q"
  shows "Policy_Validate c q = Ok q"
proof -
  obtain b where b: "p_backends q = Some b" "backends_ok b"
      "bd_crud b \<noteq> [] \<longrightarrow> 0 < fst (ActualSize c (p_create q)) \<and> snd (ActualSize c (p_create q)) = None"
    using assms by (auto simp: policy_ok_def)
  have f: "with_filesystems q = q" using assms by (simp add: policy_ok_def with_filesystems_def)
  have "Policy_ValidateJSON q = Ok ()"
    using assms b by (auto simp: Policy_ValidateJSON_iff policy_ok_def)
  moreover have "q\<lparr>p_backends := Some b\<rparr> = q" using b(1) by simp
  ultimately show ?thesis
    using b by (auto simp: Policy_Validate_def f chosen_backends_def Let_def split: prod.splits)
qed

lemma Validate_fits:
  assumes "policy_fits p" "Policy_Validate c p = Ok q"
  shows "policy_fits q"
proof -
  have "smap_ok defaultFilesystems" by (simp add: defaultFilesystems_def smap_ok_def)
  with assms(1) have "policy_fits (with_filesystems p)"
    by (simp add: policy_fits_def with_filesystems_def smap_fits_def)
  with Validate_result(2) [OF assms(2)] show ?thesis by (auto simp: policy_fits_def)
qed

section \<open>Keys\<close>

lemma name_valid_plain: "name_valid s \<Longrightarrow> plain_seg s"
  by (auto simp: name_valid_def plain_seg_def)

lemma archive_not_policy:
  assumes "wf_prefix (c_prefix c)" "name_ok name" "name_ok n" "name_ok ts"
  shows "policyArchiveEntry c n ts \<noteq> policy_key c name"
  unfolding policyArchiveEntry_def policy_key_def by (rule prefixed_apart) (use assms in \<open>simp_all add: root_defs plain_seg_def\<close>)

lemma volume_dir_not_policy:
  assumes "wf_prefix (c_prefix c)" "name_ok name" "name_ok n"
  shows "prefixed c [rootVolume, n] \<noteq> policy_key c name"
  unfolding policy_key_def by (rule prefixed_apart) (use assms in \<open>simp_all add: root_defs plain_seg_def\<close>)

lemma volume_dir_not_archive:
  assumes "wf_prefix (c_prefix c)" "name_ok name" "name_ok n" "name_ok ts"
  shows "prefixed c [rootVolume, n] \<noteq> policyArchiveEntry c name ts"
  unfolding policyArchiveEntry_def by (rule prefixed_apart) (use assms in \<open>simp_all add: root_defs plain_seg_def\<close>)

lemma format_int_plain: "name_ok (format_int i)"
proof -
  have d: "CHR ''/'' \<notin> set (format_nat n)" "format_nat n \<noteq> ''.''" "format_nat n \<noteq> ''..''" for n
    using format_nat_digits [of n] by (auto simp: list_all_iff is_digit_def)
  then have "plain_seg (format_int i)" by (auto simp: plain_seg_def format_int_def)
  then show ?thesis by (rule plain_name_ok)
qed

section \<open>The calls on a store that keeps etcd's promises\<close>

lemma etcd_set_OkE:
  assumes "etcd_set c k v opt w = (Ok (), w')"
  obtains n where "kv_set c k v opt w = (Ok n, w')"
  using assms by (auto simp: etcd_set_def elim!: attempt_OkE)

lemma regardless_OkE:
  assumes "regardless m k w = (Ok y, w')"
  obtains r w1 where "m w = (r, w1)" "k w1 = (Ok y, w')" "r \<noteq> Hang" "\<And>p. r \<noteq> Panic p"
  using assms by (cases "m w") (auto simp: regardless_def elim!: attempt_OkE)

lemma cfg_PublishPolicy_OkE:
  assumes "cfg_PublishPolicy c name p w = (Ok (), w')"
  obtains q w1 w2 r n where "Policy_Validate c (p\<lparr>p_name := name\<rparr>) = Ok q"
    "CreatePolicyRevision c name (policy_text q) w = (Ok (), w1)"
    "kv_set c (prefixed c [rootVolume, name]) [] (set_nil\<lparr>so_dir := True\<rparr>) w1 = (r, w2)"
    "kv_set c (policy_key c name) (policy_text q) set_nil w2 = (Ok n, w')"
  using assms unfolding cfg_PublishPolicy_def
  by (auto elim!: lift_OkE andThen_OkE regardless_OkE etcd_set_OkE intro: that)

context etcd begin

text \<open>A write through \<open>etcd_set\<close>: success writes the key; whatever the outcome no other key changes.\<close>

lemma etcd_set_ok:
  assumes "etcd_set c k v set_nil w = (Ok (), w')"
  shows "fval w' = (fval w)(k \<mapsto> v)"
proof -
  obtain n where "kv_set c k v set_nil w = (Ok n, w')" using assms by (rule etcd_set_OkE)
  then show ?thesis by (rule set_ok [THEN conjunct2]) (simp add: set_nil_def)
qed

lemma etcd_set_any:
  assumes "etcd_set c k v set_nil w = (r, w')"
  shows "fval w' = fval w \<or> fval w' = (fval w)(k \<mapsto> v)"
proof -
  obtain r1 w1 where s: "kv_set c k v set_nil w = (r1, w1)" by (cases "kv_set c k v set_nil w")
  have nd: "\<not> so_dir set_nil" by (simp add: set_nil_def)
  from s show ?thesis
  proof (cases rule: set_cases)
    case (1 n)
    then show ?thesis using assms s set_ok [of k v set_nil w n w1] nd by (auto simp: etcd_set_def)
  next
    case (2 e)
    then show ?thesis using assms s set_unknown [of k v set_nil w e w1] nd by (auto simp: etcd_set_def)
  qed
qed

lemma regardless_set:
  assumes "kv_set c k v opt w = (r, w')"
  shows "regardless (kv_set c k v opt) m w = m w'"
  by (rule set_cases [OF assms]) (use assms in auto)

lemma dir_keeps:
  assumes "kv_set c d [] (set_nil\<lparr>so_dir := True\<rparr>) w = (r, w')" "k \<noteq> d"
  shows "fval w' k = fval w k"
  using set_dir [OF assms(1)] assms(2) by auto

end

context etcd_up begin

lemma get_file:
  assumes "fval w k = Some x"
  obtains n w' where "kv_get c k g w = (Ok n, w')" "n_value n = x" "fval w' = fval w"
  using get_up [OF assms, of g] get_keeps by blast

end

lemma get_published_policy:
  assumes "etcd_up c fval free" "name \<noteq> []" "policy_fits q" "policy_ok c q" "p_name q = name"
    and "fval w (policy_key c name) = Some (policy_text q)"
  shows "\<exists>w2. cfg_GetPolicy c name w = (Ok q, w2) \<and> fval w2 = fval w"
proof -
  obtain n w2 where g: "kv_get c (policy_key c name) get_nil w = (Ok n, w2)" "n_value n = policy_text q" "fval w2 = fval w"
    using etcd_up.get_file [OF assms(1,6)] by blast
  have u: "unmarshal policy_fields (n_value n) NewPolicy = Ok q"
    unfolding g(2) policy_text_def by (rule unmarshal_render) (simp_all add: fill_policy assms(3))
  have "q\<lparr>p_name := name\<rparr> = q" using assms(5) by simp
  then have "cfg_GetPolicy c name w = (Ok q, w2)"
    using g(1) u policy_ok_Validate [OF assms(4)] assms(2) by (simp add: cfg_GetPolicy_def)
  with g(3) show ?thesis by blast
qed

text \<open>The archive entry of the revision \<open>ts\<close> holds the text that the policy's key has.\<close>

definition archived :: "('w, 'z) client_scheme \<Rightarrow> ('w \<Rightarrow> string \<Rightarrow> string option) \<Rightarrow> 'w \<Rightarrow> string \<Rightarrow> bool" where
  "archived c fval w name \<longleftrightarrow>
     (\<exists>ts. fval w (policyArchiveEntry c name ts) = fval w (policy_key c name))"

lemma CreatePolicyRevision_ok:
  assumes "etcd c fval" "clock c clk" "CreatePolicyRevision c name t w = (Ok (), w')"
  shows "fval w' = (fval w)(policyArchiveEntry c name (unix_time (clk w)) \<mapsto> t)"
  using etcd.etcd_set_ok [OF assms(1)] assms(3) clock.now_run [OF assms(2)]
  by (simp add: CreatePolicyRevision_def)

lemma CreatePolicyRevision_any:
  assumes "etcd c fval" "clock c clk" "CreatePolicyRevision c name t w = (r, w')"
  shows "fval w' = fval w \<or> fval w' = (fval w)(policyArchiveEntry c name (unix_time (clk w)) \<mapsto> t)"
  using etcd.etcd_set_any [OF assms(1)] assms(3) clock.now_run [OF assms(2)]
  by (simp add: CreatePolicyRevision_def)

text \<open>What \<open>PublishPolicy\<close> can have done, success or not.\<close>

lemma cfg_PublishPolicy_effects:
  assumes "etcd c fval" "clock c clk" "cfg_PublishPolicy c name p w = (r, w')"
    and "wf_prefix (c_prefix c)" "name_ok name"
    and "fval w' (policy_key c name) \<noteq> fval w (policy_key c name)"
  shows "archived c fval w' name"
proof -
  let ?k = "policy_key c name" and ?d = "prefixed c [rootVolume, name]"
  let ?a = "policyArchiveEntry c name (unix_time (clk w))"
  have ak: "?a \<noteq> ?k" by (rule archive_not_policy) (use assms(4,5) in \<open>simp_all add: unix_time_def format_int_plain\<close>)
  have dk: "?k \<noteq> ?d" "?a \<noteq> ?d"
    using volume_dir_not_policy volume_dir_not_archive assms(4,5) format_int_plain
    by (metis unix_time_def)+
  show ?thesis
  proof (cases "Policy_Validate c (p\<lparr>p_name := name\<rparr>)")
    case (Ok q)
    obtain r1 w1 where rev: "CreatePolicyRevision c name (policy_text q) w = (r1, w1)" by fastforce
    show ?thesis
    proof (cases "r1 = Ok ()")
      case True
      obtain r2 w2 where d: "kv_set c ?d [] (set_nil\<lparr>so_dir := True\<rparr>) w1 = (r2, w2)" by fastforce
      have a1: "fval w1 = (fval w)(?a \<mapsto> policy_text q)"
        by (rule CreatePolicyRevision_ok [OF assms(1,2)]) (use rev True in simp)
      have kept: "fval w2 x = fval w1 x" if "x \<noteq> ?d" for x by (rule etcd.dir_keeps [OF assms(1) d that])
      have "etcd_set c ?k (policy_text q) set_nil w2 = (r, w')"
        using assms(3) Ok rev True by (simp add: cfg_PublishPolicy_def etcd.regardless_set [OF assms(1) d])
      from etcd.etcd_set_any [OF assms(1) this] show ?thesis
        unfolding archived_def
        by (rule disjE) (use assms(6) kept [OF dk(1)] kept [OF dk(2)] a1 ak in \<open>auto intro!: exI [of _ "unix_time (clk w)"]\<close>)
    next
      case False
      then have "w' = w1" using assms(3) Ok rev by (cases r1) (auto simp: cfg_PublishPolicy_def)
      with CreatePolicyRevision_any [OF assms(1,2) rev] assms(6) ak show ?thesis by auto
    qed
  qed (use assms(3,6) in \<open>simp_all add: cfg_PublishPolicy_def\<close>)
qed

text \<open>What was published is what is read.\<close>

lemma publish_then_get:
  assumes "etcd_up c fval free" "policy_fits p" "cfg_PublishPolicy c name p w = (Ok (), w1)"
  shows "\<exists>q w2. cfg_GetPolicy c name w1 = (Ok q, w2) \<and> Policy_Validate c (p\<lparr>p_name := name\<rparr>) = Ok q \<and>
           p_name q = name \<and> policy_ok c q"
proof -
  have e: "etcd c fval" using assms(1) by (simp add: etcd_up_def)
  obtain q w2 n where q: "Policy_Validate c (p\<lparr>p_name := name\<rparr>) = Ok q"
      and s: "kv_set c (policy_key c name) (policy_text q) set_nil w2 = (Ok n, w1)"
    using assms(3) by (elim cfg_PublishPolicy_OkE)
  have ok: "policy_ok c q" by (rule Validate_ok [OF q])
  have nm: "p_name q = name" using Validate_result(2) [OF q] by auto
  have "name \<noteq> []" using ok nm by (auto simp: policy_ok_def name_valid_def)
  have "policy_fits (p\<lparr>p_name := name\<rparr>)" using assms(2) by (simp add: policy_fits_def)
  then have fits: "policy_fits q" by (rule Validate_fits [OF _ q])
  have "fval w1 (policy_key c name) = Some (policy_text q)"
    using etcd.set_ok [OF e s] by (simp add: set_nil_def)
  from get_published_policy [OF assms(1) \<open>name \<noteq> []\<close> fits ok nm this] q ok nm show ?thesis by blast
qed

section \<open>Properties\<close>

text \<open>
  C12. The validation of a policy: it accepts exactly the policies with a name that is one path
  element without dots, known backends (given or through the backend's preset), a usable snapshot
  schedule when snapshots are on, and a size above zero when volumes are to be created; what it
  yields has every default filled in and passes again unchanged.
\<close>

theorem policy_validation:
  "((\<exists>q. Policy_Validate c p = Ok q) \<longleftrightarrow>
      name_valid (p_name p) \<and> runtime_ok (p_runtime p) \<and> p_backend p \<in> {[], ''ceph'', ''nfs''} \<and>
      (\<exists>b. chosen_backends p = Ok b \<and> backends_ok b \<and>
         (bd_crud b \<noteq> [] \<longrightarrow> 0 < fst (ActualSize c (p_create p)) \<and> snd (ActualSize c (p_create p)) = None))) \<and>
   (\<forall>q. Policy_Validate c p = Ok q \<longrightarrow> policy_ok c q \<and> Policy_Validate c q = Ok q)"
proof (rule conjI; (rule iffI)?)
  assume "\<exists>q. Policy_Validate c p = Ok q"
  then obtain q where q: "Policy_Validate c p = Ok q" ..
  show "name_valid (p_name p) \<and> runtime_ok (p_runtime p) \<and> p_backend p \<in> {[], ''ceph'', ''nfs''} \<and>
      (\<exists>b. chosen_backends p = Ok b \<and> backends_ok b \<and>
         (bd_crud b \<noteq> [] \<longrightarrow> 0 < fst (ActualSize c (p_create p)) \<and> snd (ActualSize c (p_create p)) = None))"
    using Validate_result [OF q] Validate_ok [OF q] by (auto simp: Policy_ValidateJSON_iff policy_ok_def)
next
  assume h: "name_valid (p_name p) \<and> runtime_ok (p_runtime p) \<and> p_backend p \<in> {[], ''ceph'', ''nfs''} \<and>
      (\<exists>b. chosen_backends p = Ok b \<and> backends_ok b \<and>
         (bd_crud b \<noteq> [] \<longrightarrow> 0 < fst (ActualSize c (p_create p)) \<and> snd (ActualSize c (p_create p)) = None))"
  then have "Policy_ValidateJSON (with_filesystems p) = Ok ()"
    by (auto simp: Policy_ValidateJSON_iff chosen_backends_def defaultDrivers_def split: option.splits)
  then show "\<exists>q. Policy_Validate c p = Ok q"
    using h by (auto simp: Policy_Validate_def Let_def split: prod.splits)
next
  show "\<forall>q. Policy_Validate c p = Ok q \<longrightarrow> policy_ok c q \<and> Policy_Validate c q = Ok q"
    using Validate_ok policy_ok_Validate by blast
qed

theorem policy_validation_witness:
  "Policy_Validate (machine_host 1) (NewPolicy\<lparr>p_name := ''gold'', p_backend := ''nfs''\<rparr>) =
     Ok (NewPolicy\<lparr>p_name := ''gold'', p_backend := ''nfs'', p_filesystems := Some defaultFilesystems,
          p_backends := Some \<lparr>bd_crud = [], bd_mount = ''nfs'', bd_snapshot = []\<rparr>\<rparr>)"
proof -
  let ?p = "NewPolicy\<lparr>p_name := ''gold'', p_backend := ''nfs''\<rparr>"
  let ?b = "\<lparr>bd_crud = [], bd_mount = ''nfs'', bd_snapshot = []\<rparr>"
  have b: "chosen_backends ?p = Ok ?b" by (simp add: chosen_backends_def NewPolicy_def defaultDrivers_def)
  have "name_valid (p_name ?p) \<and> runtime_ok (p_runtime ?p) \<and> p_backend ?p \<in> {[], ''ceph'', ''nfs''} \<and>
      (\<exists>b. chosen_backends ?p = Ok b \<and> backends_ok b \<and>
         (bd_crud b \<noteq> [] \<longrightarrow> 0 < fst (ActualSize (machine_host 1) (p_create ?p)) \<and>
            snd (ActualSize (machine_host 1) (p_create ?p)) = None))"
    using b by (simp add: name_valid_def runtime_ok_def backends_ok_def NewPolicy_def zero_defs)
  then obtain q where q: "Policy_Validate (machine_host 1) ?p = Ok q"
    using policy_validation [of "machine_host 1" ?p] by blast
  then show ?thesis
    using Validate_result(2) [OF q] b by (simp add: with_filesystems_def NewPolicy_def)
qed

text \<open>
  A policy that was published is read back: \<open>GetPolicy\<close> yields exactly the validated policy, with
  its defaults filled in, under its name.
\<close>

theorem policy_roundtrip:
  assumes "etcd_up c fval free" "policy_fits p" "cfg_PublishPolicy c name p w = (Ok (), w1)"
  shows "\<exists>q w2. cfg_GetPolicy c name w1 = (Ok q, w2) \<and> Policy_Validate c (p\<lparr>p_name := name\<rparr>) = Ok q \<and>
           p_name q = name \<and> policy_ok c q"
  by (rule publish_then_get [OF assms])

definition gold :: Policy where
  "gold = NewPolicy\<lparr>p_backend := ''ceph'', p_create := zero_create\<lparr>co_size := ''20000000''\<rparr>,
     p_driver := Some [(''pool'', ''rbd'')]\<rparr>"

lemma gold_published:
  "fst (cfg_PublishPolicy (machine_host 1) ''gold'' gold machine_start) = Ok ()"
  by code_simp

theorem policy_roundtrip_witness:
  "\<exists>q w2. cfg_GetPolicy (machine_host 1) ''gold'' (snd (cfg_PublishPolicy (machine_host 1) ''gold'' gold machine_start))
       = (Ok q, w2) \<and> p_name q = ''gold''"
proof -
  have p: "cfg_PublishPolicy (machine_host 1) ''gold'' gold machine_start =
      (Ok (), snd (cfg_PublishPolicy (machine_host 1) ''gold'' gold machine_start))"
    using gold_published by (metis prod.collapse)
  have "policy_fits gold"
    by (simp add: gold_def policy_fits_def smap_fits_def smap_ok_def runtime_fits_def NewPolicy_def zero_defs)
  from policy_roundtrip [OF machine.etcd_up_axioms this p] show ?thesis by blast
qed

text \<open>
  C13. However the call ends, if \<open>PublishPolicy\<close> has changed the policy's key then the archive
  holds a revision with the same text: a published policy always has its revision recorded.
\<close>

theorem policy_has_revision:
  assumes "etcd c fval" "clock c clk" "cfg_PublishPolicy c name p w = (r, w')"
    and "wf_prefix (c_prefix c)" "name_ok name"
    and "fval w' (policy_key c name) \<noteq> fval w (policy_key c name)"
  shows "\<exists>ts. fval w' (policyArchiveEntry c name ts) = fval w' (policy_key c name)"
  using cfg_PublishPolicy_effects [OF assms] by (simp add: archived_def)

theorem policy_has_revision_witness:
  "\<exists>ts. mem_file (snd (cfg_PublishPolicy (machine_host 1) ''gold'' gold machine_start)) (policyArchiveEntry (machine_host 1) ''gold'' ts)
     = mem_file (snd (cfg_PublishPolicy (machine_host 1) ''gold'' gold machine_start)) (policy_key (machine_host 1) ''gold'')"
proof (rule policy_has_revision [OF machine.etcd_axioms machine.clock_axioms])
  show "cfg_PublishPolicy (machine_host 1) ''gold'' gold machine_start =
      (fst (cfg_PublishPolicy (machine_host 1) ''gold'' gold machine_start),
       snd (cfg_PublishPolicy (machine_host 1) ''gold'' gold machine_start))" by simp
  have "wf_prefix ''/volplugin''" by code_simp
  then show "wf_prefix (c_prefix (machine_host 1))" by simp
  show "name_ok ''gold''" by code_simp
  have "mem_file machine_start (policy_key (machine_host 1) ''gold'') = None"
    by (simp add: mem_file_def machine_start_def)
  moreover have "mem_file (snd (cfg_PublishPolicy (machine_host 1) ''gold'' gold machine_start))
      (policy_key (machine_host 1) ''gold'') \<noteq> None" by code_simp
  ultimately show "mem_file (snd (cfg_PublishPolicy (machine_host 1) ''gold'' gold machine_start))
      (policy_key (machine_host 1) ''gold'') \<noteq> mem_file machine_start (policy_key (machine_host 1) ''gold'')" by simp
qed

end
