(* ===== verification/Merge.thy ===== *)
theory Merge imports Config_Types begin

text \<open>
  Package \<open>merge\<close>: docker's flat options merged into the nested structs. The code walks a struct by
  reflection; here the struct is the tree of its fields with their \<open>merge\<close> tags and kinds, and the
  walk is the recursion over it. The policy is the struct the repository merges into.
\<close>

section \<open>Reflected values\<close>

datatype rval =
    RString string
  | RBool bool
  | RInt int
  | RInt64 int
  | RUint nat
  | RUint64 nat
  | RPtr "rval option"
  | ROther
  | RStruct "(string \<times> rval) list"

section \<open>casts.go\<close>

definition cast_failed :: goerr where
  "cast_failed = Plain ''strconv: parsing failed''"

definition of_parse :: "('a \<Rightarrow> rval) \<Rightarrow> 'a option \<Rightarrow> rval res" where
  "of_parse f r = (case r of None \<Rightarrow> Err cast_failed | Some x \<Rightarrow> Ok (f x))"

definition castString :: "string \<Rightarrow> rval res" where "castString val = Ok (RString val)"
definition castUint32 :: "string \<Rightarrow> rval res" where "castUint32 val = of_parse RUint (parse_uint 32 val)"
definition castUint64 :: "string \<Rightarrow> rval res" where "castUint64 val = of_parse RUint64 (parse_uint 64 val)"
definition castInt32 :: "string \<Rightarrow> rval res" where "castInt32 val = of_parse RInt (parse_int 32 val)"
definition castInt64 :: "string \<Rightarrow> rval res" where "castInt64 val = of_parse RInt64 (parse_int 64 val)"
definition castBool :: "string \<Rightarrow> rval res" where "castBool val = of_parse RBool (parse_bool val)"

text \<open>A pointer is followed; the element of a nil pointer cannot be set.\<close>

fun setValueWithType :: "rval \<Rightarrow> string \<Rightarrow> rval res" where
  "setValueWithType (RString s) val = castString val"
| "setValueWithType (RBool b) val = castBool val"
| "setValueWithType (RInt i) val = castInt32 val"
| "setValueWithType (RInt64 i) val = castInt64 val"
| "setValueWithType (RUint n) val = castUint32 val"
| "setValueWithType (RUint64 n) val = castUint64 val"
| "setValueWithType (RPtr None) val = Err (Fresh ''Cannot set value for struct element'')"
| "setValueWithType (RPtr (Some x)) val =
     (case setValueWithType x val of Ok y \<Rightarrow> Ok (RPtr (Some y)) | Err e \<Rightarrow> Err e | Panic p \<Rightarrow> Panic p | Hang \<Rightarrow> Hang)"
| "setValueWithType ROther val = Err (Fresh ''Could not find appropriate type'')"
| "setValueWithType (RStruct fs) val = Err (Fresh ''Could not find appropriate type'')"

section \<open>merge.go\<close>

definition in_field :: "string \<times> rval \<Rightarrow> (string \<times> rval) list res \<Rightarrow> (string \<times> rval) list res" where
  "in_field f r = (case r of Ok fs \<Rightarrow> Ok (f # fs) | Err e \<Rightarrow> Err e | Panic p \<Rightarrow> Panic p | Hang \<Rightarrow> Hang)"

definition put_field :: "string \<Rightarrow> (string \<times> rval) list \<Rightarrow> rval res \<Rightarrow> (string \<times> rval) list res" where
  "put_field tag fs r = (case r of Ok x \<Rightarrow> Ok ((tag, x) # fs) | Err e \<Rightarrow> Err e | Panic p \<Rightarrow> Panic p | Hang \<Rightarrow> Hang)"

text \<open>
  A struct with fields is searched; an error of the search, whatever it is, means no match there.
  Any other field is set when its tag is the key.
\<close>

fun setKey :: "(string \<times> rval) list \<Rightarrow> string \<Rightarrow> string \<Rightarrow> (string \<times> rval) list res" where
  "setKey [] key val = Err (Fresh ''Key not found'')"
| "setKey ((tag, RStruct (f # fs)) # rest) key val =
     (case setKey (f # fs) key val of
        Ok sub \<Rightarrow> Ok ((tag, RStruct sub) # rest)
      | Err e \<Rightarrow> in_field (tag, RStruct (f # fs)) (setKey rest key val)
      | Panic p \<Rightarrow> Panic p
      | Hang \<Rightarrow> Hang)"
| "setKey ((tag, x) # rest) key val =
     (if tag = key then put_field tag rest (setValueWithType x val)
      else in_field (tag, x) (setKey rest key val))"

text \<open>\<open>Opts\<close> over the options in the order of the range.\<close>

fun Opts :: "(string \<times> rval) list \<Rightarrow> (string \<times> string) list \<Rightarrow> (string \<times> rval) list res" where
  "Opts t [] = Ok t"
| "Opts t ((k, v) # kvs) =
     (case setKey t k v of Ok t' \<Rightarrow> Opts t' kvs | Err e \<Rightarrow> Err e | Panic p \<Rightarrow> Panic p | Hang \<Rightarrow> Hang)"

section \<open>The policy as a reflected struct\<close>

definition create_tree :: "CreateOptions \<Rightarrow> rval" where
  "create_tree c = RStruct [(''size'', RString (co_size c)), (''filesystem'', RString (co_filesystem c))]"

definition runtime_tree :: "RuntimeOptions \<Rightarrow> rval" where
  "runtime_tree r = RStruct
     [(''snapshots'', RBool (ro_use_snapshots r)),
      ([], RStruct [(''snapshots.frequency'', RString (sc_frequency (ro_snapshot r))),
                    (''snapshots.keep'', RUint (sc_keep (ro_snapshot r)))]),
      ([], RStruct [(''rate-limit.write.bps'', RUint64 (rl_write_bps (ro_rate_limit r))),
                    (''rate-limit.read.bps'', RUint64 (rl_read_bps (ro_rate_limit r)))])]"

definition policy_tree :: "Policy \<Rightarrow> (string \<times> rval) list" where
  "policy_tree p =
     [([], RString (p_name p)), (''unlocked'', RBool (p_unlocked p)), ([], create_tree (p_create p)),
      ([], runtime_tree (p_runtime p)), ([], ROther), ([], ROther), ([], RPtr None), ([], RString (p_backend p))]"

text \<open>The policy after the fields of its tree have been set.\<close>

fun r_string :: "rval \<Rightarrow> string" where
  "r_string (RString s) = s" | "r_string _ = []"

fun r_bool :: "rval \<Rightarrow> bool" where
  "r_bool (RBool b) = b" | "r_bool _ = False"

fun r_nat :: "rval \<Rightarrow> nat" where
  "r_nat (RUint n) = n" | "r_nat (RUint64 n) = n" | "r_nat _ = 0"

fun r_fields :: "rval \<Rightarrow> (string \<times> rval) list" where
  "r_fields (RStruct fs) = fs" | "r_fields _ = []"

definition r_at :: "(string \<times> rval) list \<Rightarrow> nat \<Rightarrow> rval" where
  "r_at t i = snd (t ! i)"

definition policy_of_tree :: "Policy \<Rightarrow> (string \<times> rval) list \<Rightarrow> Policy" where
  "policy_of_tree p t =
     (let c = r_fields (r_at t 2); r = r_fields (r_at t 3); sn = r_fields (r_at r 1); rl = r_fields (r_at r 2)
      in p\<lparr>p_name := r_string (r_at t 0), p_unlocked := r_bool (r_at t 1),
           p_create := \<lparr>co_size = r_string (r_at c 0), co_filesystem = r_string (r_at c 1)\<rparr>,
           p_runtime := \<lparr>ro_use_snapshots = r_bool (r_at r 0),
             ro_snapshot = \<lparr>sc_frequency = r_string (r_at sn 0), sc_keep = r_nat (r_at sn 1)\<rparr>,
             ro_rate_limit = \<lparr>rl_write_bps = r_nat (r_at rl 0), rl_read_bps = r_nat (r_at rl 1)\<rparr>\<rparr>,
           p_backend := r_string (r_at t 7)\<rparr>)"

definition merge_policy :: "Policy \<Rightarrow> (string \<times> string) list \<Rightarrow> Policy res" where
  "merge_policy p kvs =
     (case Opts (policy_tree p) kvs of
        Ok t \<Rightarrow> Ok (policy_of_tree p t) | Err e \<Rightarrow> Err e | Panic m \<Rightarrow> Panic m | Hang \<Rightarrow> Hang)"

section \<open>Lemmas\<close>

text \<open>The options a policy takes, with the values each accepts; an option without a name sets the name.\<close>

definition opt_accepts :: "string \<Rightarrow> string \<Rightarrow> bool" where
  "opt_accepts k v \<longleftrightarrow>
     k \<in> {[], ''size'', ''filesystem'', ''snapshots.frequency''} \<or>
     (k \<in> {''unlocked'', ''snapshots''} \<and> parse_bool v \<noteq> None) \<or>
     (k = ''snapshots.keep'' \<and> parse_uint 32 v \<noteq> None) \<or>
     (k \<in> {''rate-limit.write.bps'', ''rate-limit.read.bps''} \<and> parse_uint 64 v \<noteq> None)"

text \<open>The policy with the options of a map in it.\<close>

definition opt_val :: "(string \<Rightarrow> string option) \<Rightarrow> string \<Rightarrow> (string \<Rightarrow> 'a option) \<Rightarrow> 'a \<Rightarrow> 'a" where
  "opt_val m k conv old = (case m k of None \<Rightarrow> old | Some v \<Rightarrow> (case conv v of None \<Rightarrow> old | Some x \<Rightarrow> x))"

definition merged :: "Policy \<Rightarrow> (string \<Rightarrow> string option) \<Rightarrow> Policy" where
  "merged p m =
     p\<lparr>p_name := opt_val m [] Some (p_name p),
       p_unlocked := opt_val m ''unlocked'' parse_bool (p_unlocked p),
       p_create := \<lparr>co_size = opt_val m ''size'' Some (co_size (p_create p)),
         co_filesystem = opt_val m ''filesystem'' Some (co_filesystem (p_create p))\<rparr>,
       p_runtime := \<lparr>ro_use_snapshots = opt_val m ''snapshots'' parse_bool (ro_use_snapshots (p_runtime p)),
         ro_snapshot = \<lparr>sc_frequency = opt_val m ''snapshots.frequency'' Some (sc_frequency (ro_snapshot (p_runtime p))),
           sc_keep = opt_val m ''snapshots.keep'' (parse_uint 32) (sc_keep (ro_snapshot (p_runtime p)))\<rparr>,
         ro_rate_limit = \<lparr>rl_write_bps = opt_val m ''rate-limit.write.bps'' (parse_uint 64) (rl_write_bps (ro_rate_limit (p_runtime p))),
           rl_read_bps = opt_val m ''rate-limit.read.bps'' (parse_uint 64) (rl_read_bps (ro_rate_limit (p_runtime p)))\<rparr>\<rparr>\<rparr>"

lemmas cast_defs = castString_def castUint32_def castUint64_def castInt32_def castInt64_def castBool_def
  of_parse_def

lemma policy_tree_back: "policy_of_tree q (policy_tree (merged p m)) = merged (q\<lparr>p_name := p_name p, p_unlocked := p_unlocked p,
    p_create := p_create p, p_runtime := p_runtime p, p_backend := p_backend p\<rparr>) m"
  by (simp add: policy_tree_def create_tree_def runtime_tree_def merged_def policy_of_tree_def r_at_def Let_def
      eval_nat_numeral)

lemma merged_empty [simp]: "merged p Map.empty = p"
  by (simp add: merged_def opt_val_def)

text \<open>One option: the tree of the policy with the option in it, or no such option.\<close>

lemmas policy_walk = policy_tree_def create_tree_def runtime_tree_def in_field_def put_field_def cast_defs

lemma opt_val_one [simp]:
  "opt_val [k \<mapsto> v] k conv old = (case conv v of None \<Rightarrow> old | Some x \<Rightarrow> x)"
  by (simp add: opt_val_def)

lemma opt_val_other: "k' \<noteq> k \<Longrightarrow> opt_val [k \<mapsto> v] k' conv old = old"
  by (simp add: opt_val_def)

lemma setKey_known:
  "setKey (policy_tree p) [] v = Ok (policy_tree (merged p [[] \<mapsto> v]))"
  "setKey (policy_tree p) ''size'' v = Ok (policy_tree (merged p [''size'' \<mapsto> v]))"
  "setKey (policy_tree p) ''filesystem'' v = Ok (policy_tree (merged p [''filesystem'' \<mapsto> v]))"
  "setKey (policy_tree p) ''snapshots.frequency'' v = Ok (policy_tree (merged p [''snapshots.frequency'' \<mapsto> v]))"
  "parse_bool v = Some b \<Longrightarrow> setKey (policy_tree p) ''unlocked'' v = Ok (policy_tree (merged p [''unlocked'' \<mapsto> v]))"
  "parse_bool v = Some b \<Longrightarrow> setKey (policy_tree p) ''snapshots'' v = Ok (policy_tree (merged p [''snapshots'' \<mapsto> v]))"
  "parse_uint 32 v = Some n \<Longrightarrow>
     setKey (policy_tree p) ''snapshots.keep'' v = Ok (policy_tree (merged p [''snapshots.keep'' \<mapsto> v]))"
  "parse_uint 64 v = Some n \<Longrightarrow>
     setKey (policy_tree p) ''rate-limit.write.bps'' v = Ok (policy_tree (merged p [''rate-limit.write.bps'' \<mapsto> v]))"
  "parse_uint 64 v = Some n \<Longrightarrow>
     setKey (policy_tree p) ''rate-limit.read.bps'' v = Ok (policy_tree (merged p [''rate-limit.read.bps'' \<mapsto> v]))"
  by (simp_all add: policy_walk merged_def opt_val_other)

lemma setKey_rejected:
  "parse_bool v = None \<Longrightarrow> setKey (policy_tree p) ''unlocked'' v = Err cast_failed"
  "parse_bool v = None \<Longrightarrow> setKey (policy_tree p) ''snapshots'' v = Err (Fresh ''Key not found'')"
  "parse_uint 32 v = None \<Longrightarrow> setKey (policy_tree p) ''snapshots.keep'' v = Err (Fresh ''Key not found'')"
  "parse_uint 64 v = None \<Longrightarrow> setKey (policy_tree p) ''rate-limit.write.bps'' v = Err (Fresh ''Key not found'')"
  "parse_uint 64 v = None \<Longrightarrow> setKey (policy_tree p) ''rate-limit.read.bps'' v = Err (Fresh ''Key not found'')"
  by (simp_all add: policy_walk)

lemma setKey_unknown:
  assumes "k \<noteq> []" "k \<noteq> ''size''" "k \<noteq> ''filesystem''" "k \<noteq> ''snapshots.frequency''" "k \<noteq> ''unlocked''"
    "k \<noteq> ''snapshots''" "k \<noteq> ''snapshots.keep''" "k \<noteq> ''rate-limit.write.bps''" "k \<noteq> ''rate-limit.read.bps''"
  shows "setKey (policy_tree p) k v = Err (Fresh ''Key not found'')"
  using assms by (simp add: policy_walk)

definition opt_refusal :: "string \<Rightarrow> goerr" where
  "opt_refusal k = (if k = ''unlocked'' then cast_failed else Fresh ''Key not found'')"

lemma setKey_policy:
  "setKey (policy_tree p) k v =
     (if opt_accepts k v then Ok (policy_tree (merged p [k \<mapsto> v])) else Err (opt_refusal k))"
proof -
  consider "k = []" | "k = ''size''" | "k = ''filesystem''" | "k = ''snapshots.frequency''" | "k = ''unlocked''"
    | "k = ''snapshots''" | "k = ''snapshots.keep''" | "k = ''rate-limit.write.bps''" | "k = ''rate-limit.read.bps''"
    | (unknown) "k \<noteq> []" "k \<noteq> ''size''" "k \<noteq> ''filesystem''" "k \<noteq> ''snapshots.frequency''" "k \<noteq> ''unlocked''"
        "k \<noteq> ''snapshots''" "k \<noteq> ''snapshots.keep''" "k \<noteq> ''rate-limit.write.bps''" "k \<noteq> ''rate-limit.read.bps''"
    by metis
  then show ?thesis
  proof cases
    case unknown
    then show ?thesis using setKey_unknown [OF unknown] by (simp add: opt_accepts_def opt_refusal_def)
  qed (cases "parse_bool v"; cases "parse_uint 32 v"; cases "parse_uint 64 v";
      simp add: setKey_known setKey_rejected opt_accepts_def opt_refusal_def)+
qed

lemma opt_val_step:
  "m k = None \<Longrightarrow> opt_val m k' conv (opt_val [k \<mapsto> v] k' conv old) = opt_val (m(k \<mapsto> v)) k' conv old"
  by (cases "k' = k") (simp_all add: opt_val_def)

lemma merged_step:
  assumes "m k = None"
  shows "merged (merged p [k \<mapsto> v]) m = merged p (m(k \<mapsto> v))"
  using assms by (simp add: merged_def opt_val_step)

lemma Opts_policy:
  assumes "distinct (map fst kvs)"
  shows "(\<forall>(k, v) \<in> set kvs. opt_accepts k v) \<Longrightarrow> Opts (policy_tree p) kvs = Ok (policy_tree (merged p (map_of kvs)))"
    and "\<not> (\<forall>(k, v) \<in> set kvs. opt_accepts k v) \<Longrightarrow> \<exists>e. Opts (policy_tree p) kvs = Err e"
  using assms
proof (induction kvs arbitrary: p)
  case Nil
  { case 1 then show ?case by simp }
  { case 2 then show ?case by simp }
next
  case (Cons kv kvs)
  obtain k v where kv: "kv = (k, v)" by (cases kv)
  have new: "map_of kvs k = None" if "distinct (map fst ((k, v) # kvs))"
    using that by (simp add: map_of_eq_None_iff)
  { case 1
    then have "Opts (policy_tree (merged p [k \<mapsto> v])) kvs = Ok (policy_tree (merged (merged p [k \<mapsto> v]) (map_of kvs)))"
      by (intro Cons.IH(1)) (auto simp: kv)
    moreover have "map_of kvs k = None" by (rule new) (use 1 in \<open>simp add: kv\<close>)
    moreover have "map_of ((k, v) # kvs) = (map_of kvs)(k \<mapsto> v)" by (rule ext) simp
    moreover have "Opts (policy_tree p) (kv # kvs) = Opts (policy_tree (merged p [k \<mapsto> v])) kvs"
      using 1 kv by (simp add: setKey_policy)
    ultimately show ?case unfolding kv by (simp only: merged_step) }
  { case 2
    then show ?case using Cons.IH(2) [of "merged p [k \<mapsto> v]"] kv by (auto simp: setKey_policy) }
qed

section \<open>Properties\<close>

text \<open>
  C18. Merging options into a policy: whatever order the range takes the options in, it succeeds
  exactly when each of them is a known option with a value of its type, and the result is the
  policy with those fields set and all others as they were.
\<close>

theorem merge_options:
  assumes "distinct (map fst kvs)"
  shows "((\<forall>(k, v) \<in> set kvs. opt_accepts k v) \<longrightarrow> merge_policy p kvs = Ok (merged p (map_of kvs))) \<and>
         (\<not> (\<forall>(k, v) \<in> set kvs. opt_accepts k v) \<longrightarrow> (\<exists>e. merge_policy p kvs = Err e))"
proof (cases "\<forall>(k, v) \<in> set kvs. opt_accepts k v")
  case True
  then show ?thesis using Opts_policy(1) [OF assms True, of p] by (simp add: merge_policy_def policy_tree_back)
next
  case False
  then show ?thesis using Opts_policy(2) [OF assms False, of p] by (auto simp: merge_policy_def)
qed

theorem merge_options_witness:
  "merge_policy NewPolicy [(''size'', ''10MB''), (''snapshots.keep'', ''5'')] =
     Ok (NewPolicy\<lparr>p_create := zero_create\<lparr>co_size := ''10MB''\<rparr>,
       p_runtime := zero_runtime\<lparr>ro_snapshot := zero_snapshot\<lparr>sc_keep := 5\<rparr>\<rparr>\<rparr>)"
proof -
  let ?kvs = "[(''size'', ''10MB''), (''snapshots.keep'', ''5'')]"
  have p: "parse_uint 32 ''5'' = Some 5" by code_simp
  have d: "distinct (map fst ?kvs)" by simp
  have a: "\<forall>(k, v) \<in> set ?kvs. opt_accepts k v" using p by (simp add: opt_accepts_def)
  have m: "merged NewPolicy (map_of ?kvs) = NewPolicy\<lparr>p_create := zero_create\<lparr>co_size := ''10MB''\<rparr>,
       p_runtime := zero_runtime\<lparr>ro_snapshot := zero_snapshot\<lparr>sc_keep := 5\<rparr>\<rparr>\<rparr>"
    using p by (simp add: merged_def opt_val_def zero_defs)
  from merge_options [OF d, of NewPolicy] a m show ?thesis by simp
qed

end
