(* ===== verification/Config_Volume.thy ===== *)
theory Config_Volume imports Config_Policy Merge begin

text \<open>
  \<open>config/volume.go\<close>: volumes, from the request through the policy and the validation to the two keys
  they are kept under (\<open>create\<close>, written once, and \<open>runtime\<close>), their listing and removal, the signals
  that ask for a snapshot, and the check whether a volume is in use.
\<close>

section \<open>Validation\<close>

text \<open>\<open>ToDriverOptions\<close>\<close>

definition ToDriverOptions :: "('w, 'z) host_scheme \<Rightarrow> Volume \<Rightarrow> int \<Rightarrow> DriverOptions res" where
  "ToDriverOptions c cfg timeout =
     (let (actualSize, err) = ActualSize c (v_create cfg) in
      case err of
        Some e \<Rightarrow> Err e
      | None \<Rightarrow>
          Ok \<lparr>d_source = v_mount cfg,
              d_volume = \<lparr>sv_name = Volume_String cfg, sv_size = actualSize, sv_params = v_driver cfg\<rparr>,
              d_fs = \<lparr>fs_type = co_filesystem (v_create cfg), fs_create_command = []\<rparr>,
              d_timeout = timeout, d_options = None\<rparr>)"

definition validateBackends :: "('w, 'z) host_scheme \<Rightarrow> Volume \<Rightarrow> unit res" where
  "validateBackends c cfg =
     bind_res (ToDriverOptions c cfg second) (\<lambda>opts.
     case v_backends cfg of
       None \<Rightarrow> Panic nil_deref
     | Some b \<Rightarrow>
         bind_res (if bd_crud b \<noteq> [] then bind_res (NewCRUDDriver c (bd_crud b)) (\<lambda>d. cd_validate d opts) else Ok ()) (\<lambda>_.
         bind_res (NewMountDriver c (bd_mount b) backend_MountPath) (\<lambda>d.
         bind_res (md_validate d opts) (\<lambda>_.
         if bd_snapshot b \<noteq> [] then bind_res (NewSnapshotDriver c (bd_snapshot b)) (\<lambda>d. sd_validate d opts) else Ok ()))))"

definition Volume_Validate :: "('w, 'z) host_scheme \<Rightarrow> Volume \<Rightarrow> unit res" where
  "Volume_Validate c cfg =
     (case Volume_ValidateJSON cfg of
        Ok _ \<Rightarrow> validateBackends c cfg
      | Err e \<Rightarrow> Err (Combine ErrJSONValidation e)
      | Panic m \<Rightarrow> Panic m
      | Hang \<Rightarrow> Hang)"

section \<open>Creation and publication\<close>

definition volume_key :: "('w, 'z) client_scheme \<Rightarrow> string \<Rightarrow> string \<Rightarrow> string \<Rightarrow> string" where
  "volume_key c policy name typ = prefixed c [rootVolume, policy, name, typ]"

definition volume_dir :: "('w, 'z) client_scheme \<Rightarrow> string \<Rightarrow> string \<Rightarrow> string" where
  "volume_dir c policy name = prefixed c [rootVolume, policy, name]"

definition runtime_text :: "RuntimeOptions \<Rightarrow> string" where
  "runtime_text r = render (runtime_json r)"

definition volume_text :: "Volume \<Rightarrow> string" where
  "volume_text v = render (volume_json v)"

definition make_volume_dir :: "('w, 'z) client_scheme \<Rightarrow> Volume \<Rightarrow> ('w, goerr, node) io" where
  "make_volume_dir c vc = kv_set c (volume_dir c (v_policy vc) (v_name vc)) [] (set_nil\<lparr>so_dir := True\<rparr>)"

definition PublishVolumeRuntime :: "('w, 'z) client_scheme \<Rightarrow> Volume \<Rightarrow> RuntimeOptions \<Rightarrow> ('w, goerr, unit) io" where
  "PublishVolumeRuntime c vo ro =
     attempt (lift (Runtime_ValidateJSON ro)) (\<lambda>e. fail (Combine ErrJSONValidation e)) (\<lambda>_.
       regardless (make_volume_dir c vo)
         (etcd_set c (volume_key c (v_policy vo) (v_name vo) ''runtime'') (runtime_text ro) set_nil))"

text \<open>
  The mount source is taken out of the request's options, the others are merged into the policy in
  the order of the range.
\<close>

definition request_mount :: "VolumeRequest \<Rightarrow> string" where
  "request_mount rc = lookup_opt (vr_options rc) ''mount''"

definition request_options :: "('w, 'z) host_scheme \<Rightarrow> VolumeRequest \<Rightarrow> (string \<times> string) list" where
  "request_options c rc = (case vr_options rc of None \<Rightarrow> [] | Some m \<Rightarrow> ordered c (smap_del ''mount'' m))"

definition volume_of_policy :: "Policy \<Rightarrow> VolumeRequest \<Rightarrow> Volume" where
  "volume_of_policy p rc =
     \<lparr>v_policy = vr_policy rc, v_name = vr_name rc, v_unlocked = p_unlocked p, v_driver = p_driver p,
      v_mount = request_mount rc, v_create = p_create p, v_runtime = p_runtime p, v_backends = p_backends p\<rparr>"

definition with_filesystem :: "Volume \<Rightarrow> Volume" where
  "with_filesystem v =
     (if co_filesystem (v_create v) = []
      then v\<lparr>v_create := (v_create v)\<lparr>co_filesystem := defaultFilesystem\<rparr>\<rparr> else v)"

definition cfg_CreateVolume :: "('w, 'z) host_scheme \<Rightarrow> VolumeRequest \<Rightarrow> ('w, goerr, Volume) io" where
  "cfg_CreateVolume c rc =
     andThen (cfg_GetPolicy c (vr_policy rc)) (\<lambda>resp.
     andThen (lift (merge_policy resp (request_options c rc))) (\<lambda>merged.
     andThen (lift (Policy_Validate c
       (if p_driver merged = None then merged\<lparr>p_driver := Some []\<rparr> else merged))) (\<lambda>p.
     andThen (lift (Volume_Validate c (volume_of_policy p rc))) (\<lambda>_.
       ret (with_filesystem (volume_of_policy p rc))))))"

text \<open>Any failure of the conditional write is reported as \<open>errors.Exists\<close>.\<close>

definition cfg_PublishVolume :: "('w, 'z) host_scheme \<Rightarrow> Volume \<Rightarrow> ('w, goerr, unit) io" where
  "cfg_PublishVolume c vc =
     andThen (lift (Volume_Validate c vc)) (\<lambda>_.
     regardless (make_volume_dir c vc)
       (attempt (kv_set c (volume_key c (v_policy vc) (v_name vc) ''create'') (volume_text vc)
                  (set_nil\<lparr>so_exist := PrevNoExist\<rparr>))
         (\<lambda>e. fail Exists)
         (\<lambda>_. PublishVolumeRuntime c vc (v_runtime vc))))"

section \<open>Retrieval and removal\<close>

definition GetVolumeRuntime :: "('w, 'z) client_scheme \<Rightarrow> string \<Rightarrow> string \<Rightarrow> ('w, goerr, RuntimeOptions) io" where
  "GetVolumeRuntime c policy name =
     attempt (kv_get c (volume_key c policy name ''runtime'') get_nil) (\<lambda>e. fail (EtcdToErrored e))
       (\<lambda>n. lift (unmarshal runtime_fields (n_value n) zero_runtime))"

definition cfg_GetVolume :: "('w, 'z) host_scheme \<Rightarrow> string \<Rightarrow> string \<Rightarrow> ('w, goerr, Volume) io" where
  "cfg_GetVolume c policy name =
     attempt (kv_get c (volume_key c policy name ''create'') get_nil) (\<lambda>e. fail (EtcdToErrored e)) (\<lambda>n.
       andThen (lift (unmarshal volume_fields (n_value n) zero_volume)) (\<lambda>v.
       andThen (lift (Volume_Validate c v)) (\<lambda>_.
       andThen (GetVolumeRuntime c policy name) (\<lambda>r. ret (v\<lparr>v_runtime := r\<rparr>)))))"

definition cfg_RemoveVolume :: "('w, 'z) client_scheme \<Rightarrow> string \<Rightarrow> string \<Rightarrow> ('w, goerr, unit) io" where
  "cfg_RemoveVolume c policy name =
     attempt (kv_del c (volume_dir c policy name) (del_nil\<lparr>do_recursive := True\<rparr>))
       (\<lambda>e. fail (EtcdToErrored e)) (\<lambda>_. ret ())"

section \<open>Listing\<close>

type_synonym volume_map = "(string \<times> Volume) list"

definition vm_put :: "string \<Rightarrow> Volume \<Rightarrow> volume_map \<Rightarrow> volume_map" where
  "vm_put k v m = (k, v) # filter (\<lambda>p. fst p \<noteq> k) m"

definition vm_get :: "volume_map \<Rightarrow> string \<Rightarrow> Volume" where
  "vm_get m k = (case map_of m k of None \<Rightarrow> zero_volume | Some v \<Rightarrow> v)"

text \<open>\<open>key[1:]\<close> of an empty key panics.\<close>

definition drop_slash :: "string \<Rightarrow> string res" where
  "drop_slash key = (case key of [] \<Rightarrow> Panic ''slice bounds out of range'' | ch # rest \<Rightarrow> Ok rest)"

text \<open>
  One entry of the directory of a policy: only its first child is looked at. The child \<open>runtime\<close> is
  trimmed of the suffix \<open>/create\<close>, as the code has it.
\<close>

definition list_create :: "string \<Rightarrow> node \<Rightarrow> volume_map \<Rightarrow> volume_map res" where
  "list_create policyPath node configs =
     (if \<not> n_dir node \<and> has_suffix ''/create'' (n_key node) then
        bind_res (drop_slash (trim_suffix ''/create'' (trim_prefix policyPath (n_key node)))) (\<lambda>key.
        bind_res (unmarshal volume_fields (n_value node) (vm_get configs key)) (\<lambda>v.
          Ok (vm_put key v configs)))
      else Ok configs)"

definition list_runtime :: "string \<Rightarrow> node \<Rightarrow> volume_map \<Rightarrow> volume_map res" where
  "list_runtime policyPath node configs =
     (if \<not> n_dir node \<and> has_suffix ''/runtime'' (n_key node) then
        bind_res (drop_slash (trim_suffix ''/create'' (trim_prefix policyPath (n_key node)))) (\<lambda>key.
        let config = vm_get configs key in
        bind_res (unmarshal runtime_fields (n_value node) (v_runtime config)) (\<lambda>r.
          Ok (vm_put key (config\<lparr>v_runtime := r\<rparr>) configs)))
      else Ok configs)"

fun list_nodes :: "string \<Rightarrow> node list \<Rightarrow> volume_map \<Rightarrow> volume_map res" where
  "list_nodes policyPath [] configs = Ok configs"
| "list_nodes policyPath (n # ns) configs =
     (case n_nodes n of
        [] \<Rightarrow> list_nodes policyPath ns configs
      | node # _ \<Rightarrow>
          bind_res (list_create policyPath node configs) (\<lambda>c1.
          bind_res (list_runtime policyPath node c1) (\<lambda>c2. list_nodes policyPath ns c2)))"

fun check_sizes :: "('w, 'z) host_scheme \<Rightarrow> Volume list \<Rightarrow> unit res" where
  "check_sizes c [] = Ok ()"
| "check_sizes c (v # vs) =
     (case snd (ActualSize c (v_create v)) of Some e \<Rightarrow> Err e | None \<Rightarrow> check_sizes c vs)"

definition cfg_ListVolumes :: "('w, 'z) host_scheme \<Rightarrow> string \<Rightarrow> ('w, goerr, volume_map) io" where
  "cfg_ListVolumes c policy =
     (let policyPath = prefixed c [rootVolume, policy] in
      attempt (kv_get c policyPath \<lparr>go_recursive = True, go_sort = True, go_quorum = False\<rparr>)
        (\<lambda>e. fail (EtcdToErrored e))
        (\<lambda>resp. lift (bind_res (list_nodes policyPath (n_nodes resp) []) (\<lambda>configs.
           bind_res (check_sizes c (map (vm_get configs) (h_order c (map fst configs)))) (\<lambda>_. Ok configs)))))"

definition volume_names :: "node \<Rightarrow> string list" where
  "volume_names n = map (\<lambda>inner. path_join [path_base (n_key n), path_base (n_key inner)]) (n_nodes n)"

definition cfg_ListAllVolumes :: "('w, 'z) client_scheme \<Rightarrow> ('w, goerr, string list) io" where
  "cfg_ListAllVolumes c =
     attempt (kv_get c (prefixed c [rootVolume]) \<lparr>go_recursive = True, go_sort = True, go_quorum = False\<rparr>)
       (\<lambda>err. if is_errored (EtcdToErrored err) \<and> Contains (EtcdToErrored err) NotExists then ret []
               else fail (EtcdToErrored err))
       (\<lambda>resp. ret (concat (map volume_names (n_nodes resp))))"

section \<open>Snapshot signals and volumes in use\<close>

definition snapshot_key :: "('w, 'z) client_scheme \<Rightarrow> string \<Rightarrow> string" where
  "snapshot_key c name = prefixed c [rootSnapshots, name]"

definition TakeSnapshot :: "('w, 'z) client_scheme \<Rightarrow> string \<Rightarrow> ('w, goerr, unit) io" where
  "TakeSnapshot c name = etcd_set c (snapshot_key c name) [] set_nil"

definition RemoveTakeSnapshot :: "('w, 'z) client_scheme \<Rightarrow> string \<Rightarrow> ('w, goerr, unit) io" where
  "RemoveTakeSnapshot c name =
     attempt (kv_del c (snapshot_key c name) del_nil) (\<lambda>e. fail (EtcdToErrored e)) (\<lambda>_. ret ())"

text \<open>Both results of the call are used by its caller, so they are a pair.\<close>

definition error_of :: "('w, goerr, unit) io \<Rightarrow> ('w, goerr, goerr option) io" where
  "error_of m = attempt m (\<lambda>e. ret (Some e)) (\<lambda>_. ret None)"

definition IsVolumeInUse :: "('w, 'z) client_scheme \<Rightarrow> Volume \<Rightarrow> ('w, goerr, bool \<times> goerr option) io" where
  "IsVolumeInUse c cfg =
     (if \<not> v_unlocked cfg then
        (let uc = UseMount (Volume_String cfg) [] [] in
         attempt (PublishUse c uc)
           (\<lambda>err. andThen (error_of (RemoveUse c uc False)) (\<lambda>e.
              ret (if is_errored err then Contains err Exists else False, e)))
           (\<lambda>_. andThen (error_of (RemoveUse c uc False)) (\<lambda>e. ret (False, e))))
      else ret (True, None))"

section \<open>What the validation accepts\<close>

lemma Volume_ValidateJSON_iff:
  "Volume_ValidateJSON v = Ok () \<longleftrightarrow>
     name_valid (v_name v) \<and> name_valid (v_policy v) \<and> (\<exists>b. v_backends v = Some b \<and> backends_ok b) \<and> runtime_ok (v_runtime v)"
  unfolding Volume_ValidateJSON_def bind_res_Ok_iff Runtime_ValidateJSON_iff
  by (auto simp: against_def VolumeSchema_iff split: if_splits)

lemma Volume_ValidateJSON_cases: "Volume_ValidateJSON v = Ok () \<or> Volume_ValidateJSON v = Err combineErrors"
  by (auto simp: Volume_ValidateJSON_def Runtime_ValidateJSON_def against_def)

text \<open>The declarative reading: what a volume needs of each backend it names.\<close>

definition ceph_ready :: "Volume \<Rightarrow> bool" where
  "ceph_ready v \<longleftrightarrow> v_driver v \<noteq> None \<and> lookup_opt (v_driver v) ''pool'' \<noteq> []"

definition backends_ready :: "Volume \<Rightarrow> BackendDrivers \<Rightarrow> bool" where
  "backends_ready v b \<longleftrightarrow>
     (''ceph'' \<in> {bd_crud b, bd_mount b, bd_snapshot b} \<longrightarrow> ceph_ready v) \<and> (bd_mount b = ''nfs'' \<longrightarrow> v_mount v \<noteq> [])"

definition volume_ok :: "('w, 'z) host_scheme \<Rightarrow> Volume \<Rightarrow> bool" where
  "volume_ok c v \<longleftrightarrow>
     name_valid (v_name v) \<and> name_valid (v_policy v) \<and> runtime_ok (v_runtime v) \<and>
     snd (ActualSize c (v_create v)) = None \<and>
     (\<exists>b. v_backends v = Some b \<and> backends_ok b \<and> backends_ready v b)"

lemma path_join_names:
  assumes "plain_seg a" "plain_seg b"
  shows "path_join [a, b] = a @ slash @ b"
proof -
  have ab: "split_on CHR ''/'' (a @ CHR ''/'' # b) = [a, b]"
    using assms by (simp add: plain_seg_def split_on_append split_on_no_sep)
  have r: "\<not> rooted (a @ CHR ''/'' # b)" using assms(1) by (cases a) (auto simp: rooted_def has_prefix_def plain_seg_def)
  have "path_segs (a @ CHR ''/'' # b) = [a, b]"
    unfolding path_segs_def ab using clean_segs_plain [of "[a, b]" _ "[]"] assms by simp
  then show ?thesis
    using r assms(1) by (simp add: path_clean_def unsegs_def plain_seg_def)
qed

lemma Volume_String_named:
  "name_valid (v_policy v) \<Longrightarrow> name_valid (v_name v) \<Longrightarrow> Volume_String v = v_policy v @ slash @ v_name v"
  unfolding Volume_String_def by (rule path_join_names) (simp_all add: name_valid_plain)

lemma ceph_Validate_iff:
  "ceph_Validate opts = Ok () \<longleftrightarrow> d_timeout opts \<noteq> 0 \<and> sv_name (d_volume opts) \<noteq> [] \<and>
     sv_params (d_volume opts) \<noteq> None \<and> param opts ''pool'' \<noteq> []"
  by (auto simp: ceph_Validate_def DriverOptions_Validate_def StorageVolume_Validate_def bind_res_Ok_iff)

lemma nfs_Validate_iff:
  "nfs_Validate opts = Ok () \<longleftrightarrow> sv_name (d_volume opts) \<noteq> [] \<and> d_source opts \<noteq> []"
  by (auto simp: nfs_Validate_def)

lemma bind_unit_iff: "bind_res r (\<lambda>_. k) = Ok () \<longleftrightarrow> r = Ok () \<and> k = Ok ()" for r :: "unit res"
  by (cases r) auto

text \<open>The three checks of \<open>validateBackends\<close>, on options with a name and a timeout.\<close>

lemma crud_check:
  "bind_res (NewCRUDDriver c ''ceph'') (\<lambda>d. cd_validate d opts) = ceph_Validate opts"
  by (simp add: NewCRUDDriver_def CRUDDrivers_def backend_names ceph_NewCRUDDriver_def)

lemma snapshot_check:
  "bind_res (NewSnapshotDriver c ''ceph'') (\<lambda>d. sd_validate d opts) = ceph_Validate opts"
  by (simp add: NewSnapshotDriver_def SnapshotDrivers_def backend_names ceph_NewSnapshotDriver_def)

lemma mount_check:
  assumes "bd_mount b \<in> {''ceph'', ''nfs''}"
  shows "bind_res (NewMountDriver c (bd_mount b) backend_MountPath) (\<lambda>d. bind_res (md_validate d opts) k)
    = bind_res (if bd_mount b = ''ceph'' then ceph_Validate opts else nfs_Validate opts) k"
proof -
  have mp: "backend_MountPath \<noteq> []" by (simp add: backend_MountPath_def)
  show ?thesis using assms by (auto simp: mp driver_defs)
qed

lemma validateBackends_iff:
  assumes "v_backends v = Some b" "backends_ok b" "Volume_String v \<noteq> []" "snd (ActualSize c (v_create v)) = None"
  shows "validateBackends c v = Ok () \<longleftrightarrow> backends_ready v b"
proof -
  obtain opts where o: "ToDriverOptions c v second = Ok opts" "d_timeout opts \<noteq> 0" "sv_name (d_volume opts) = Volume_String v"
      "sv_params (d_volume opts) = v_driver v" "d_source opts = v_mount v"
    using assms(4) by (cases "ActualSize c (v_create v)") (simp add: ToDriverOptions_def second_def)
  have ceph: "ceph_Validate opts = Ok () \<longleftrightarrow> ceph_ready v"
    using o assms(3) by (simp add: ceph_Validate_iff ceph_ready_def param_def)
  have nfs: "nfs_Validate opts = Ok () \<longleftrightarrow> v_mount v \<noteq> []" using o assms(3) by (simp add: nfs_Validate_iff)
  have m: "bd_mount b \<in> {''ceph'', ''nfs''}" and cr: "bd_crud b \<noteq> [] \<Longrightarrow> bd_crud b = ''ceph''"
    and sn: "bd_snapshot b \<noteq> [] \<Longrightarrow> bd_snapshot b = ''ceph''"
    using assms(2) by (auto simp: backends_ok_def)
  have c1: "(if bd_crud b \<noteq> [] then bind_res (NewCRUDDriver c (bd_crud b)) (\<lambda>d. cd_validate d opts) else Ok ()) = Ok ()
      \<longleftrightarrow> (bd_crud b \<noteq> [] \<longrightarrow> ceph_ready v)"
    using cr crud_check [of c opts] ceph by auto
  have c2: "(if bd_mount b = ''ceph'' then ceph_Validate opts else nfs_Validate opts) = Ok ()
      \<longleftrightarrow> (if bd_mount b = ''ceph'' then ceph_ready v else v_mount v \<noteq> [])"
    using ceph nfs by simp
  have c3: "(if bd_snapshot b \<noteq> [] then bind_res (NewSnapshotDriver c (bd_snapshot b)) (\<lambda>d. sd_validate d opts) else Ok ()) = Ok ()
      \<longleftrightarrow> (bd_snapshot b \<noteq> [] \<longrightarrow> ceph_ready v)"
    using sn snapshot_check [of c opts] ceph by auto
  have "validateBackends c v = Ok () \<longleftrightarrow>
      (bd_crud b \<noteq> [] \<longrightarrow> ceph_ready v) \<and>
      (if bd_mount b = ''ceph'' then ceph_ready v else v_mount v \<noteq> []) \<and> (bd_snapshot b \<noteq> [] \<longrightarrow> ceph_ready v)"
    unfolding validateBackends_def o(1) bind_res_runs assms(1) option.case mount_check [OF m] bind_unit_iff c1 c2 c3 ..
  moreover have "bd_crud b = [] \<or> bd_crud b = ''ceph''" "bd_snapshot b = [] \<or> bd_snapshot b = ''ceph''"
    "bd_mount b = ''ceph'' \<or> bd_mount b = ''nfs''"
    using cr sn m by blast+
  ultimately show ?thesis by (elim disjE) (simp_all add: backends_ready_def conj_ac)
qed

lemma Volume_Validate_iff: "Volume_Validate c v = Ok () \<longleftrightarrow> volume_ok c v"
proof (cases "Volume_ValidateJSON v = Ok ()")
  case True
  then obtain b where nm: "name_valid (v_name v)" "name_valid (v_policy v)" "runtime_ok (v_runtime v)"
      and b: "v_backends v = Some b" "backends_ok b"
    by (auto simp: Volume_ValidateJSON_iff)
  have str: "Volume_String v \<noteq> []" using Volume_String_named [OF nm(2,1)] by simp
  show ?thesis
  proof (cases "snd (ActualSize c (v_create v))")
    case None
    then show ?thesis
      using True nm b validateBackends_iff [OF b str None] by (auto simp: Volume_Validate_def volume_ok_def)
  next
    case (Some e)
    then show ?thesis
      using True
      by (cases "ActualSize c (v_create v)")
        (simp add: Volume_Validate_def validateBackends_def ToDriverOptions_def volume_ok_def)
  qed
next
  case False
  then show ?thesis
    using Volume_ValidateJSON_cases [of v] by (auto simp: Volume_Validate_def Volume_ValidateJSON_iff volume_ok_def)
qed

lemma volume_ok_filesystem [simp]: "volume_ok c (with_filesystem v) \<longleftrightarrow> volume_ok c v"
  by (simp add: volume_ok_def with_filesystem_def backends_ready_def ceph_ready_def ActualSize_def)

lemma volume_ok_runtime: "volume_ok c v \<Longrightarrow> runtime_ok r \<Longrightarrow> volume_ok c (v\<lparr>v_runtime := r\<rparr>)"
  by (simp add: volume_ok_def backends_ready_def ceph_ready_def)

section \<open>Keys of volumes\<close>

lemma volume_key_segs:
  assumes "wf_prefix (c_prefix c)" "name_valid p" "name_valid n" "plain_seg t"
  shows "volume_key c p n t = slash @ join slash (path_segs (c_prefix c) @ [rootVolume, p, n, t])"
    and "volume_dir c p n = slash @ join slash (path_segs (c_prefix c) @ [rootVolume, p, n])"
  using prefixed_segs [OF assms(1), of "[rootVolume, p, n, t]"] prefixed_segs [OF assms(1), of "[rootVolume, p, n]"] assms
  by (simp_all add: volume_key_def volume_dir_def plain_name_ok name_valid_plain name_segs_plain)

lemma volume_key_inj:
  assumes "wf_prefix (c_prefix c)" "name_valid p" "name_valid n" "plain_seg t" "name_valid p'" "name_valid n'" "plain_seg t'"
    and "volume_key c p n t = volume_key c p' n' t'"
  shows "p = p' \<and> n = n' \<and> t = t'"
proof -
  have "concat (map name_segs [rootVolume, p, n, t]) = concat (map name_segs [rootVolume, p', n', t'])"
    by (rule prefixed_inj [OF assms(1)])
      (use assms in \<open>simp_all add: volume_key_def plain_name_ok name_valid_plain\<close>)
  then show ?thesis using assms by (simp add: name_segs_plain name_valid_plain)
qed

lemma volume_dir_not_key:
  assumes "wf_prefix (c_prefix c)" "name_valid p" "name_valid n" "plain_seg t" "name_valid p'" "name_valid n'"
  shows "volume_key c p n t \<noteq> volume_dir c p' n'"
proof
  assume "volume_key c p n t = volume_dir c p' n'"
  then have "concat (map name_segs [rootVolume, p, n, t]) = concat (map name_segs [rootVolume, p', n'])"
    unfolding volume_key_def volume_dir_def
    by (intro prefixed_inj [OF assms(1)]) (use assms in \<open>simp_all add: plain_name_ok name_valid_plain\<close>)
  then show False using assms by (simp add: name_segs_plain name_valid_plain)
qed

lemma volume_below:
  assumes "wf_prefix (c_prefix c)" "name_valid p" "name_valid n" "plain_seg t" "name_valid p'" "name_valid n'"
  shows "below (volume_dir c p' n') (volume_key c p n t) \<longleftrightarrow> p = p' \<and> n = n'"
proof -
  have nosl: "\<forall>s \<in> set (path_segs (c_prefix c)). CHR ''/'' \<notin> set s"
    using assms(1) by (auto simp: wf_prefix_def list_all_iff plain_seg_def)
  have pl: "plain_seg p" "plain_seg n" "plain_seg p'" "plain_seg n'" using assms name_valid_plain by auto
  show ?thesis
    unfolding volume_key_segs(1) [OF assms(1-4)] volume_key_segs(2) [OF assms(1,5,6) assms(4)]
    by (subst below_segs) (use nosl pl assms(4) root_plain(1) in \<open>auto simp: plain_seg_def\<close>)
qed

lemma create_plain: "plain_seg ''create''" "plain_seg ''runtime''"
  by (simp_all add: plain_seg_def)

section \<open>Publication and retrieval on a store that keeps etcd's promises\<close>

lemma runtime_publish_OkE:
  assumes "PublishVolumeRuntime c vo ro w = (Ok (), w')"
  obtains r w1 where "runtime_ok ro" "make_volume_dir c vo w = (r, w1)"
    "etcd_set c (volume_key c (v_policy vo) (v_name vo) ''runtime'') (runtime_text ro) set_nil w1 = (Ok (), w')"
proof (cases "runtime_ok ro")
  case True
  then have "Runtime_ValidateJSON ro = Ok ()" by (simp add: Runtime_ValidateJSON_iff)
  with assms have "regardless (make_volume_dir c vo)
      (etcd_set c (volume_key c (v_policy vo) (v_name vo) ''runtime'') (runtime_text ro) set_nil) w = (Ok (), w')"
    by (simp add: PublishVolumeRuntime_def)
  then show thesis using that True by (elim regardless_OkE) blast
next
  case False
  then have "Runtime_ValidateJSON ro = Err combineErrors"
    by (auto simp: Runtime_ValidateJSON_def against_def RuntimeSchema_iff)
  with assms show thesis by (simp add: PublishVolumeRuntime_def)
qed

context etcd begin

lemma runtime_publish_ok:
  assumes "PublishVolumeRuntime c vo ro w = (Ok (), w')"
  shows "runtime_ok ro"
    and "fval w' (volume_key c (v_policy vo) (v_name vo) ''runtime'') = Some (runtime_text ro)"
    and "k \<noteq> volume_key c (v_policy vo) (v_name vo) ''runtime'' \<Longrightarrow> k \<noteq> volume_dir c (v_policy vo) (v_name vo) \<Longrightarrow>
           fval w' k = fval w k"
proof -
  obtain r w1 where h: "runtime_ok ro" "make_volume_dir c vo w = (r, w1)"
    "etcd_set c (volume_key c (v_policy vo) (v_name vo) ''runtime'') (runtime_text ro) set_nil w1 = (Ok (), w')"
    using assms by (rule runtime_publish_OkE)
  show "runtime_ok ro" by (rule h)
  note e = etcd_set_ok [OF h(3)]
  from e show "fval w' (volume_key c (v_policy vo) (v_name vo) ''runtime'') = Some (runtime_text ro)" by simp
  assume "k \<noteq> volume_key c (v_policy vo) (v_name vo) ''runtime''" "k \<noteq> volume_dir c (v_policy vo) (v_name vo)"
  then show "fval w' k = fval w k"
    using e dir_keeps [OF h(2) [unfolded make_volume_dir_def]] by simp
qed

end

lemma PublishVolume_OkE:
  assumes "cfg_PublishVolume c vc w = (Ok (), w')"
  obtains r w1 n w2 where "volume_ok c vc" "make_volume_dir c vc w = (r, w1)"
    "kv_set c (volume_key c (v_policy vc) (v_name vc) ''create'') (volume_text vc) (set_nil\<lparr>so_exist := PrevNoExist\<rparr>) w1 = (Ok n, w2)"
    "PublishVolumeRuntime c vc (v_runtime vc) w2 = (Ok (), w')"
  using assms unfolding cfg_PublishVolume_def
  by (auto elim!: lift_OkE andThen_OkE regardless_OkE attempt_OkE simp: Volume_Validate_iff intro: that)

lemma published_volume_kept:
  assumes "etcd c fval" "wf_prefix (c_prefix c)" "cfg_PublishVolume c v w = (Ok (), w')"
  shows "fval w' (volume_key c (v_policy v) (v_name v) ''create'') = Some (volume_text v)"
    and "fval w' (volume_key c (v_policy v) (v_name v) ''runtime'') = Some (runtime_text (v_runtime v))"
    and "volume_ok c v"
proof -
  obtain r w1 n w2 where h: "volume_ok c v" "make_volume_dir c v w = (r, w1)"
    and s: "kv_set c (volume_key c (v_policy v) (v_name v) ''create'') (volume_text v) (set_nil\<lparr>so_exist := PrevNoExist\<rparr>) w1 = (Ok n, w2)"
    and rt: "PublishVolumeRuntime c v (v_runtime v) w2 = (Ok (), w')"
    using assms(3) by (rule PublishVolume_OkE)
  have nm: "name_valid (v_policy v)" "name_valid (v_name v)" using h(1) by (simp_all add: volume_ok_def)
  have "volume_key c (v_policy v) (v_name v) ''create'' \<noteq> volume_key c (v_policy v) (v_name v) ''runtime''"
    using volume_key_inj [OF assms(2) nm create_plain(1) nm create_plain(2)] by auto
  moreover note volume_dir_not_key [OF assms(2) nm create_plain(1) nm]
  moreover have "fval w2 (volume_key c (v_policy v) (v_name v) ''create'') = Some (volume_text v)"
    using etcd.set_ok [OF assms(1), OF s] by simp
  ultimately show "fval w' (volume_key c (v_policy v) (v_name v) ''create'') = Some (volume_text v)"
    using etcd.runtime_publish_ok(3) [OF assms(1), OF rt] by simp
  show "fval w' (volume_key c (v_policy v) (v_name v) ''runtime'') = Some (runtime_text (v_runtime v))"
    by (rule etcd.runtime_publish_ok(2) [OF assms(1), OF rt])
  show "volume_ok c v" by (rule h)
qed

lemma get_kept_volume:
  assumes "etcd_up c fval free" "volume_fits v" "volume_ok c v" "runtime_fits r"
    and "fval w (volume_key c p n ''create'') = Some (volume_text v)"
    and "fval w (volume_key c p n ''runtime'') = Some (runtime_text r)"
  shows "\<exists>w'. cfg_GetVolume c p n w = (Ok (v\<lparr>v_runtime := r\<rparr>), w') \<and> fval w' = fval w"
proof -
  obtain n1 w1 where g1: "kv_get c (volume_key c p n ''create'') get_nil w = (Ok n1, w1)" "n_value n1 = volume_text v" "fval w1 = fval w"
    using etcd_up.get_file [OF assms(1), OF assms(5)] by blast
  have "fval w1 (volume_key c p n ''runtime'') = Some (runtime_text r)" using g1(3) assms(6) by simp
  from etcd_up.get_file [OF assms(1), OF this]
  obtain n2 w2 where g2: "kv_get c (volume_key c p n ''runtime'') get_nil w1 = (Ok n2, w2)" "n_value n2 = runtime_text r" "fval w2 = fval w1"
    by blast
  have u1: "unmarshal volume_fields (n_value n1) zero_volume = Ok v"
    unfolding g1(2) volume_text_def by (rule unmarshal_render) (simp_all add: fill_volume assms(2))
  have u2: "unmarshal runtime_fields (n_value n2) zero_runtime = Ok r"
    unfolding g2(2) runtime_text_def by (rule unmarshal_render) (simp_all add: fill_runtime assms(4))
  have "Volume_Validate c v = Ok ()" using assms(3) by (simp add: Volume_Validate_iff)
  then have "cfg_GetVolume c p n w = (Ok (v\<lparr>v_runtime := r\<rparr>), w2)"
    using g1(1) g2(1) u1 u2 by (simp add: cfg_GetVolume_def GetVolumeRuntime_def)
  then show ?thesis using g1(3) g2(3) by simp
qed

section \<open>Properties\<close>

text \<open>
  C14. The validation of a volume accepts exactly the volumes whose names are single path elements
  without dots, whose backends are known, whose size can be read, and that have what each backend
  needs: a pool for ceph, a mount source for nfs.
\<close>

theorem volume_validation: "Volume_Validate c v = Ok () \<longleftrightarrow> volume_ok c v"
  by (rule Volume_Validate_iff)

text \<open>A volume that was published is read back as it was.\<close>

theorem volume_roundtrip:
  assumes "etcd_up c fval free" "wf_prefix (c_prefix c)" "volume_fits v" "cfg_PublishVolume c v w = (Ok (), w1)"
  shows "\<exists>w2. cfg_GetVolume c (v_policy v) (v_name v) w1 = (Ok v, w2) \<and> fval w2 = fval w1"
proof -
  have e: "etcd c fval" using assms(1) by (simp add: etcd_up_def)
  note k = published_volume_kept [OF e, OF assms(2,4)]
  have "runtime_fits (v_runtime v)" using assms(3) by (simp add: volume_fits_def)
  from get_kept_volume [OF assms(1), OF assms(3) k(3) this k(1,2)] show ?thesis by simp
qed

definition silver :: Volume where
  "silver = zero_volume\<lparr>v_policy := ''gold'', v_name := ''db'', v_driver := Some [(''pool'', ''rbd'')],
     v_create := \<lparr>co_size = ''20000000'', co_filesystem = ''ext4''\<rparr>,
     v_backends := Some \<lparr>bd_crud = ''ceph'', bd_mount = ''ceph'', bd_snapshot = ''ceph''\<rparr>\<rparr>"

lemma machine_prefix: "wf_prefix (c_prefix (machine_host n))"
proof -
  have "wf_prefix ''/volplugin''" by code_simp
  then show ?thesis by simp
qed

lemma silver_fits: "volume_fits silver"
  by (simp add: silver_def volume_fits_def smap_fits_def smap_ok_def runtime_fits_def zero_defs)

lemma silver_published: "fst (cfg_PublishVolume (machine_host 1) silver machine_start) = Ok ()"
  by code_simp

theorem volume_roundtrip_witness:
  "\<exists>w2. cfg_GetVolume (machine_host 1) ''gold'' ''db'' (snd (cfg_PublishVolume (machine_host 1) silver machine_start)) = (Ok silver, w2)"
proof -
  have p: "cfg_PublishVolume (machine_host 1) silver machine_start =
      (Ok (), snd (cfg_PublishVolume (machine_host 1) silver machine_start))"
    using silver_published by (metis prod.collapse)
  have "v_policy silver = ''gold''" "v_name silver = ''db''" by (simp_all add: silver_def)
  with volume_roundtrip [OF machine.etcd_up_axioms machine_prefix silver_fits p] show ?thesis by auto
qed



text \<open>
  C16. \<open>RemoveVolume\<close> removes the files of the one volume, and of no other volume or policy; when it
  reports an error it has removed all of them or nothing.
\<close>

theorem remove_volume_exact:
  assumes "etcd c fval" "wf_prefix (c_prefix c)" "name_valid p" "name_valid n" "cfg_RemoveVolume c p n w = (r, w')"
    and "name_valid p'" "name_valid n'" "plain_seg t"
  shows "(r = Ok () \<longrightarrow> fval w' (volume_key c p n t) = None) \<and>
         (fval w' = fval w \<or> fval w' = prune (volume_dir c p n) (fval w)) \<and>
         ((p', n') \<noteq> (p, n) \<longrightarrow> fval w' (volume_key c p' n' t) = fval w (volume_key c p' n' t))"
proof -
  let ?d = "volume_dir c p n" and ?o = "del_nil\<lparr>do_recursive := True\<rparr>"
  obtain r1 w1 where d: "kv_del c ?d ?o w = (r1, w1)" by fastforce
  have rec: "do_recursive ?o" by simp
  have eff: "(r = Ok () \<longrightarrow> fval w' = prune ?d (fval w)) \<and> (fval w' = fval w \<or> fval w' = prune ?d (fval w))"
    by (rule etcd.del_cases [OF assms(1), OF d])
      (use assms(5) d etcd.del_tree_ok [OF assms(1), OF _ rec] etcd.del_tree_unknown [OF assms(1), OF _ rec]
        in \<open>auto simp: cfg_RemoveVolume_def\<close>)
  have gone: "prune ?d (fval w) (volume_key c p n t) = None"
    using volume_below [OF assms(2,3,4,8,3,4)] by (simp add: prune_def)
  have kept: "prune ?d (fval w) (volume_key c p' n' t) = fval w (volume_key c p' n' t)" if "(p', n') \<noteq> (p, n)"
    using volume_below [OF assms(2,6,7,8,3,4)] volume_dir_not_key [OF assms(2,6,7,8,3,4)] that by (auto simp: prune_def)
  show ?thesis using eff gone kept by auto
qed

theorem remove_volume_exact_witness:
  "\<exists>w'. cfg_RemoveVolume (machine_host 1) ''gold'' ''db'' (snd (cfg_PublishVolume (machine_host 1) silver machine_start)) = (Ok (), w') \<and>
     mem_file w' (volume_key (machine_host 1) ''gold'' ''db'' ''create'') = None"
proof -
  let ?w = "snd (cfg_PublishVolume (machine_host 1) silver machine_start)"
  have "fst (cfg_RemoveVolume (machine_host 1) ''gold'' ''db'' ?w) = Ok ()" by code_simp
  then have r: "cfg_RemoveVolume (machine_host 1) ''gold'' ''db'' ?w =
      (Ok (), snd (cfg_RemoveVolume (machine_host 1) ''gold'' ''db'' ?w))" by (metis prod.collapse)
  have n: "name_valid ''gold''" "name_valid ''db''" by (simp_all add: name_valid_def)
  from remove_volume_exact [OF machine.etcd_axioms machine_prefix n r n create_plain(1)] r show ?thesis by blast
qed

text \<open>What a read changes: nothing.\<close>

lemma GetPolicy_reads:
  assumes "etcd c fval" "cfg_GetPolicy c name w = (r, w')"
  shows "fval w' = fval w"
proof -
  obtain r1 w1 where g: "kv_get c (policy_key c name) get_nil w = (r1, w1)" by fastforce
  have "fval w1 = fval w" by (rule etcd.get_keeps [OF assms(1), OF g])
  show ?thesis
    by (rule etcd.get_cases [OF assms(1), OF g])
      (use \<open>fval w1 = fval w\<close> assms(2) g in \<open>auto simp: cfg_GetPolicy_def andThen_def attempt_def split: if_splits outcome.splits\<close>)
qed

lemma GetPolicy_ok:
  assumes "cfg_GetPolicy c name w = (Ok p, w')"
  shows "policy_ok c p" "p_name p = name"
proof -
  obtain tc where "Policy_Validate c (tc\<lparr>p_name := name\<rparr>) = Ok p"
    using assms by (auto simp: cfg_GetPolicy_def elim!: attempt_OkE lift_OkE split: if_splits)
  then show "policy_ok c p" "p_name p = name" using Validate_ok Validate_result(2) by fastforce+
qed

text \<open>A range meets every key once.\<close>

definition range_ok :: "('w, 'z) host_scheme \<Rightarrow> bool" where
  "range_ok c \<longleftrightarrow> (\<forall>ks. distinct ks \<longrightarrow> distinct (h_order c ks) \<and> set (h_order c ks) = set ks)"

lemma ordered_map:
  assumes "range_ok c" "smap_ok m"
  shows "distinct (map fst (ordered c m))" "map_of (ordered c m) = map_of m"
proof -
  have d: "distinct (h_order c (map fst m))" "set (h_order c (map fst m)) = fst ` set m"
    using assms(1) smap_ok_distinct [OF assms(2)] by (simp_all add: range_ok_def)
  show "distinct (map fst (ordered c m))" using d(1) by (simp add: ordered_def comp_def)
  show "map_of (ordered c m) = map_of m"
  proof
    fix k
    have "map_of (map (\<lambda>k. (k, smap_get m k)) ks) k = (if k \<in> set ks then Some (smap_get m k) else None)" for ks
      by (induction ks) auto
    then have "map_of (ordered c m) k = (if k \<in> fst ` set m then Some (smap_get m k) else None)"
      using d(2) by (simp add: ordered_def)
    also have "\<dots> = map_of m k"
      by (cases "map_of m k") (auto simp: smap_get_def dest: map_of_SomeD intro: rev_image_eqI simp flip: map_of_eq_None_iff)
    finally show "map_of (ordered c m) k = map_of m k" .
  qed
qed

text \<open>The options as a map: those of the request but the mount source.\<close>

definition merge_map :: "VolumeRequest \<Rightarrow> string \<Rightarrow> string option" where
  "merge_map rc = (case vr_options rc of None \<Rightarrow> Map.empty | Some m \<Rightarrow> (map_of m)(''mount'' := None))"

lemma request_options_map:
  assumes "range_ok c" "smap_fits (vr_options rc)"
  shows "distinct (map fst (request_options c rc))" "map_of (request_options c rc) = merge_map rc"
  using assms ordered_map [OF assms(1)]
  by (auto simp: request_options_def merge_map_def smap_fits_def split: option.splits)

lemma merge_policy_merged:
  assumes "distinct (map fst kvs)" "merge_policy p kvs = Ok q"
  shows "q = merged p (map_of kvs)"
proof (cases "\<forall>(k, v) \<in> set kvs. opt_accepts k v")
  case True
  then show ?thesis using Opts_policy(1) [OF assms(1) True, of p] assms(2) by (simp add: merge_policy_def policy_tree_back)
next
  case False
  then show ?thesis using Opts_policy(2) [OF assms(1) False, of p] assms(2) by (auto simp: merge_policy_def)
qed

lemma Validate_keeps:
  assumes "Policy_Validate c p = Ok q"
  shows "p_create q = p_create p" "p_runtime q = p_runtime p" "p_driver q = p_driver p" "p_unlocked q = p_unlocked p"
  using Validate_result(2) [OF assms] by auto


definition db_request :: VolumeRequest where
  "db_request = \<lparr>vr_name = ''db'', vr_policy = ''gold'', vr_options = Some [(''size'', ''40000000'')]\<rparr>"

definition gold_world :: machine where
  "gold_world = snd (cfg_PublishPolicy (machine_host 1) ''gold'' gold machine_start)"

lemma machine_range: "range_ok (machine_host n)"
  by (simp add: range_ok_def)


lemma PublishUse_mount_error:
  assumes "etcd c fval" "PublishUse c (UseMount v h r) w = (Err e, w')"
  shows "\<not> Contains e Exists"
proof -
  have no: "\<not> Contains (EtcdToErrored e') Exists"
    if "\<not> is_errored e'" "\<And>t. e' \<noteq> EtcdErr 105 t" for e'
    using that by (cases e') (auto simp: etcdCodeTable_def split: if_splits)
  note u = PublishUse_def [of c "UseMount v h r"]
  obtain r1 w1 where p: "publish_create c (UseMount v h r) w = (r1, w1)" by fastforce
  note p' = p [unfolded publish_create_def]
  show ?thesis
  proof (rule etcd.set_cases [OF assms(1), OF p'])
    fix n assume "r1 = Ok n"
    then show ?thesis using assms(2) p by (simp add: u)
  next
    fix e1 assume e1: "r1 = Err e1"
    show ?thesis
    proof (cases "is_node_exist e1")
      case True
      obtain r2 w2 where a: "publish_again c (UseMount v h r) w1 = (r2, w2)" by fastforce
      note a' = a [unfolded publish_again_def]
      show ?thesis
      proof (rule etcd.set_cases [OF assms(1), OF a'])
        fix n assume "r2 = Ok n"
        then show ?thesis using assms(2) p e1 True a by (simp add: u)
      next
        fix e2 assume e2: "r2 = Err e2"
        have "e = EtcdToErrored e2" using assms(2) p e1 True a e2 by (simp add: u)
        moreover have "\<not> is_errored e2" by (rule etcd.set_foreign [OF assms(1), OF a' [unfolded e2]])
        moreover have "e2 \<noteq> EtcdErr 105 t" for t using etcd.set_exists [OF assms(1)] a' e2 by fastforce
        ultimately show ?thesis using no by simp
      qed
    next
      case False
      have "e = EtcdToErrored e1" using assms(2) p e1 False by (simp add: u)
      moreover have "\<not> is_errored e1" by (rule etcd.set_foreign [OF assms(1), OF p' [unfolded e1]])
      moreover have "e1 \<noteq> EtcdErr 105 t" for t using False by auto
      ultimately show ?thesis using no by simp
    qed
  qed
qed

text \<open>What the check answers: that an unlocked volume is in use and that a locked one is not.\<close>

lemma in_use_answer:
  assumes "etcd c fval" "IsVolumeInUse c v w = (r, w')"
  shows "\<exists>e. r = Ok (v_unlocked v, e)"
proof (cases "v_unlocked v")
  case False
  let ?u = "UseMount (Volume_String v) [] []"
  obtain r1 w1 where p: "PublishUse c ?u w = (r1, w1)" by fastforce
  obtain r2 w2 where m: "RemoveUse c ?u False w1 = (r2, w2)" by fastforce
  have "r2 = Ok () \<or> (\<exists>e2. r2 = Err e2)" using etcd.remove_returns [OF assms(1), of ?u False w1] m by auto
  moreover have "r1 = Ok () \<or> (\<exists>e1. r1 = Err e1)" using etcd.publish_returns [OF assms(1), of ?u w] p by auto
  ultimately show ?thesis
    using assms(2) p m False PublishUse_mount_error [OF assms(1)]
    by (auto simp: IsVolumeInUse_def error_of_def Let_def split: if_splits)
qed (use assms(2) in \<open>auto simp: IsVolumeInUse_def\<close>)

text \<open>
  \<open>IsVolumeInUse\<close> never says that a locked volume is in use: a mount lock of another owner makes
  the re-entrant write fail its comparison, which is \<open>LockFailed\<close> and not \<open>Exists\<close>; the answer is
  then false with an error, and the lock stays.
\<close>

theorem in_use_never_seen:
  assumes "etcd c fval" "\<not> v_unlocked v" "IsVolumeInUse c v w = (Ok (used, e), w')"
  shows "\<not> used \<and>
    (\<forall>t. fval w (lock_key c (UseMount (Volume_String v) [] [])) = Some t \<and> t \<noteq> use_text (UseMount (Volume_String v) [] [])
       \<longrightarrow> e \<noteq> None \<and> fval w' = fval w)"
proof -
  let ?u = "UseMount (Volume_String v) [] []"
  obtain r1 w1 where p: "PublishUse c ?u w = (r1, w1)" by fastforce
  obtain r2 w2 where m: "RemoveUse c ?u False w1 = (r2, w2)" by fastforce
  have r2: "r2 = Ok () \<or> (\<exists>e2. r2 = Err e2)" using etcd.remove_returns [OF assms(1), of ?u False w1] m by auto
  have r1: "r1 = Ok () \<or> (\<exists>e1. r1 = Err e1)" using etcd.publish_returns [OF assms(1), of ?u w] p by auto
  then have w': "w' = w2" "e = (case r2 of Err e2 \<Rightarrow> Some e2 | _ \<Rightarrow> None)"
    using r2 assms(2,3) p m by (auto simp: IsVolumeInUse_def error_of_def Let_def)
  have "\<not> used" using in_use_answer [OF assms(1,3)] assms(2) by simp
  moreover have "e \<noteq> None \<and> fval w' = fval w" if "fval w (lock_key c ?u) = Some t" "t \<noteq> use_text ?u" for t
  proof -
    have k: "fval w1 = fval w" by (rule etcd.publish_other(1) [OF assms(1), OF p that])
    have "r2 \<noteq> Ok ()" using etcd.remove_ok(3) [OF assms(1)] m k that by force
    moreover have "fval w2 = fval w1" using etcd.remove_unforced [OF assms(1), OF m] k that by auto
    ultimately show ?thesis using r2 w' k by auto
  qed
  ultimately show ?thesis by blast
qed

definition mounted_elsewhere :: machine where
  "mounted_elsewhere = snd (PublishUse (machine_host 1) (UseMount ''gold/db'' ''mon1'' ''Mount'') machine_start)"

theorem in_use_never_seen_witness:
  "\<exists>e w'. IsVolumeInUse (machine_host 1) silver mounted_elsewhere = (Ok (False, Some e), w')"
proof -
  let ?r = "IsVolumeInUse (machine_host 1) silver mounted_elsewhere"
  have "case fst ?r of Ok p \<Rightarrow> True | _ \<Rightarrow> False" by code_simp
  then obtain u e where "fst ?r = Ok (u, e)" by (cases "fst ?r") auto
  then have r: "?r = (Ok (u, e), snd ?r)" by (metis prod.collapse)
  have un: "\<not> v_unlocked silver" by (simp add: silver_def zero_defs)
  have "mem_file mounted_elsewhere (lock_key (machine_host 1) (UseMount (Volume_String silver) [] []))
      = Some (use_text (UseMount ''gold/db'' ''mon1'' ''Mount''))" by code_simp
  moreover have "use_text (UseMount ''gold/db'' ''mon1'' ''Mount'') \<noteq> use_text (UseMount (Volume_String silver) [] [])"
    by (simp add: use_text_inj)
  ultimately show ?thesis
    using in_use_never_seen [OF machine.etcd_axioms un r] r by auto
qed

end
