(* ===== verification/Config_Store.thy ===== *)
theory Config_Store imports Config_Volume begin

text \<open>
  The volumes as a client of \<open>config/volume.go\<close> sees them: two tables indexed by the policy and the
  name, of what was created and of the present runtime options. Publishing, retrieving, changing
  and removing volumes in the store are a lookup in, an insertion into and a deletion from these tables.
  And what a volume handed out by \<open>GetVolume\<close> has, whatever is in the store.
\<close>

section \<open>What is read fits the Go types\<close>

definition fields_keep :: "('r \<Rightarrow> bool) \<Rightarrow> (string \<times> 'r field_dec) list \<Rightarrow> bool" where
  "fields_keep P fs \<longleftrightarrow> (\<forall>(n, d) \<in> set fs. \<forall>j r r'. d j r = Some r' \<longrightarrow> P r \<longrightarrow> P r')"

lemma find_field_set: "find_field fs k = Some d \<Longrightarrow> \<exists>n. (n, d) \<in> set fs"
  by (induction fs k rule: find_field.induct) (auto split: if_splits)

lemma fill_members_keep:
  assumes "fields_keep P fs"
  shows "fill_members fs ms r = Some r' \<Longrightarrow> P r \<Longrightarrow> P r'"
  using assms
proof (induction fs ms r rule: fill_members.induct)
  case (2 fs k v ms r)
  show ?case
  proof (cases "find_field fs k")
    case None
    with 2 show ?thesis by simp
  next
    case (Some d)
    then obtain n where n: "(n, d) \<in> set fs" using find_field_set by metis
    from 2(3) Some obtain r1 where r1: "d v r = Some r1" "fill_members fs ms r1 = Some r'" by (auto split: option.splits)
    have "P r1" using 2(4,5) n r1(1) unfolding fields_keep_def by blast
    with 2 Some r1 show ?thesis by blast
  qed
qed simp

lemma fill_keeps:
  assumes "fields_keep P fs" "fill fs j r = Some r'" "P r"
  shows "P r'"
  using assms(2,3) fill_members_keep [OF assms(1)] by (cases j) auto

lemma get_uint_bound: "get_uint b j old = Some n \<Longrightarrow> old < 2 ^ b \<Longrightarrow> n < 2 ^ b"
  by (cases j) (auto split: if_splits simp: nat_less_iff)

lemma runtime_fields_keep: "fields_keep runtime_fits runtime_fields"
proof -
  have s: "fields_keep (\<lambda>s. sc_keep s < 2 ^ 64) snapshot_fields"
    unfolding fields_keep_def snapshot_fields_def by (auto dest: get_uint_bound [of 64, simplified])
  have r: "fields_keep (\<lambda>s. rl_write_bps s < 2 ^ 64 \<and> rl_read_bps s < 2 ^ 64) rate_fields"
    unfolding fields_keep_def rate_fields_def by (auto dest: get_uint_bound [of 64, simplified])
  show ?thesis
    unfolding fields_keep_def runtime_fields_def runtime_fits_def
    using fill_keeps [OF s] fill_keeps [OF r] by auto
qed

lemma volume_fields_keep: "fields_keep volume_fits volume_fields"
  unfolding fields_keep_def volume_fields_def volume_fits_def
  using fill_keeps [OF runtime_fields_keep]
  by (auto simp: smap_fits_def split: option.splits intro: get_smap_ok)

lemma unmarshal_keeps:
  assumes "fields_keep P fs" "unmarshal fs s r = Ok r'" "P r"
  shows "P r'"
  using assms fill_keeps [OF assms(1)] by (auto simp: unmarshal_def split: option.splits)

lemma zero_fits: "runtime_fits zero_runtime" "volume_fits zero_volume"
  by (simp_all add: runtime_fits_def volume_fits_def smap_fits_def zero_defs)

section \<open>The tables\<close>

record volume_tables =
  created :: "string \<times> string \<Rightarrow> Volume option"
  runtimes :: "string \<times> string \<Rightarrow> RuntimeOptions option"

definition read_as :: "(string \<times> 'r field_dec) list \<Rightarrow> 'r \<Rightarrow> string option \<Rightarrow> 'r option" where
  "read_as fs z t = (case t of None \<Rightarrow> None | Some s \<Rightarrow> (case unmarshal fs s z of Ok r \<Rightarrow> Some r | _ \<Rightarrow> None))"

definition named :: "string \<times> string \<Rightarrow> bool" where
  "named k \<longleftrightarrow> name_valid (fst k) \<and> name_valid (snd k)"

definition tables :: "('w, 'z) client_scheme \<Rightarrow> (string \<Rightarrow> string option) \<Rightarrow> volume_tables" where
  "tables c f =
     \<lparr>created = (\<lambda>k. if named k then read_as volume_fields zero_volume (f (volume_key c (fst k) (snd k) ''create'')) else None),
      runtimes = (\<lambda>k. if named k then read_as runtime_fields zero_runtime (f (volume_key c (fst k) (snd k) ''runtime'')) else None)\<rparr>"

section \<open>Operations and their specification\<close>

datatype volume_op =
    Publish Volume
  | Retune Volume RuntimeOptions
  | Fetch string string
  | Discard string string

fun op_fits :: "volume_op \<Rightarrow> bool" where
  "op_fits (Publish v) \<longleftrightarrow> volume_fits v"
| "op_fits (Retune v r) \<longleftrightarrow> runtime_fits r \<and> named (v_policy v, v_name v)"
| "op_fits (Fetch p n) \<longleftrightarrow> named (p, n)"
| "op_fits (Discard p n) \<longleftrightarrow> named (p, n)"

text \<open>The operations of the code, with the volumes they hand out.\<close>

fun volume_call :: "('w, 'z) host_scheme \<Rightarrow> volume_op \<Rightarrow> ('w, goerr, Volume list) io" where
  "volume_call c (Publish v) = andThen (cfg_PublishVolume c v) (\<lambda>_. ret [])"
| "volume_call c (Retune v r) = andThen (PublishVolumeRuntime c v r) (\<lambda>_. ret [])"
| "volume_call c (Fetch p n) = andThen (cfg_GetVolume c p n) (\<lambda>v. ret [v])"
| "volume_call c (Discard p n) = andThen (cfg_RemoveVolume c p n) (\<lambda>_. ret [])"

fun volume_calls :: "('w, 'z) host_scheme \<Rightarrow> volume_op list \<Rightarrow> ('w, goerr, Volume list) io" where
  "volume_calls c [] = ret []"
| "volume_calls c (x # xs) = andThen (volume_call c x) (\<lambda>vs. andThen (volume_calls c xs) (\<lambda>us. ret (vs @ us)))"

text \<open>The specification: insertion of a new entry, update, lookup and deletion.\<close>

fun volume_spec :: "volume_op \<Rightarrow> volume_tables \<Rightarrow> (Volume list \<times> volume_tables) option" where
  "volume_spec (Publish v) t =
     (if created t (v_policy v, v_name v) = None
      then Some ([], \<lparr>created = (created t)((v_policy v, v_name v) \<mapsto> v),
                      runtimes = (runtimes t)((v_policy v, v_name v) \<mapsto> v_runtime v)\<rparr>)
      else None)"
| "volume_spec (Retune v r) t = Some ([], t\<lparr>runtimes := (runtimes t)((v_policy v, v_name v) \<mapsto> r)\<rparr>)"
| "volume_spec (Fetch p n) t =
     (case (created t (p, n), runtimes t (p, n)) of
        (Some v, Some r) \<Rightarrow> Some ([v\<lparr>v_runtime := r\<rparr>], t)
      | _ \<Rightarrow> None)"
| "volume_spec (Discard p n) t =
     Some ([], \<lparr>created = (created t)((p, n) := None), runtimes = (runtimes t)((p, n) := None)\<rparr>)"

fun volume_specs :: "volume_op list \<Rightarrow> volume_tables \<Rightarrow> (Volume list \<times> volume_tables) option" where
  "volume_specs [] t = Some ([], t)"
| "volume_specs (x # xs) t =
     (case volume_spec x t of
        None \<Rightarrow> None
      | Some (vs, t1) \<Rightarrow> (case volume_specs xs t1 of None \<Rightarrow> None | Some (us, t2) \<Rightarrow> Some (vs @ us, t2)))"

section \<open>One simulation step per operation\<close>

lemma read_volume: "volume_fits v \<Longrightarrow> read_as volume_fields zero_volume (Some (volume_text v)) = Some v"
  unfolding volume_text_def read_as_def using unmarshal_render [OF wf_volume_json fill_volume] by simp

lemma read_runtime: "runtime_fits r \<Longrightarrow> read_as runtime_fields zero_runtime (Some (runtime_text r)) = Some r"
  unfolding runtime_text_def read_as_def using unmarshal_render [OF _ fill_runtime, of r] by simp

lemma tables_cong:
  assumes "\<And>k t. named k \<Longrightarrow> plain_seg t \<Longrightarrow> f (volume_key c (fst k) (snd k) t) = g (volume_key c (fst k) (snd k) t)"
  shows "tables c f = tables c g"
  using assms [of "(_, _)"] create_plain by (auto simp: tables_def fun_eq_iff)

text \<open>A write to one key of the store changes one entry of one table.\<close>

lemma other_keys:
  assumes "wf_prefix (c_prefix c)" "named k" "named k'" "plain_seg s" "plain_seg t"
  shows "volume_key c (fst k) (snd k) s = volume_key c (fst k') (snd k') t \<longleftrightarrow> k = k' \<and> s = t"
    and "volume_key c (fst k) (snd k) s \<noteq> volume_dir c (fst k') (snd k')"
  using volume_key_inj [OF assms(1), of "fst k" "snd k" s "fst k'" "snd k'" t] assms(2-)
    volume_dir_not_key [OF assms(1), of "fst k" "snd k" s "fst k'" "snd k'"]
  by (auto simp: named_def prod_eq_iff)

lemma retune_simulated:
  assumes "etcd c fval" "wf_prefix (c_prefix c)" "runtime_fits r" "named (v_policy v, v_name v)"
    and "PublishVolumeRuntime c v r w = (Ok (), w')"
  shows "tables c (fval w') = (tables c (fval w))\<lparr>runtimes := (runtimes (tables c (fval w)))((v_policy v, v_name v) \<mapsto> r)\<rparr>"
proof -
  note e = etcd.runtime_publish_ok [OF assms(1), OF assms(5)]
  note o1 = other_keys [OF assms(2) _ assms(4) _ create_plain(2), simplified]
  have c: "fval w' (volume_key c (fst k) (snd k) ''create'') = fval w (volume_key c (fst k) (snd k) ''create'')" if "named k" for k
    using e(3) o1 [OF that create_plain(1)] by auto
  have r: "fval w' (volume_key c (fst k) (snd k) ''runtime'') =
      (if k = (v_policy v, v_name v) then Some (runtime_text r) else fval w (volume_key c (fst k) (snd k) ''runtime''))" if "named k" for k
    using e(2,3) o1 [OF that create_plain(2)] by auto
  show ?thesis using assms(4) by (auto simp: tables_def c [of "(_, _)", simplified] r [of "(_, _)", simplified] fun_eq_iff read_runtime [OF assms(3)])
qed

lemma publish_simulated:
  assumes "etcd c fval" "wf_prefix (c_prefix c)" "volume_fits v" "cfg_PublishVolume c v w = (Ok (), w')"
  shows "volume_spec (Publish v) (tables c (fval w)) = Some ([], tables c (fval w'))"
proof -
  obtain r w1 n w2 where ok: "volume_ok c v" and d: "make_volume_dir c v w = (r, w1)"
    and s: "kv_set c (volume_key c (v_policy v) (v_name v) ''create'') (volume_text v) (set_nil\<lparr>so_exist := PrevNoExist\<rparr>) w1 = (Ok n, w2)"
    and rt: "PublishVolumeRuntime c v (v_runtime v) w2 = (Ok (), w')"
    using assms(4) by (rule PublishVolume_OkE)
  let ?k = "(v_policy v, v_name v)"
  have k: "named ?k" using ok by (simp add: named_def volume_ok_def)
  have fits: "runtime_fits (v_runtime v)" using assms(3) by (simp add: volume_fits_def)
  have t1: "tables c (fval w1) = tables c (fval w)"
    using etcd.dir_keeps [OF assms(1), OF d [unfolded make_volume_dir_def]] other_keys(2) [OF assms(2) _ k]
    by (intro tables_cong) auto
  from etcd.set_ok [OF assms(1), OF s]
  have e: "fval w1 (volume_key c (v_policy v) (v_name v) ''create'') = None"
    "fval w2 = (fval w1)(volume_key c (v_policy v) (v_name v) ''create'' \<mapsto> volume_text v)"
    by (simp_all add: admits_def)
  note o1 = other_keys(1) [OF assms(2) _ k _ create_plain(1), simplified]
  have "tables c (fval w2) = (tables c (fval w1))\<lparr>created := (created (tables c (fval w1)))(?k \<mapsto> v)\<rparr>"
    using k o1 [OF _ create_plain(1)] o1 [OF _ create_plain(2)]
    by (auto simp: tables_def e(2) fun_eq_iff read_volume [OF assms(3)])
  moreover have "created (tables c (fval w1)) ?k = None" by (simp add: tables_def e(1) read_as_def)
  ultimately show ?thesis
    by (simp add: retune_simulated [OF assms(1,2) fits k rt] t1)
qed

lemma parse_empty: "parse [] = None" by code_simp

lemma fetch_simulated:
  assumes "etcd c fval" "named (p, n)" "cfg_GetVolume c p n w = (Ok v, w')"
  shows "volume_spec (Fetch p n) (tables c (fval w)) = Some ([v], tables c (fval w'))"
proof -
  obtain n1 w1 v1 n2 r where g1: "kv_get c (volume_key c p n ''create'') get_nil w = (Ok n1, w1)"
    and u1: "unmarshal volume_fields (n_value n1) zero_volume = Ok v1"
    and g2: "kv_get c (volume_key c p n ''runtime'') get_nil w1 = (Ok n2, w')"
    and u2: "unmarshal runtime_fields (n_value n2) zero_runtime = Ok r" and v: "v = v1\<lparr>v_runtime := r\<rparr>"
    using assms(3) unfolding cfg_GetVolume_def GetVolumeRuntime_def by (auto elim!: attempt_OkE andThen_OkE lift_OkE)
  have k: "fval w1 = fval w" "fval w' = fval w1"
    by (rule etcd.get_keeps [OF assms(1), OF g1], rule etcd.get_keeps [OF assms(1), OF g2])
  have f: "\<not> n_dir n1" "\<not> n_dir n2"
    using etcd.get_dir [OF assms(1), OF g1] etcd.get_dir [OF assms(1), OF g2] u1 u2
    by (auto simp: unmarshal_def parse_empty)
  have "fval w (volume_key c p n ''create'') = Some (n_value n1)" "fval w (volume_key c p n ''runtime'') = Some (n_value n2)"
    using etcd.get_ok [OF assms(1), OF g1] etcd.get_ok [OF assms(1), OF g2] f k by simp_all
  then show ?thesis using assms(2) u1 u2 k v by (simp add: tables_def read_as_def)
qed

lemma discard_simulated:
  assumes "etcd c fval" "wf_prefix (c_prefix c)" "named (p, n)" "cfg_RemoveVolume c p n w = (Ok (), w')"
  shows "volume_spec (Discard p n) (tables c (fval w)) = Some ([], tables c (fval w'))"
proof -
  obtain nd w1 where d: "kv_del c (volume_dir c p n) (del_nil\<lparr>do_recursive := True\<rparr>) w = (Ok nd, w1)" "w' = w1"
    using assms(4) unfolding cfg_RemoveVolume_def by (auto elim!: attempt_OkE)
  have e: "fval w' = prune (volume_dir c p n) (fval w)"
    using etcd.del_tree_ok [OF assms(1), OF d(1)] d(2) by simp
  have k: "fval w' (volume_key c a b t) = (if (a, b) = (p, n) then None else fval w (volume_key c a b t))"
    if "named (a, b)" "plain_seg t" for a b t
    using volume_below [OF assms(2), of a b t p n] volume_dir_not_key [OF assms(2), of a b t p n] that assms(3)
    by (auto simp: e prune_def named_def)
  show ?thesis using assms(3) by (auto simp: tables_def fun_eq_iff k create_plain read_as_def)
qed

lemma op_simulated:
  assumes "etcd c fval" "wf_prefix (c_prefix c)" "op_fits x" "volume_call c x w = (Ok vs, w')"
  shows "volume_spec x (tables c (fval w)) = Some (vs, tables c (fval w'))"
proof (cases x)
  case (Publish v)
  with assms(3,4) have p: "volume_fits v" "cfg_PublishVolume c v w = (Ok (), w')" "vs = []" by (auto elim!: andThen_OkE)
  show ?thesis unfolding Publish p(3) by (rule publish_simulated [OF assms(1,2) p(1,2)])
next
  case (Retune v r)
  with assms(3,4) have p: "runtime_fits r" "named (v_policy v, v_name v)" "PublishVolumeRuntime c v r w = (Ok (), w')" "vs = []"
    by (auto elim!: andThen_OkE)
  show ?thesis unfolding Retune p(4) by (simp add: retune_simulated [OF assms(1,2) p(1-3)])
next
  case (Fetch p n)
  with assms(3,4) obtain v where g: "named (p, n)" "cfg_GetVolume c p n w = (Ok v, w')" "vs = [v]"
    by (auto elim!: andThen_OkE)
  show ?thesis unfolding Fetch g(3) by (rule fetch_simulated [OF assms(1) g(1,2)])
next
  case (Discard p n)
  with assms(3,4) have d: "named (p, n)" "cfg_RemoveVolume c p n w = (Ok (), w')" "vs = []" by (auto elim!: andThen_OkE)
  show ?thesis unfolding Discard d(3) by (rule discard_simulated [OF assms(1,2) d(1,2)])
qed

section \<open>Properties\<close>

text \<open>
  C28. Any sequence of publications, changes of the runtime options, retrievals and removals of volumes
  that succeeds is a run of the tables: each volume handed out is the entry of the tables,
  a publication had found no entry, and the store ends as the tables do, no entry but those
  addressed having changed.
\<close>

theorem volume_store_refines_tables:
  assumes "etcd c fval" "wf_prefix (c_prefix c)" "\<forall>x \<in> set xs. op_fits x" "volume_calls c xs w = (Ok vs, w')"
  shows "volume_specs xs (tables c (fval w)) = Some (vs, tables c (fval w'))"
  using assms(3,4)
proof (induction xs arbitrary: w vs)
  case (Cons x xs)
  from Cons.prems(2) obtain vs1 w1 us where x: "volume_call c x w = (Ok vs1, w1)"
    and xs: "volume_calls c xs w1 = (Ok us, w')" and vs: "vs = vs1 @ us"
    by (auto elim!: andThen_OkE)
  have "volume_spec x (tables c (fval w)) = Some (vs1, tables c (fval w1))"
    using op_simulated [OF assms(1,2) _ x] Cons.prems(1) by simp
  moreover have "volume_specs xs (tables c (fval w1)) = Some (us, tables c (fval w'))"
    using Cons.IH [OF _ xs] Cons.prems(1) by simp
  ultimately show ?case using vs by simp
qed simp

definition daily :: RuntimeOptions where
  "daily = zero_runtime\<lparr>ro_use_snapshots := True, ro_snapshot := \<lparr>sc_frequency = ''24h'', sc_keep = 7\<rparr>\<rparr>"

definition silver_ops :: "volume_op list" where
  "silver_ops = [Publish silver, Retune silver daily, Fetch ''gold'' ''db'', Discard ''gold'' ''db'']"

theorem volume_store_refines_tables_witness:
  "\<exists>w'. volume_calls (machine_host 1) silver_ops machine_start = (Ok [silver\<lparr>v_runtime := daily\<rparr>], w') \<and>
     volume_specs silver_ops (tables (machine_host 1) (mem_file machine_start))
       = Some ([silver\<lparr>v_runtime := daily\<rparr>], tables (machine_host 1) (mem_file w'))"
proof -
  let ?r = "volume_calls (machine_host 1) silver_ops machine_start"
  have "case fst ?r of Ok vs \<Rightarrow> vs = [silver\<lparr>v_runtime := daily\<rparr>] | _ \<Rightarrow> False" by code_simp
  then have "fst ?r = Ok [silver\<lparr>v_runtime := daily\<rparr>]" by (cases "fst ?r") auto
  then have r: "?r = (Ok [silver\<lparr>v_runtime := daily\<rparr>], snd ?r)" by (metis prod.collapse)
  have fits: "\<forall>x \<in> set silver_ops. op_fits x"
    using silver_fits by (simp add: silver_ops_def daily_def runtime_fits_def zero_defs named_def silver_def name_valid_def)
  from volume_store_refines_tables [OF machine.etcd_axioms machine_prefix fits r] r show ?thesis by auto
qed



end
