(* ===== verification/Config_Global.thy ===== *)
theory Config_Global imports Config_Policy begin

text \<open>
  \<open>config/global.go\<close>: the global configuration, its two representations (published: minutes and
  seconds; canonical: nanoseconds in an \<open>int64\<close>, whose products wrap) and its storage.
\<close>

section \<open>Durations\<close>

text \<open>\<open>int64\<close> arithmetic: products wrap, division truncates towards zero.\<close>

definition wrap64 :: "int \<Rightarrow> int" where
  "wrap64 i = (i + 2 ^ 63) mod 2 ^ 64 - 2 ^ 63"

definition go_div :: "int \<Rightarrow> int \<Rightarrow> int" where
  "go_div a b = (if (a < 0) = (b < 0) then \<bar>a\<bar> div \<bar>b\<bar> else - (\<bar>a\<bar> div \<bar>b\<bar>))"

definition int64 :: "int \<Rightarrow> bool" where
  "int64 i \<longleftrightarrow> - (2 ^ 63) \<le> i \<and> i < 2 ^ 63"

section \<open>The configuration\<close>

record Global =
  g_debug :: bool
  g_timeout :: int
  g_ttl :: int
  g_mount_path :: string

definition DefaultGlobalTTL :: int where "DefaultGlobalTTL = 30 * second"
definition DefaultTimeout :: int where "DefaultTimeout = 10 * minute"
definition defaultMountPath :: string where "defaultMountPath = ''/mnt/ceph''"
definition timeoutFixBase :: int where "timeoutFixBase = minute"
definition ttlFixBase :: int where "ttlFixBase = second"

definition zero_global :: Global where
  "zero_global = \<lparr>g_debug = False, g_timeout = 0, g_ttl = 0, g_mount_path = []\<rparr>"

definition NewGlobalConfig :: Global where
  "NewGlobalConfig = \<lparr>g_debug = False, g_timeout = DefaultTimeout, g_ttl = DefaultGlobalTTL, g_mount_path = defaultMountPath\<rparr>"

definition global_json :: "Global \<Rightarrow> json" where
  "global_json g = JObj (field ''Debug'' (JBool (g_debug g)) @ field ''Timeout'' (JNum (g_timeout g)) @
     field ''TTL'' (JNum (g_ttl g)) @ field ''MountPath'' (JStr (g_mount_path g)))"

definition global_fields :: "(string \<times> Global field_dec) list" where
  "global_fields =
     [(''Debug'', \<lambda>j r. map_option (\<lambda>x. r\<lparr>g_debug := x\<rparr>) (get_bool j (g_debug r))),
      (''Timeout'', \<lambda>j r. map_option (\<lambda>x. r\<lparr>g_timeout := x\<rparr>) (get_int 64 j (g_timeout r))),
      (''TTL'', \<lambda>j r. map_option (\<lambda>x. r\<lparr>g_ttl := x\<rparr>) (get_int 64 j (g_ttl r))),
      (''MountPath'', \<lambda>j r. map_option (\<lambda>x. r\<lparr>g_mount_path := x\<rparr>) (get_string j (g_mount_path r)))]"

definition SetEmpty :: "Global \<Rightarrow> Global" where
  "SetEmpty global =
     global\<lparr>g_timeout := (if g_timeout global = 0 then DefaultTimeout else g_timeout global),
            g_ttl := (if g_ttl global = 0 then DefaultGlobalTTL else g_ttl global),
            g_mount_path := (if g_mount_path global = [] then defaultMountPath else g_mount_path global)\<rparr>"

definition Published :: "Global \<Rightarrow> Global" where
  "Published global =
     global\<lparr>g_ttl := go_div (g_ttl global) ttlFixBase, g_timeout := go_div (g_timeout global) timeoutFixBase\<rparr>"

definition Canonical :: "Global \<Rightarrow> Global" where
  "Canonical global =
     global\<lparr>g_ttl := (if g_ttl global < ttlFixBase then wrap64 (g_ttl global * ttlFixBase) else g_ttl global),
            g_timeout := (if g_timeout global < timeoutFixBase then wrap64 (g_timeout global * timeoutFixBase)
                          else g_timeout global)\<rparr>"

definition NewGlobalConfigFromJSON :: "string \<Rightarrow> Global res" where
  "NewGlobalConfigFromJSON content =
     bind_res (unmarshal global_fields content NewGlobalConfig) (\<lambda>g. Ok (SetEmpty g))"

section \<open>Its storage\<close>

definition global_key :: "('w, 'z) client_scheme \<Rightarrow> string" where
  "global_key c = prefixed c [''global-config'']"

definition cfg_PublishGlobal :: "('w, 'z) client_scheme \<Rightarrow> Global \<Rightarrow> ('w, goerr, unit) io" where
  "cfg_PublishGlobal c g = etcd_set c (global_key c) (render (global_json (Canonical g))) set_nil"

text \<open>The error of the read is passed on as the client gave it.\<close>

definition cfg_GetGlobal :: "('w, 'z) client_scheme \<Rightarrow> ('w, goerr, Global) io" where
  "cfg_GetGlobal c =
     andThen (kv_get c (global_key c) get_nil) (\<lambda>n.
     andThen (lift (unmarshal global_fields (n_value n) NewGlobalConfig)) (\<lambda>g. ret (SetEmpty g)))"

text \<open>
  The callback of \<open>WatchGlobal\<close>: what is sent to the channel for an event. The record is decoded into
  an empty one, and a record that does not decode sends nothing, after a pause.
\<close>

definition global_event :: "('w, 'z) host_scheme \<Rightarrow> string \<Rightarrow> node \<Rightarrow> ('w, goerr, (string \<times> Global) option) io" where
  "global_event c action n =
     (if action = ''delete'' then ret (Some (n_key n, NewGlobalConfig))
      else (case unmarshal global_fields (n_value n) zero_global of
          Ok g \<Rightarrow> ret (Some (n_key n, g))
        | Err e \<Rightarrow> andThen (modify (h_sleep c second)) (\<lambda>_. ret None)
        | Panic m \<Rightarrow> panic m
        | Hang \<Rightarrow> hang))"

section \<open>Lemmas\<close>

lemmas global_defs = DefaultGlobalTTL_def DefaultTimeout_def defaultMountPath_def timeoutFixBase_def ttlFixBase_def time_defs

lemma wrap64_int64: "int64 (wrap64 i)"
proof -
  have "0 \<le> (i + 2 ^ 63) mod 2 ^ 64" "(i + 2 ^ 63) mod 2 ^ 64 < (2 ^ 64 :: int)" by simp_all
  then show ?thesis by (simp add: int64_def wrap64_def)
qed

lemma wrap64_id: "int64 i \<Longrightarrow> wrap64 i = i"
  by (simp add: int64_def wrap64_def)

lemma wrap64_iff: "wrap64 i = i \<longleftrightarrow> int64 i"
  using wrap64_int64 [of i] wrap64_id [of i] by auto

lemma go_div_mult: "0 \<le> a \<Longrightarrow> 0 < b \<Longrightarrow> go_div (a * b) b = a"
  by (simp add: go_div_def not_less)

definition global_fits :: "Global \<Rightarrow> bool" where
  "global_fits g \<longleftrightarrow> int64 (g_timeout g) \<and> int64 (g_ttl g)"

lemma Canonical_fits: "global_fits g \<Longrightarrow> global_fits (Canonical g)"
  by (simp add: global_fits_def Canonical_def wrap64_int64)

lemma wf_global_json [simp]: "wf_json (global_json g)"
  by (simp add: global_json_def json_fields)

lemma fill_global: "global_fits g \<Longrightarrow> fill global_fields (global_json g) z = Some g"
  by (simp add: global_json_def global_fields_def json_fields fold_eq_def lower_char_def global_fits_def int64_def)

lemma get_kept_global:
  assumes "etcd_up c fval free" "global_fits g" "fval w (global_key c) = Some (render (global_json g))"
  shows "\<exists>w'. cfg_GetGlobal c w = (Ok (SetEmpty g), w') \<and> fval w' = fval w"
proof -
  obtain n w' where r: "kv_get c (global_key c) get_nil w = (Ok n, w')" "n_value n = render (global_json g)" "fval w' = fval w"
    using etcd_up.get_file [OF assms(1), OF assms(3)] by blast
  have "unmarshal global_fields (n_value n) NewGlobalConfig = Ok g"
    unfolding r(2) by (rule unmarshal_render) (simp_all add: fill_global assms(2))
  then show ?thesis using r by (auto simp: cfg_GetGlobal_def)
qed

section \<open>Properties\<close>

text \<open>
  A global configuration that was published is read back in its canonical form, with the empty
  parameters replaced by the defaults.
\<close>

theorem global_roundtrip:
  assumes "etcd_up c fval free" "global_fits g" "cfg_PublishGlobal c g w = (Ok (), w1)"
  shows "\<exists>w2. cfg_GetGlobal c w1 = (Ok (SetEmpty (Canonical g)), w2) \<and> fval w2 = fval w1"
proof -
  have "etcd c fval" using assms(1) by (simp add: etcd_up_def)
  from etcd.etcd_set_ok [OF this assms(3) [unfolded cfg_PublishGlobal_def]]
  have "fval w1 (global_key c) = Some (render (global_json (Canonical g)))" by simp
  from get_kept_global [OF assms(1), OF Canonical_fits [OF assms(2)] this] show ?thesis .
qed

theorem global_roundtrip_witness:
  "\<exists>w2. cfg_GetGlobal (machine_host 1) (snd (cfg_PublishGlobal (machine_host 1) (zero_global\<lparr>g_ttl := 60\<rparr>) machine_start)) =
     (Ok \<lparr>g_debug = False, g_timeout = 600000000000, g_ttl = 60000000000, g_mount_path = ''/mnt/ceph''\<rparr>, w2)"
proof -
  let ?g = "zero_global\<lparr>g_ttl := 60\<rparr>"
  have "fst (cfg_PublishGlobal (machine_host 1) ?g machine_start) = Ok ()" by code_simp
  then have p: "cfg_PublishGlobal (machine_host 1) ?g machine_start =
      (Ok (), snd (cfg_PublishGlobal (machine_host 1) ?g machine_start))" by (metis prod.collapse)
  have f: "global_fits ?g" by (simp add: global_fits_def int64_def zero_global_def)
  have "SetEmpty (Canonical ?g) = \<lparr>g_debug = False, g_timeout = 600000000000, g_ttl = 60000000000, g_mount_path = ''/mnt/ceph''\<rparr>"
    by (simp add: SetEmpty_def Canonical_def zero_global_def global_defs wrap64_def)
  with global_roundtrip [OF machine.etcd_up_axioms f p] show ?thesis by auto
qed

text \<open>
  C27. The bounds of the conversion: for parameters in the published units (seconds below one second's
  worth of nanoseconds, minutes below one minute's worth) \<open>Published\<close> undoes \<open>Canonical\<close> exactly when the
  timeout is at most 153722867 minutes; above that the product has wrapped.
\<close>

theorem canonical_bounds:
  assumes "0 \<le> g_ttl g" "g_ttl g < ttlFixBase" "0 \<le> g_timeout g" "g_timeout g < timeoutFixBase"
  shows "Published (Canonical g) = g \<longleftrightarrow> g_timeout g \<le> 153722867"
proof -
  have ttl: "go_div (wrap64 (g_ttl g * ttlFixBase)) ttlFixBase = g_ttl g"
  proof -
    have "int64 (g_ttl g * ttlFixBase)" using assms(1,2) by (simp add: int64_def global_defs)
    then show ?thesis using go_div_mult [OF assms(1), of ttlFixBase] by (simp add: wrap64_id global_defs)
  qed
  have ok: "go_div (wrap64 (g_timeout g * timeoutFixBase)) timeoutFixBase = g_timeout g" if "g_timeout g \<le> 153722867"
  proof -
    have "int64 (g_timeout g * timeoutFixBase)" using assms(3) that by (simp add: int64_def global_defs)
    then show ?thesis using go_div_mult [OF assms(3), of timeoutFixBase] by (simp add: wrap64_id global_defs)
  qed
  have bad: "go_div (wrap64 (g_timeout g * timeoutFixBase)) timeoutFixBase \<noteq> g_timeout g" if "153722867 < g_timeout g"
  proof -
    let ?x = "wrap64 (g_timeout g * timeoutFixBase)"
    have "?x < 2 ^ 63" using wrap64_int64 [of "g_timeout g * timeoutFixBase"] by (simp add: int64_def)
    then have "go_div ?x timeoutFixBase \<le> 153722867"
      by (auto simp: go_div_def global_defs)
    then show ?thesis using that by simp
  qed
  have "Published (Canonical g) = g \<longleftrightarrow> go_div (wrap64 (g_timeout g * timeoutFixBase)) timeoutFixBase = g_timeout g"
    using assms(2,4) ttl by (cases g) (simp add: Published_def Canonical_def)
  then show ?thesis using ok bad by (meson not_le)
qed

theorem canonical_bounds_witness:
  "Published (Canonical \<lparr>g_debug = False, g_timeout = 153722868, g_ttl = 30, g_mount_path = ''/mnt''\<rparr>) \<noteq>
     \<lparr>g_debug = False, g_timeout = 153722868, g_ttl = 30, g_mount_path = ''/mnt''\<rparr>"
  using canonical_bounds [of "\<lparr>g_debug = False, g_timeout = 153722868, g_ttl = 30, g_mount_path = ''/mnt''\<rparr>"]
  by (simp add: global_defs)

end
