(* ===== verification/Control.thy ===== *)
theory Control imports Config_Volume Config_Global begin

text \<open>
  \<open>storage/control\<close>: the storage side of a volume's life, through the CRUD driver of its backend, and
  \<open>storage/cgroup\<close>: the rate limits of a mount.
\<close>

section \<open>control/volume.go\<close>

definition defaultFsCmd :: string where "defaultFsCmd = ''mkfs.ext4 -m0 %''"

text \<open>\<open>config.Backends\<close>: using a nil pointer panics.\<close>

definition with_backends :: "Volume \<Rightarrow> (BackendDrivers \<Rightarrow> ('w, goerr, 'a) io) \<Rightarrow> ('w, goerr, 'a) io" where
  "with_backends v k = (case v_backends v of None \<Rightarrow> panic nil_deref | Some b \<Rightarrow> k b)"

definition file_system_command :: "Policy \<Rightarrow> Volume \<Rightarrow> string res" where
  "file_system_command policy config =
     (case p_filesystems policy of
        None \<Rightarrow> Ok defaultFsCmd
      | Some fs \<Rightarrow>
          (case map_of fs (co_filesystem (v_create config)) of
             None \<Rightarrow> Err (Fresh ''Invalid filesystem'')
           | Some cmd \<Rightarrow> Ok cmd))"

definition size_of :: "('w, 'z) host_scheme \<Rightarrow> Volume \<Rightarrow> nat res" where
  "size_of c config =
     (case snd (ActualSize c (v_create config)) of None \<Rightarrow> Ok (fst (ActualSize c (v_create config))) | Some e \<Rightarrow> Err e)"

definition create_options :: "Volume \<Rightarrow> string \<Rightarrow> nat \<Rightarrow> int \<Rightarrow> DriverOptions" where
  "create_options config fscmd actualSize timeout =
     \<lparr>d_source = [],
      d_volume = \<lparr>sv_name = Volume_String config, sv_size = actualSize, sv_params = v_driver config\<rparr>,
      d_fs = \<lparr>fs_type = co_filesystem (v_create config), fs_create_command = fscmd\<rparr>,
      d_timeout = timeout, d_options = None\<rparr>"

definition ctl_CreateVolume :: "('w, 'z) host_scheme \<Rightarrow> Policy \<Rightarrow> Volume \<Rightarrow> int \<Rightarrow> ('w, goerr, DriverOptions) io" where
  "ctl_CreateVolume c policy config timeout =
     with_backends config (\<lambda>b.
       if bd_crud b = [] then fail NoActionTaken
       else
         andThen (lift (file_system_command policy config)) (\<lambda>fscmd.
         andThen (lift (size_of c config)) (\<lambda>actualSize.
         andThen (lift (NewCRUDDriver c (bd_crud b))) (\<lambda>driver.
         andThen (cd_create driver (create_options config fscmd actualSize timeout)) (\<lambda>_.
           ret (create_options config fscmd actualSize timeout))))))"

definition ctl_FormatVolume :: "('w, 'z) host_scheme \<Rightarrow> Volume \<Rightarrow> DriverOptions \<Rightarrow> ('w, goerr, unit) io" where
  "ctl_FormatVolume c config opts =
     andThen (lift (size_of c config)) (\<lambda>actualSize.
     with_backends config (\<lambda>b.
       if bd_crud b = [] then fail NoActionTaken
       else andThen (lift (NewCRUDDriver c (bd_crud b))) (\<lambda>driver. cd_format driver opts)))"

text \<open>The options of a volume that is only looked up or destroyed.\<close>

definition bare_options :: "Volume \<Rightarrow> int \<Rightarrow> DriverOptions" where
  "bare_options config timeout =
     zero_driver_options\<lparr>d_volume := \<lparr>sv_name = Volume_String config, sv_size = 0, sv_params = v_driver config\<rparr>,
       d_timeout := timeout\<rparr>"

text \<open>
  Without a backend \<open>ExistsVolume\<close> returns true along with \<open>NoActionTaken\<close>; its callers look at the error
  first.
\<close>

definition ctl_ExistsVolume :: "('w, 'z) host_scheme \<Rightarrow> Volume \<Rightarrow> int \<Rightarrow> ('w, goerr, bool) io" where
  "ctl_ExistsVolume c config timeout =
     with_backends config (\<lambda>b.
       if bd_crud b = [] then fail NoActionTaken
       else andThen (lift (NewCRUDDriver c (bd_crud b))) (\<lambda>driver. cd_exists driver (bare_options config timeout)))"

definition ctl_RemoveVolume :: "('w, 'z) host_scheme \<Rightarrow> Volume \<Rightarrow> int \<Rightarrow> ('w, goerr, unit) io" where
  "ctl_RemoveVolume c config timeout =
     with_backends config (\<lambda>b.
       if bd_crud b = [] then fail NoActionTaken
       else andThen (lift (NewCRUDDriver c (bd_crud b))) (\<lambda>driver. cd_destroy driver (bare_options config timeout)))"

section \<open>cgroup/cgroup.go\<close>

definition writeBPSFile :: string where "writeBPSFile = ''/sys/fs/cgroup/blkio/blkio.throttle.write_bps_device''"
definition readBPSFile :: string where "readBPSFile = ''/sys/fs/cgroup/blkio/blkio.throttle.read_bps_device''"

definition makeLimit :: "Mount \<Rightarrow> nat \<Rightarrow> string" where
  "makeLimit mc limit = format_nat (mt_major mc) @ '':'' @ format_nat (mt_minor mc) @ '' '' @ format_nat limit @ [CHR 0x0A]"

text \<open>The two files in the order the range over the map takes them, up to the first that cannot be written.\<close>

fun write_limits :: "('w, 'z) host_scheme \<Rightarrow> Mount \<Rightarrow> (string \<times> nat) list \<Rightarrow> string list \<Rightarrow> ('w, goerr, unit) io" where
  "write_limits c mc opMap [] = ret ()"
| "write_limits c mc opMap (fn # fns) =
     (case map_of opMap fn of
        None \<Rightarrow> write_limits c mc opMap fns
      | Some val \<Rightarrow> andThen (h_write_file c fn (makeLimit mc val)) (\<lambda>_. write_limits c mc opMap fns))"

definition ApplyCGroupRateLimit :: "('w, 'z) host_scheme \<Rightarrow> RuntimeOptions \<Rightarrow> Mount \<Rightarrow> ('w, goerr, unit) io" where
  "ApplyCGroupRateLimit c ro mc =
     (let opMap = [(writeBPSFile, rl_write_bps (ro_rate_limit ro)), (readBPSFile, rl_read_bps (ro_rate_limit ro))]
      in write_limits c mc opMap (h_order c (map fst opMap)))"

end
