(* ===== verification/Watch.thy ===== *)
theory Watch imports Control begin

text \<open>
  \<open>watch/watch.go\<close>: the watchers of etcd keys and their registry, and the callbacks that package
  \<open>config\<close> runs on the events: policies uploaded, runtime options changed, snapshots asked for.
\<close>

section \<open>What a watcher is given and what it sends\<close>

text \<open>An answer of the etcd watcher's \<open>Next\<close>: an event (the action and the node), an error, or the error of a
  cancelled context.\<close>

datatype next_result = Event string node | NextErr goerr | Canceled

datatype watch_config =
    NoConfig
  | GlobalConfig Global
  | VolumeConfig Volume
  | RevisionConfig string string

record watch =
  wa_key :: string
  wa_config :: watch_config

text \<open>
  A callback sends one value at most. The value it would send is its result; the receiver of the
  channel takes the values in order.
\<close>

type_synonym 'w callback = "string \<Rightarrow> node \<Rightarrow> ('w, goerr, watch option) io"

text \<open>
  The goroutine of a watcher runs, waits for room in the error channel (a buffer of one that has no
  reader in the program), or has ended.
\<close>

datatype watch_status = Running | Blocked goerr | Done

record watcher =
  wt_path :: string
  wt_stop :: bool           \<comment> \<open>\<open>StopChannel\<close> has been sent a message\<close>
  wt_errors :: "goerr list" \<comment> \<open>the buffer of \<open>ErrorChannel\<close>\<close>
  wt_stop_on_error :: bool
  wt_recursive :: bool
  wt_status :: watch_status

definition NewWatcher :: "string \<Rightarrow> watcher" where
  "NewWatcher path =
     \<lparr>wt_path = path, wt_stop = False, wt_errors = [], wt_stop_on_error = False, wt_recursive = True, wt_status = Running\<rparr>"

text \<open>\<open>time.Now()\<close> between other calls.\<close>

definition read_clock :: "('w, 'z) host_scheme \<Rightarrow> ('w, goerr, int) io" where
  "read_clock c w = (case h_now c w of (t, w') \<Rightarrow> (Ok t, w'))"

section \<open>The goroutine of a watcher\<close>

text \<open>What happens on one answer of \<open>Next\<close>.\<close>

definition watch_error :: "('w, 'z) host_scheme \<Rightarrow> goerr \<Rightarrow> watcher \<Rightarrow> ('w, goerr, watcher) io" where
  "watch_error c e w =
     (if wt_errors w \<noteq> [] then ret (w\<lparr>wt_status := Blocked e\<rparr>)
      else if wt_stop_on_error w then ret (w\<lparr>wt_errors := [e], wt_stop := True, wt_status := Done\<rparr>)
      else andThen (modify (h_sleep c second)) (\<lambda>_. ret (w\<lparr>wt_errors := [e]\<rparr>)))"

definition watch_step :: "('w, 'z) host_scheme \<Rightarrow> 'w callback \<Rightarrow> next_result \<Rightarrow> watcher \<Rightarrow> ('w, goerr, watcher \<times> watch list) io" where
  "watch_step c f r w =
     (if wt_status w \<noteq> Running then ret (w, [])
      else (case r of
          Event action node \<Rightarrow> andThen (f action node) (\<lambda>x. ret (w, (case x of None \<Rightarrow> [] | Some v \<Rightarrow> [v])))
        | NextErr e \<Rightarrow> andThen (watch_error c e w) (\<lambda>w'. ret (w', []))
        | Canceled \<Rightarrow> ret (w\<lparr>wt_status := Done\<rparr>, [])))"

fun watch_run :: "('w, 'z) host_scheme \<Rightarrow> 'w callback \<Rightarrow> next_result list \<Rightarrow> watcher \<Rightarrow> ('w, goerr, watcher \<times> watch list) io" where
  "watch_run c f [] w = ret (w, [])"
| "watch_run c f (r # rs) w =
     andThen (watch_step c f r w) (\<lambda>(w1, out1). andThen (watch_run c f rs w1) (\<lambda>(w2, out2). ret (w2, out1 @ out2)))"

section \<open>The registry\<close>

text \<open>\<open>watchers\<close>: the watchers of a path in the order of their creation.\<close>

type_synonym registry = "string \<Rightarrow> watcher list option"

text \<open>\<open>Create\<close> without a client (before \<open>Init\<close>) only logs.\<close>

definition watch_Create :: "bool \<Rightarrow> watcher \<Rightarrow> registry \<Rightarrow> registry" where
  "watch_Create inited w reg =
     (if \<not> inited then reg
      else reg(wt_path w \<mapsto> (case reg (wt_path w) of None \<Rightarrow> [] | Some ws \<Rightarrow> ws) @ [w]))"

text \<open>
  \<open>Stop\<close> sends one message to each watcher of the path, which cancels its context, and forgets them;
  the stopped watchers are the first component.
\<close>

definition watch_Stop :: "string \<Rightarrow> registry \<Rightarrow> watcher list \<times> registry" where
  "watch_Stop path reg =
     (case reg path of
        None \<Rightarrow> ([], reg)
      | Some ws \<Rightarrow> (map (\<lambda>w. w\<lparr>wt_stop := True\<rparr>) ws, reg(path := None)))"

section \<open>The callbacks of package config\<close>

text \<open>\<open>WatchGlobal\<close>\<close>

definition global_callback :: "('w, 'z) host_scheme \<Rightarrow> 'w callback" where
  "global_callback c action node =
     andThen (global_event c action node)
       (\<lambda>x. ret (map_option (\<lambda>(k, g). \<lparr>wa_key = k, wa_config = GlobalConfig g\<rparr>) x))"

text \<open>\<open>WatchForPolicyChanges\<close>: \<open>name[:len(name)-1]\<close> of an empty name panics.\<close>

definition revision_callback :: "('w, 'z) client_scheme \<Rightarrow> 'w callback" where
  "revision_callback c action node =
     (let keyspace = prefixed c [rootPolicyArchive] in
      if \<not> has_prefix (keyspace @ slash) (n_key node) then ret None
      else (case path_split (trim_prefix (keyspace @ slash) (n_key node)) of
          (name, revision) \<Rightarrow>
            if name = [] then panic ''slice bounds out of range''
            else ret (Some \<lparr>wa_key = n_key node, wa_config = RevisionConfig (butlast name) revision\<rparr>)))"

text \<open>
  \<open>WatchVolumeRuntimes\<close>: the policy is passed on with the slash \<open>path.Split\<close> leaves; the key of the
  volume is the same. A volume that cannot be retrieved sends nothing; an update that is a removal or
  has no value sends a watch without a volume.
\<close>

definition runtime_callback :: "('w, 'z) host_scheme \<Rightarrow> 'w callback" where
  "runtime_callback c action node =
     (let root = prefixed c [rootVolume] @ slash; key = trim_prefix root (n_key node) in
      if n_dir node \<or> path_base (n_key node) \<noteq> ''runtime'' then ret None
      else if action = ''delete'' \<or> n_value node = [] then ret (Some \<lparr>wa_key = key, wa_config = NoConfig\<rparr>)
      else
        (let volName = trim_prefix root (path_dir key); (policy, vol) = path_split volName in
         attempt (cfg_GetVolume c policy vol) (\<lambda>err. ret None)
           (\<lambda>volume. ret (Some \<lparr>wa_key = volName, wa_config = VolumeConfig volume\<rparr>))))"

text \<open>\<open>strings.Replace(s, p, "", -1)\<close>, and the callback of \<open>WatchSnapshotSignal\<close>.\<close>

function erase_all :: "string \<Rightarrow> string \<Rightarrow> string" where
  "erase_all p [] = []"
| "erase_all p (x # xs) =
     (if p \<noteq> [] \<and> has_prefix p (x # xs) then erase_all p (drop (length p) (x # xs)) else x # erase_all p xs)"
  by pat_completeness auto
termination by (relation "measure (length \<circ> snd)") (auto simp: Suc_le_eq)

definition snapshot_callback :: "('w, 'z) client_scheme \<Rightarrow> 'w callback" where
  "snapshot_callback c action node =
     (if n_dir node \<or> action = ''delete'' then ret None
      else ret (Some \<lparr>wa_key = erase_all (prefixed c [rootSnapshots] @ slash) (n_key node), wa_config = NoConfig\<rparr>))"

section \<open>What a watcher delivers\<close>

text \<open>The values the callbacks send for a list of events, all of them handled.\<close>

fun delivered :: "'w callback \<Rightarrow> (string \<times> node) list \<Rightarrow> ('w, goerr, watch list) io" where
  "delivered f [] = ret []"
| "delivered f (e # es) =
     andThen (f (fst e) (snd e)) (\<lambda>x. andThen (delivered f es) (\<lambda>out. ret ((case x of None \<Rightarrow> [] | Some v \<Rightarrow> [v]) @ out)))"

lemma watch_run_append:
  "watch_run c f (rs1 @ rs2) w =
     andThen (watch_run c f rs1 w) (\<lambda>(w1, out1). andThen (watch_run c f rs2 w1) (\<lambda>(w2, out2). ret (w2, out1 @ out2)))"
  by (induction rs1 arbitrary: w)
    (auto simp: fun_eq_iff andThen_def attempt_def split: prod.splits outcome.splits)

lemma watch_run_events:
  assumes "wt_status w = Running"
  shows "watch_run c f (map (\<lambda>(a, n). Event a n) es) w = andThen (delivered f es) (\<lambda>out. ret (w, out))"
  using assms
  by (induction es)
    (auto simp: fun_eq_iff andThen_def attempt_def watch_step_def split: prod.splits outcome.splits option.splits)

lemma watch_run_ended: "wt_status w \<noteq> Running \<Longrightarrow> watch_run c f rs w s = (Ok (w, []), s)"
  by (induction rs) (simp_all add: watch_step_def)

lemma watch_run_error:
  assumes "wt_status w = Running" "\<not> wt_stop_on_error w"
  shows "watch_run c f (NextErr e # rs) w s =
    (if wt_errors w = [] then watch_run c f rs (w\<lparr>wt_errors := [e]\<rparr>) (h_sleep c second s)
     else (Ok (w\<lparr>wt_status := Blocked e\<rparr>, []), s))"
  using assms by (auto simp: watch_step_def watch_error_def watch_run_ended andThen_def attempt_def split: prod.splits outcome.splits)

text \<open>
  C35. A watcher delivers what its callback makes of every event, in order, up to the second error etcd answers:
  the first error fills the buffer of the error channel, which nothing reads, and at the second the
  goroutine waits for ever; no later event is delivered.
\<close>

theorem watcher_ends_at_second_error:
  assumes "delivered f es1 s = (Ok out1, s1)" "delivered f es2 (h_sleep c second s1) = (Ok out2, s2)"
  shows "watch_run c f (map (\<lambda>(a, n). Event a n) es1 @ NextErr e1 # map (\<lambda>(a, n). Event a n) es2 @ NextErr e2 # rs) (NewWatcher p) s
    = (Ok ((NewWatcher p)\<lparr>wt_errors := [e1], wt_status := Blocked e2\<rparr>, out1 @ out2), s2)"
proof -
  let ?w1 = "(NewWatcher p)\<lparr>wt_errors := [e1]\<rparr>"
  have r: "wt_status (NewWatcher p) = Running" "\<not> wt_stop_on_error (NewWatcher p)" "wt_errors (NewWatcher p) = []"
    "wt_status ?w1 = Running" "\<not> wt_stop_on_error ?w1" by (simp_all add: NewWatcher_def)
  have "watch_run c f (map (\<lambda>(a, n). Event a n) es2 @ NextErr e2 # rs) ?w1 (h_sleep c second s1)
      = (Ok (?w1\<lparr>wt_status := Blocked e2\<rparr>, out2), s2)"
    unfolding watch_run_append watch_run_events [OF r(4)]
    using assms(2) watch_run_error [OF r(4,5), of c f e2 rs s2] by simp
  then show ?thesis
    unfolding watch_run_append [of c f "map (\<lambda>(a, n). Event a n) es1"] watch_run_events [OF r(1)]
    using assms(1) watch_run_error [OF r(1,2), of c f e1 _ s1] r(3) by simp
qed

theorem watcher_ends_at_second_error_witness:
  "\<exists>w s2. watch_run (machine_host 1) (snapshot_callback (machine_host 1))
     [Event ''set'' (Node ''/volplugin/snapshots/gold/db'' False [] []), NextErr (Plain ''gone''), NextErr (Plain ''gone''),
      Event ''set'' (Node ''/volplugin/snapshots/gold/www'' False [] [])]
     (NewWatcher ''/volplugin/snapshots'') machine_start = (Ok (w, [\<lparr>wa_key = ''gold/db'', wa_config = NoConfig\<rparr>]), s2)"
proof -
  let ?f = "snapshot_callback (machine_host 1) :: machine callback"
  have "?f ''set'' (Node ''/volplugin/snapshots/gold/db'' False [] []) machine_start =
      (Ok (Some \<lparr>wa_key = ''gold/db'', wa_config = NoConfig\<rparr>), machine_start)"
  proof -
    have "erase_all (prefixed (machine_host 1) [rootSnapshots] @ slash) ''/volplugin/snapshots/gold/db'' = ''gold/db''" by code_simp
    then show ?thesis by (simp add: snapshot_callback_def)
  qed
  then have d: "delivered ?f [(''set'', Node ''/volplugin/snapshots/gold/db'' False [] [])] machine_start =
      (Ok [\<lparr>wa_key = ''gold/db'', wa_config = NoConfig\<rparr>], machine_start)" by simp
  have d2: "delivered ?f [] s = (Ok [], s)" for s by simp
  have "watch_run (machine_host 1) ?f
      (map (\<lambda>(a, n). Event a n) [(''set'', Node ''/volplugin/snapshots/gold/db'' False [] [])] @ NextErr (Plain ''gone'') #
        map (\<lambda>(a, n). Event a n) [] @ NextErr (Plain ''gone'') # [Event ''set'' (Node ''/volplugin/snapshots/gold/www'' False [] [])])
      (NewWatcher ''/volplugin/snapshots'') machine_start =
      (Ok ((NewWatcher ''/volplugin/snapshots'')\<lparr>wt_errors := [Plain ''gone''], wt_status := Blocked (Plain ''gone'')\<rparr>,
        [\<lparr>wa_key = ''gold/db'', wa_config = NoConfig\<rparr>] @ []), h_sleep (machine_host 1) second machine_start)"
    by (rule watcher_ends_at_second_error [OF d d2])
  then show ?thesis unfolding list.map prod.case append_Cons append_Nil append_Nil2 by blast
qed

end
