(* ===== verification/Http.thy ===== *)
theory Http imports Control Lock begin

text \<open>
  What the HTTP handlers of \<open>api\<close> and \<open>apiserver\<close> share: the request they are given, the answers they
  write, the state of a daemon that serves them, and the calls of the other packages run inside it.
\<close>

section \<open>Requests and answers\<close>

text \<open>
  A request is the content its body yields, the error that ends the reading (nil at the end of the
  body), and the variables of its route (\<open>mux.Vars\<close>).
\<close>

record request =
  rq_content :: string
  rq_error :: "goerr option"
  rq_vars :: smap

text \<open>The calls on the \<open>http.ResponseWriter\<close>: \<open>WriteHeader\<close>, \<open>http.Error\<close> and \<open>Write\<close>.\<close>

datatype answer =
    Header nat
  | HttpError nat string
  | Content string

definition ReadAll :: "request \<Rightarrow> string res" where
  "ReadAll r = (case rq_error r of None \<Rightarrow> Ok (rq_content r) | Some e \<Rightarrow> Err e)"

definition route_var :: "request \<Rightarrow> string \<Rightarrow> string" where
  "route_var r k = smap_get (rq_vars r) k"

section \<open>A daemon that serves\<close>

text \<open>
  Its world, the global configuration a watch keeps up to date, and the answers written to the
  request it is handling.
\<close>

record 'w srv =
  srv_world :: 'w
  srv_global :: Global
  srv_answers :: "answer list"

text \<open>A call that reaches only the world.\<close>

definition inner :: "('w, 'e, 'a) io \<Rightarrow> (('w, 'z) srv_scheme, 'e, 'a) io" where
  "inner m s = (case m (srv_world s) of (r, w) \<Rightarrow> (r, s\<lparr>srv_world := w\<rparr>))"

definition reading :: "('s \<Rightarrow> 'v) \<Rightarrow> ('v \<Rightarrow> ('s, 'e, 'a) io) \<Rightarrow> ('s, 'e, 'a) io" where
  "reading f k s = k (f s) s"

definition answer :: "answer \<Rightarrow> (('w, 'z) srv_scheme, 'e, unit) io" where
  "answer a = modify (\<lambda>s. s\<lparr>srv_answers := srv_answers s @ [a]\<rparr>)"

definition send :: "('w, 'y) host_scheme \<Rightarrow> string \<Rightarrow> (('w, 'z) srv_scheme, goerr, unit) io" where
  "send c b = andThen (inner (h_write c b)) (\<lambda>_. answer (Content b))"

text \<open>\<open>w.Write(content)\<close> with its results dropped.\<close>

definition send_ignored :: "('w, 'y) host_scheme \<Rightarrow> string \<Rightarrow> (('w, 'z) srv_scheme, goerr, unit) io" where
  "send_ignored c b = regardless (send c b) (ret ())"

text \<open>\<open>api.RESTHTTPError\<close>: a nil error is answered as \<open>errors.Unknown\<close>.\<close>

definition RESTHTTPError :: "goerr option \<Rightarrow> (('w, 'z) srv_scheme, goerr, unit) io" where
  "RESTHTTPError err = answer (HttpError 500 (error_text (case err of None \<Rightarrow> Unknown | Some e \<Rightarrow> e)))"

text \<open>\<open>api.Action\<close>, the answer to other requests of a plugin, and the two request loggers.\<close>

definition Action :: "request \<Rightarrow> (('w, 'z) srv_scheme, goerr, unit) io" where
  "Action r = attempt (lift (ReadAll r)) (\<lambda>e. RESTHTTPError (Some e)) (\<lambda>content. answer (Header 503))"

definition LogHandler :: "string \<Rightarrow> bool \<Rightarrow> (request \<Rightarrow> 'a) \<Rightarrow> request \<Rightarrow> 'a" where
  "LogHandler name debug actionFunc r = actionFunc (if debug then r\<lparr>rq_error := None\<rparr> else r)"

section \<open>The services of a host, inside a daemon\<close>

text \<open>
  The lock driver runs a function of the daemon between its calls; it is given the host with every
  service lifted to the state of the daemon.
\<close>

definition inner_total :: "('w \<Rightarrow> 'a \<times> 'w) \<Rightarrow> ('w, 'z) srv_scheme \<Rightarrow> 'a \<times> ('w, 'z) srv_scheme" where
  "inner_total f s = (case f (srv_world s) of (x, w) \<Rightarrow> (x, s\<lparr>srv_world := w\<rparr>))"

definition srv_host :: "('w, 'y) host_scheme \<Rightarrow> (('w, 'z) srv_scheme) host" where
  "srv_host c =
     \<lparr>kv_get = (\<lambda>k opt. inner (kv_get c k opt)), kv_set = (\<lambda>k v opt. inner (kv_set c k v opt)),
      kv_del = (\<lambda>k opt. inner (kv_del c k opt)), c_prefix = c_prefix c,
      h_now = inner_total (h_now c), h_time_string = (\<lambda>s. h_time_string c (srv_world s)),
      h_sleep = (\<lambda>d s. s\<lparr>srv_world := h_sleep c d (srv_world s)\<rparr>), h_fuel = h_fuel c,
      h_hostname = inner (h_hostname c), h_human_size = h_human_size c,
      h_exec = (\<lambda>args t. inner_total (h_exec c args t)),
      h_mkdir = (\<lambda>p m. inner (h_mkdir c p m)), h_stat = (\<lambda>p. inner (h_stat c p)), h_remove = (\<lambda>p. inner (h_remove c p)),
      h_mount = (\<lambda>a b d e. inner (h_mount c a b d e)), h_unmount = (\<lambda>p. inner (h_unmount c p)),
      h_read_file = (\<lambda>p. inner (h_read_file c p)), h_write_file = (\<lambda>p s. inner (h_write_file c p s)),
      h_lookup_host = (\<lambda>n. inner (h_lookup_host c n)), h_parse_ip = h_parse_ip c,
      h_links = inner (h_links c), h_addrs = (\<lambda>l. inner (h_addrs c l)), h_contains = h_contains c,
      h_order = h_order c, h_write = (\<lambda>s. inner (h_write c s))\<rparr>"

lemma srv_host_fields [simp]:
  "kv_get (srv_host c) = (\<lambda>k opt. inner (kv_get c k opt))"
  "kv_set (srv_host c) = (\<lambda>k v opt. inner (kv_set c k v opt))"
  "kv_del (srv_host c) = (\<lambda>k opt. inner (kv_del c k opt))" "c_prefix (srv_host c) = c_prefix c"
  "h_now (srv_host c) = inner_total (h_now c)" "h_fuel (srv_host c) = h_fuel c"
  "h_sleep (srv_host c) = (\<lambda>d s. s\<lparr>srv_world := h_sleep c d (srv_world s)\<rparr>)"
  by (simp_all add: srv_host_def)

section \<open>Lemmas\<close>

lemma reading_run [simp]: "reading f k s = k (f s) s" by (simp add: reading_def)

lemma answer_run [simp]: "answer a s = (Ok (), s\<lparr>srv_answers := srv_answers s @ [a]\<rparr>)"
  by (simp add: answer_def)

lemma RESTHTTPError_run [simp]:
  "RESTHTTPError (Some e) s = (Ok (), s\<lparr>srv_answers := srv_answers s @ [HttpError 500 (error_text e)]\<rparr>)"
  by (simp add: RESTHTTPError_def)

lemma inner_run: "m (srv_world s) = (r, w) \<Longrightarrow> inner m s = (r, s\<lparr>srv_world := w\<rparr>)"
  by (simp add: inner_def)

lemma inner_cases:
  assumes "inner m s = (r, s')"
  obtains w where "m (srv_world s) = (r, w)" "s' = s\<lparr>srv_world := w\<rparr>"
  using assms by (auto simp: inner_def split: prod.splits)

text \<open>Running inside a daemon commutes with the combinators.\<close>

lemma inner_Pair [simp]: "inner (Pair r) = Pair r"
  by (simp add: fun_eq_iff inner_def)

lemma inner_pure [simp]:
  "inner (ret x) = ret x" "inner (fail e) = fail e" "inner (panic p) = panic p" "inner hang = hang" "inner (lift r) = lift r"
  by (rule ext, simp add: inner_def)+

lemma inner_attempt: "inner (attempt m h k) = attempt (inner m) (\<lambda>e. inner (h e)) (\<lambda>x. inner (k x))"
  by (auto simp: fun_eq_iff inner_def attempt_def split: prod.splits outcome.splits)

lemma inner_andThen: "inner (andThen m k) = andThen (inner m) (\<lambda>x. inner (k x))"
  by (simp add: andThen_def inner_attempt)

lemma inner_regardless: "inner (regardless m k) = regardless (inner m) (inner k)"
  by (simp add: regardless_def inner_attempt)

lemma inner_if: "inner (if b then m else m') = (if b then inner m else inner m')"
  by simp

lemmas inner_push = inner_attempt inner_andThen inner_regardless inner_if

subsection \<open>The lock driver inside a daemon\<close>

lemma srv_RemoveUse: "RemoveUse (srv_host c) u f = inner (RemoveUse c u f)"
  by (simp add: RemoveUse_def inner_push lock_key_def use_key_def prefixed_def)

lemma srv_PublishUse: "PublishUse (srv_host c) u = inner (PublishUse c u)"
  by (simp add: PublishUse_def publish_create_def publish_again_def inner_push lock_key_def use_key_def prefixed_def
      cong: if_cong)

lemma srv_PublishUseWithTTL: "PublishUseWithTTL (srv_host c) u ttl = inner (PublishUseWithTTL c u ttl)"
  by (simp add: PublishUseWithTTL_def inner_push lock_key_def use_key_def prefixed_def cong: if_cong)

lemma srv_since: "since (srv_host c) now = inner (since c now)"
  by (auto simp: fun_eq_iff since_def inner_def inner_total_def split: prod.splits)

lemma srv_sleep: "sleep (srv_host c) d = inner (sleep c d)"
  by (auto simp: fun_eq_iff sleep_def inner_def)

lemma srv_lockWait: "lockWait (srv_host c) timeout now = inner (lockWait c timeout now)"
  by (simp add: lockWait_def inner_push srv_since srv_sleep cong: if_cong)

lemma srv_retry_lock: "retry_lock n (srv_host c) (inner call) timeout now = inner (retry_lock n c call timeout now)"
  by (induction n) (simp_all add: inner_push srv_lockWait cong: if_cong)

lemma srv_lock_call: "lock_call (srv_host c) u ttl = inner (lock_call c u ttl)"
  by (simp add: lock_call_def srv_PublishUse srv_PublishUseWithTTL)

lemma srv_acquire: "acquire (srv_host c) u ttl timeout = inner (acquire c u ttl timeout)"
  by (auto simp: fun_eq_iff acquire_def srv_lock_call srv_retry_lock inner_def inner_total_def split: prod.splits)

lemma srv_acquire_all: "acquire_all (srv_host c) timeout us = inner (acquire_all c timeout us)"
  by (induction us) (simp_all add: inner_push srv_acquire)

lemma srv_release_all: "release_all (srv_host c) us = inner (release_all c us)"
  by (induction us) (simp_all add: inner_push srv_RemoveUse)

lemma srv_MultiUseLock:
  "ExecuteWithMultiUseLock (srv_host c) us timeout f =
     andThen (inner (acquire_all c timeout us)) (\<lambda>_. attempt f
       (\<lambda>e. andThen (inner (release_all c us)) (\<lambda>_. fail e))
       (\<lambda>x. andThen (inner (release_all c us)) (\<lambda>_. ret x)))"
  by (simp add: ExecuteWithMultiUseLock_def srv_acquire_all srv_release_all)

end
