(* ===== verification/Mount_State.thy ===== *)
theory Mount_State imports Http begin

text \<open>
  \<open>api/internals/mount\<close> and the state of \<open>api.API\<close>: the counters of the mounts of a volume on a host,
  the collection of the live mounts, and the stop channels of the goroutines that refresh the locks.
\<close>

section \<open>The state\<close>

text \<open>
  A refreshing goroutine runs for a lock, has a stop message in its buffered channel, or has ended. A
  stop channel is named by the number of its goroutine. A count that is not in the map reads as 0; counts
  stay far below the range of \<open>int\<close>.
\<close>

datatype goroutine = Refreshing use | Stopping use | Ended use

record 'w api = "'w srv" +
  a_hostname :: string
  a_counts :: "string \<Rightarrow> int"
  a_mounts :: "string \<Rightarrow> Mount option"
  a_stops :: "string \<Rightarrow> nat option"
  a_gos :: "goroutine list"

type_synonym ('w, 'a) handler = "('w api, goerr, 'a) io"

definition NewCounter :: "string \<Rightarrow> int" where "NewCounter = (\<lambda>mp. 0)"
definition NewCollection :: "string \<Rightarrow> Mount option" where "NewCollection = Map.empty"

definition NewAPI :: "string \<Rightarrow> Global \<Rightarrow> 'w \<Rightarrow> 'w api" where
  "NewAPI hostname global w =
     \<lparr>srv_world = w, srv_global = global, srv_answers = [], a_hostname = hostname, a_counts = NewCounter,
      a_mounts = NewCollection, a_stops = Map.empty, a_gos = []\<rparr>"

section \<open>count.go\<close>

definition counter_Get :: "string \<Rightarrow> ('w, int) handler" where
  "counter_Get mp = reading a_counts (\<lambda>count. ret (count mp))"

definition counter_AddCount :: "string \<Rightarrow> int \<Rightarrow> ('w, int) handler" where
  "counter_AddCount mp n s = (Ok (a_counts s mp + n), s\<lparr>a_counts := (a_counts s)(mp := a_counts s mp + n)\<rparr>)"

definition counter_Add :: "string \<Rightarrow> ('w, int) handler" where
  "counter_Add mp s = (Ok (a_counts s mp + 1), s\<lparr>a_counts := (a_counts s)(mp := a_counts s mp + 1)\<rparr>)"

text \<open>The counter is decremented before it is looked at: a panic leaves it decremented.\<close>

definition counter_Sub :: "string \<Rightarrow> ('w, int) handler" where
  "counter_Sub mp s =
     (let n = a_counts s mp - 1; s' = s\<lparr>a_counts := (a_counts s)(mp := n)\<rparr>
      in if n < 0 then (Panic ''Assertion failed while tracking unmount'', s') else (Ok n, s'))"

section \<open>mount.go\<close>

definition collection_Add :: "Mount \<Rightarrow> ('w, unit) handler" where
  "collection_Add mc s =
     (let name = sv_name (mt_volume mc)
      in if a_mounts s name \<noteq> None then (Panic ''Mount already existed!'', s)
         else (Ok (), s\<lparr>a_mounts := (a_mounts s)(name \<mapsto> mc)\<rparr>))"

definition collection_Remove :: "string \<Rightarrow> ('w, unit) handler" where
  "collection_Remove vol = modify (\<lambda>s. s\<lparr>a_mounts := (a_mounts s)(vol := None)\<rparr>)"

definition collection_Get :: "string \<Rightarrow> ('w, Mount) handler" where
  "collection_Get vol =
     reading a_mounts (\<lambda>m. case m vol of
        None \<Rightarrow> fail (Combine (Fresh ''Could not find mount for volume'') NotExists)
      | Some mc \<Rightarrow> ret mc)"

section \<open>The stop channels\<close>

definition AddStopChan :: "string \<Rightarrow> nat \<Rightarrow> ('w, unit) handler" where
  "AddStopChan name stopChan = modify (\<lambda>s. s\<lparr>a_stops := (a_stops s)(name \<mapsto> stopChan)\<rparr>)"

fun signal :: "goroutine \<Rightarrow> goroutine" where
  "signal (Refreshing u) = Stopping u"
| "signal g = g"

text \<open>
  The message goes to the buffer of the channel. The channel is forgotten at once, so it is sent one
  message at most and the send does not block.
\<close>

definition stop_signal :: "nat \<Rightarrow> 'w api \<Rightarrow> 'w api" where
  "stop_signal i s = (if i < length (a_gos s) then s\<lparr>a_gos := (a_gos s)[i := signal (a_gos s ! i)]\<rparr> else s)"

definition RemoveStopChan :: "string \<Rightarrow> ('w, unit) handler" where
  "RemoveStopChan name =
     modify (\<lambda>s. let s' = (case a_stops s name of None \<Rightarrow> s | Some i \<Rightarrow> stop_signal i s)
                in s'\<lparr>a_stops := (a_stops s')(name := None)\<rparr>)"

text \<open>
  \<open>lock.AcquireWithTTLRefresh\<close> inside the API: the lock is taken and a goroutine started; the result is
  its stop channel.
\<close>

definition start_refresh :: "('w, 'z) host_scheme \<Rightarrow> use \<Rightarrow> ('w, nat) handler" where
  "start_refresh c ut =
     andThen (inner (AcquireWithTTLRefresh c ut))
       (\<lambda>_ s. (Ok (length (a_gos s)), s\<lparr>a_gos := a_gos s @ [Refreshing ut]\<rparr>))"

text \<open>One event of the goroutine \<open>i\<close>: a refresh when its timer fires, the removal when it is told to stop.\<close>

definition goroutine_step :: "('w, 'z) host_scheme \<Rightarrow> nat \<Rightarrow> ('w, unit) handler" where
  "goroutine_step c i s =
     (if i < length (a_gos s) then
        (case a_gos s ! i of
           Refreshing u \<Rightarrow>
             regardless (inner (acquire c u (g_ttl (srv_global s)) (g_timeout (srv_global s)))) (ret ()) s
         | Stopping u \<Rightarrow>
             regardless (inner (RemoveUse c u False)) (modify (\<lambda>s'. s'\<lparr>a_gos := (a_gos s')[i := Ended u]\<rparr>)) s
         | Ended u \<Rightarrow> (Ok (), s))
      else (Ok (), s))"

section \<open>Lemmas\<close>

lemma counter_runs [simp]:
  "counter_Get mp s = (Ok (a_counts s mp), s)"
  "counter_Add mp s = (Ok (a_counts s mp + 1), s\<lparr>a_counts := (a_counts s)(mp := a_counts s mp + 1)\<rparr>)"
  "0 < a_counts s mp \<Longrightarrow>
     counter_Sub mp s = (Ok (a_counts s mp - 1), s\<lparr>a_counts := (a_counts s)(mp := a_counts s mp - 1)\<rparr>)"
  by (simp_all add: counter_Get_def counter_Add_def counter_Sub_def Let_def)

lemma collection_runs [simp]:
  "a_mounts s (sv_name (mt_volume mc)) = None \<Longrightarrow>
     collection_Add mc s = (Ok (), s\<lparr>a_mounts := (a_mounts s)(sv_name (mt_volume mc) \<mapsto> mc)\<rparr>)"
  "collection_Remove vol s = (Ok (), s\<lparr>a_mounts := (a_mounts s)(vol := None)\<rparr>)"
  by (simp_all add: collection_Add_def collection_Remove_def)

lemma collection_Get_run: "a_mounts s vol = Some mc \<Longrightarrow> collection_Get vol s = (Ok mc, s)"
  by (simp add: collection_Get_def)

end
