(* ===== verification/Volsupervisor.thy ===== *)
theory Volsupervisor imports Watch Mount_State begin

text \<open>
  \<open>volsupervisor\<close>: the process that takes the snapshots of the volumes that ask for them and prunes
  the old ones, one in a cluster by a global lock. Its main loop, its reading of the volumes and its
  answer to snapshot signals are calls on its state; the goroutines these start are tasks of the state, each run
  as one call, and the refreshing goroutines of their locks are those of the lock driver.
\<close>

section \<open>The state\<close>

datatype task = SnapshotNow Volume | Cycle Volume bool

record 'w supervisor = "'w srv" +
  su_hostname :: string
  su_volumes :: volume_map
  su_tasks :: "task list"
  su_refreshers :: "goroutine list"

type_synonym ('w, 'a) sup = "('w supervisor, goerr, 'a) io"

definition spawn :: "task \<Rightarrow> ('w, unit) sup" where
  "spawn t = modify (\<lambda>s. s\<lparr>su_tasks := su_tasks s @ [t]\<rparr>)"

section \<open>Locks of a task\<close>

definition sup_refresh :: "('w, 'z) host_scheme \<Rightarrow> use \<Rightarrow> ('w, nat) sup" where
  "sup_refresh c uc =
     andThen (inner (AcquireWithTTLRefresh c uc))
       (\<lambda>_ s. (Ok (length (su_refreshers s)), s\<lparr>su_refreshers := su_refreshers s @ [Refreshing uc]\<rparr>))"

definition sup_stop :: "nat \<Rightarrow> ('w, unit) sup" where
  "sup_stop i = modify (\<lambda>s. s\<lparr>su_refreshers := (su_refreshers s)[i := signal (su_refreshers s ! i)]\<rparr>)"

text \<open>
  Taking the lock (an error is logged) and stopping its goroutine when the task returns:
  \<open>defer func() { stopChan <- struct{}{} }()\<close>
\<close>

definition while_locked :: "('w, 'z) host_scheme \<Rightarrow> use \<Rightarrow> ('w, unit) sup \<Rightarrow> ('w, unit) sup" where
  "while_locked c uc m = attempt (sup_refresh c uc) (\<lambda>err. ret ()) (\<lambda>i. deferred m (sup_stop i))"

text \<open>What the snapshot drivers are given.\<close>

definition snapshot_options :: "Volume \<Rightarrow> int \<Rightarrow> DriverOptions" where
  "snapshot_options val timeout =
     zero_driver_options\<lparr>d_volume := \<lparr>sv_name = Volume_String val, sv_size = 0,
       sv_params = Some [(''pool'', lookup_opt (v_driver val) ''pool'')]\<rparr>, d_timeout := timeout\<rparr>"

definition snapshot_backend :: "Volume \<Rightarrow> (string \<Rightarrow> ('w, unit) sup) \<Rightarrow> ('w, unit) sup" where
  "snapshot_backend val k = (case v_backends val of None \<Rightarrow> panic nil_deref | Some b \<Rightarrow> k (bd_snapshot b))"

section \<open>loop.go\<close>

text \<open>\<open>updateVolumes\<close>: a volume whose name has no slash or that cannot be retrieved is skipped.\<close>

fun gather_volumes :: "('w, 'z) host_scheme \<Rightarrow> string list \<Rightarrow> volume_map \<Rightarrow> ('w, goerr, volume_map) io" where
  "gather_volumes c [] m = ret m"
| "gather_volumes c (name # names) m =
     (case split2 CHR ''/'' name of
        [p, n] \<Rightarrow>
          attempt (cfg_GetVolume c p n) (\<lambda>err. gather_volumes c names m) (\<lambda>vol. gather_volumes c names (vm_put name vol m))
      | _ \<Rightarrow> gather_volumes c names m)"

definition updateVolumes :: "('w, 'z) host_scheme \<Rightarrow> ('w, unit) sup" where
  "updateVolumes c =
     attempt (inner (cfg_ListAllVolumes c)) (\<lambda>err. ret ()) (\<lambda>myVolumes.
     andThen (inner (gather_volumes c myVolumes [])) (\<lambda>m. modify (\<lambda>s. s\<lparr>su_volumes := m\<rparr>)))"

text \<open>
  The snapshots to delete, in \<open>int\<close>: the conversion of the unsigned number to keep wraps, and so may the
  difference. Indexing past the end of the list panics.
\<close>

definition toDeleteCount :: "string list \<Rightarrow> nat \<Rightarrow> int" where
  "toDeleteCount list keep = wrap64 (int (length list) - wrap64 (int keep))"

fun prune_loop :: "'w SnapshotDriver \<Rightarrow> DriverOptions \<Rightarrow> string list \<Rightarrow> int \<Rightarrow> ('w, goerr, unit) io" where
  "prune_loop driver opts [] n = (if n \<le> 0 then ret () else panic ''index out of range'')"
| "prune_loop driver opts (name # names) n =
     (if n \<le> 0 then ret () else regardless (sd_remove driver name opts) (prune_loop driver opts names (n - 1)))"

definition prune_listed :: "'w SnapshotDriver \<Rightarrow> Volume \<Rightarrow> DriverOptions \<Rightarrow> ('w, goerr, unit) io" where
  "prune_listed driver val opts =
     attempt (sd_list driver opts) (\<lambda>err. ret ()) (\<lambda>list.
       let n = toDeleteCount list (sc_keep (ro_snapshot (v_runtime val)))
       in if n < 0 then ret () else prune_loop driver opts list n)"

definition pruneSnapshots :: "('w, 'z) host_scheme \<Rightarrow> Volume \<Rightarrow> ('w, unit) sup" where
  "pruneSnapshots c val =
     snapshot_backend val (\<lambda>name.
       if name = [] then ret ()
       else while_locked c (UseSnapshot (Volume_String val) ReasonSnapshotPrune)
         (attempt (lift (NewSnapshotDriver c name)) (\<lambda>err. ret ()) (\<lambda>driver.
          reading srv_global (\<lambda>global. inner (prune_listed driver val (snapshot_options val (g_timeout global)))))))"

definition createSnapshot :: "('w, 'z) host_scheme \<Rightarrow> Volume \<Rightarrow> ('w, unit) sup" where
  "createSnapshot c val =
     while_locked c (UseSnapshot (Volume_String val) ReasonSnapshot)
       (snapshot_backend val (\<lambda>name.
          attempt (lift (NewSnapshotDriver c name)) (\<lambda>err. ret ()) (\<lambda>driver.
          reading srv_global (\<lambda>global.
          reading (\<lambda>s. h_time_string c (srv_world s)) (\<lambda>now.
            regardless (inner (sd_create driver now (snapshot_options val (g_timeout global)))) (ret ()))))))"

text \<open>
  One volume of a pass of \<open>loop\<close>. A frequency that cannot be parsed is logged and leaves 0; the
  frequency in whole seconds (\<open>int64(freq.Seconds())\<close>, exact for whole seconds) is the divisor of the
  time, and a zero one panics. The volume is cycled by a task of its own when the time is a multiple.
\<close>

definition snapshot_frequency :: "Volume \<Rightarrow> int" where
  "snapshot_frequency val = (case ParseDuration (sc_frequency (ro_snapshot (v_runtime val))) of None \<Rightarrow> 0 | Some d \<Rightarrow> d)"

definition consider_volume :: "('w, 'z) host_scheme \<Rightarrow> Volume \<Rightarrow> ('w, unit) sup" where
  "consider_volume c val =
     (if \<not> ro_use_snapshots (v_runtime val) then ret ()
      else
        (let freq = go_div (snapshot_frequency val) second in
         andThen (inner (read_clock c)) (\<lambda>now.
           if freq = 0 then panic ''integer divide by zero''
           else if (now div second) mod freq \<noteq> 0 then ret ()
           else andThen (inner (IsVolumeInUse c val)) (\<lambda>(isUsed, err). spawn (Cycle val isUsed)))))"

fun consider_volumes :: "('w, 'z) host_scheme \<Rightarrow> volume_map \<Rightarrow> string list \<Rightarrow> ('w, unit) sup" where
  "consider_volumes c m [] = ret ()"
| "consider_volumes c m (k # ks) = andThen (consider_volume c (vm_get m k)) (\<lambda>_. consider_volumes c m ks)"

definition loop_pass :: "('w, 'z) host_scheme \<Rightarrow> ('w, unit) sup" where
  "loop_pass c =
     andThen (inner (modify (h_sleep c second))) (\<lambda>_.
     reading su_volumes (\<lambda>m. consider_volumes c m (h_order c (map fst m))))"

text \<open>The goroutine of a task.\<close>

definition run_task :: "('w, 'z) host_scheme \<Rightarrow> task \<Rightarrow> ('w, unit) sup" where
  "run_task c t =
     (case t of
        SnapshotNow val \<Rightarrow> createSnapshot c val
      | Cycle val isUsed \<Rightarrow> andThen (if isUsed then createSnapshot c val else ret ()) (\<lambda>_. pruneSnapshots c val))"

section \<open>watches.go\<close>

definition signalSnapshot :: "('w, 'z) host_scheme \<Rightarrow> watch \<Rightarrow> ('w, unit) sup" where
  "signalSnapshot c snapshot =
     (case split2 CHR ''/'' (wa_key snapshot) of
        [p, n] \<Rightarrow>
          attempt (inner (cfg_GetVolume c p n)) (\<lambda>err. ret ()) (\<lambda>vol.
          andThen (spawn (SnapshotNow vol)) (\<lambda>_.
          regardless (inner (RemoveTakeSnapshot c (Volume_String vol))) (ret ())))
      | _ \<Rightarrow> ret ())"

section \<open>volsupervisor.go\<close>

definition watchAndSetGlobal :: "watch \<Rightarrow> ('w, unit) sup" where
  "watchAndSetGlobal w =
     (case wa_config w of
        GlobalConfig g \<Rightarrow> modify (\<lambda>s. s\<lparr>srv_global := g\<rparr>)
      | _ \<Rightarrow> panic ''interface conversion'')"

fun retry_global :: "nat \<Rightarrow> ('w, 'z) host_scheme \<Rightarrow> ('w, goerr, Global) io" where
  "retry_global 0 c = hang"
| "retry_global (Suc n) c =
     attempt (cfg_GetGlobal c) (\<lambda>err. andThen (modify (h_sleep c second)) (\<lambda>_. retry_global n c)) ret"

text \<open>
  \<open>Daemon\<close> up to its loop, with the configuration retrieved; \<open>logrus.Fatal\<close> ends the process. The
  result of a start is the first state of the supervisor.
\<close>

definition NewSupervisor :: "string \<Rightarrow> Global \<Rightarrow> 'w \<Rightarrow> 'w supervisor" where
  "NewSupervisor hostname global w =
     \<lparr>srv_world = w, srv_global = global, srv_answers = [], su_hostname = hostname, su_volumes = [], su_tasks = [],
      su_refreshers = []\<rparr>"

definition sup_enter :: "('w, 'z) host_scheme \<Rightarrow> ('w, unit) sup" where
  "sup_enter c =
     reading su_hostname (\<lambda>hostname.
     attempt (sup_refresh c (UseVolsupervisor hostname)) (\<lambda>err. panic ''Could not start volsupervisor: already in use'')
       (\<lambda>_. updateVolumes c))"

definition sup_start :: "('w, 'z) host_scheme \<Rightarrow> string \<Rightarrow> 'w \<Rightarrow> (goerr, unit) outcome \<times> 'w supervisor" where
  "sup_start c hostname w =
     (case retry_global (h_fuel c) c w of
        (Ok global, w') \<Rightarrow> sup_enter c (NewSupervisor hostname global w')
      | (Err e, w') \<Rightarrow> (Err e, NewSupervisor hostname NewGlobalConfig w')
      | (Panic p, w') \<Rightarrow> (Panic p, NewSupervisor hostname NewGlobalConfig w')
      | (Hang, w') \<Rightarrow> (Hang, NewSupervisor hostname NewGlobalConfig w'))"

end
