(* ===== verification/Volsupervisor_Props.thy ===== *)
theory Volsupervisor_Props imports Volsupervisor begin

text \<open>
  Properties of the supervisor: there is one in a cluster, what a pass of its loop starts, what ends it, and
  which snapshots a pruning removes.
\<close>

section \<open>Calls that only read\<close>

lemma reads_GetVolume:
  assumes "etcd c fval"
  shows "keeps (\<lambda>a b. fval b = fval a) (cfg_GetVolume c p n)"
proof (rule keepsI)
  fix w r w'
  assume "cfg_GetVolume c p n w = (r, w')"
  then show "fval w' = fval w"
    by (auto simp: cfg_GetVolume_def GetVolumeRuntime_def andThen_def attempt_def split: prod.splits outcome.splits
        dest!: etcd.get_keeps [OF assms])
qed

lemma reads_ListAllVolumes:
  assumes "etcd c fval"
  shows "keeps (\<lambda>a b. fval b = fval a) (cfg_ListAllVolumes c)"
proof (rule keepsI)
  fix w r w'
  assume "cfg_ListAllVolumes c w = (r, w')"
  then show "fval w' = fval w"
    by (auto simp: cfg_ListAllVolumes_def attempt_def split: prod.splits outcome.splits if_splits
        dest!: etcd.get_keeps [OF assms])
qed

lemma reads_gather:
  assumes "etcd c fval"
  shows "gather_volumes c names m w = (r, w') \<Longrightarrow> fval w' = fval w"
proof (induction names arbitrary: m w)
  case (Cons name names)
  then show ?case
    using keepsD [OF reads_GetVolume [OF assms]]
    by (auto simp: attempt_def split: prod.splits outcome.splits list.splits)
qed simp

lemma updateVolumes_reads:
  assumes "etcd c fval" "updateVolumes c s = (r, s')"
  shows "fval (srv_world s') = fval (srv_world s)"
proof -
  obtain r1 w1 where l: "cfg_ListAllVolumes c (srv_world s) = (r1, w1)" by fastforce
  have w1: "fval w1 = fval (srv_world s)" by (rule keepsD [OF reads_ListAllVolumes [OF assms(1)] l])
  note il = inner_run [where m = "cfg_ListAllVolumes c" and s = s, OF l]
  show ?thesis
  proof (cases r1)
    case (Ok names)
    obtain r2 w2 where g: "gather_volumes c names [] w1 = (r2, w2)" by fastforce
    have w2: "fval w2 = fval w1" by (rule reads_gather [OF assms(1) g])
    have "inner (gather_volumes c names []) (s\<lparr>srv_world := w1\<rparr>) = (r2, s\<lparr>srv_world := w2\<rparr>)"
      using inner_run [where s = "s\<lparr>srv_world := w1\<rparr>" and m = "gather_volumes c names []", of r2 w2] g by simp
    then show ?thesis
      using assms(2) il Ok w1 w2 by (cases r2) (auto simp: updateVolumes_def)
  qed (use assms(2) il w1 in \<open>auto simp: updateVolumes_def\<close>)
qed

section \<open>One supervisor\<close>

lemma volsupervisor_key: "lock_key c (UseVolsupervisor h) = lock_key c (UseVolsupervisor h')"
  by (simp add: lock_key_def)

text \<open>A lock that must not exist is not taken when its key is there, even with the same record.\<close>

lemma publish_taken:
  assumes "etcd c fval" "\<not> MayExist u" "fval w (lock_key c u) \<noteq> None" "PublishUse c u w = (r, w')"
  shows "fval w' = fval w \<and> (\<exists>e. r = Err e)"
proof -
  obtain r1 w1 where m: "publish_create c u w = (r1, w1)" by force
  note call = m [unfolded publish_create_def]
  have na: "\<not> admits (set_nil\<lparr>so_exist := PrevNoExist\<rparr>) (fval w (lock_key c u))" using assms(3) by (simp add: admits_def)
  obtain e where e: "r1 = Err e"
    by (rule etcd.set_cases [OF assms(1), OF call])
      (use etcd.publish_create_ok(1) [OF assms(1)] m assms(3) in auto)
  have "fval w1 = fval w" using etcd.set_unknown [OF assms(1), OF call [unfolded e]] na by simp
  then show ?thesis using assms(2,4) m e by (auto simp: PublishUse_def split: if_splits)
qed

text \<open>
  C30. There is one supervisor in a cluster: while the lock key is there, whoever holds it, a start ends the process
  and leaves the store as it is, and a start that succeeds has written the key for its host and nothing else.
\<close>

theorem single_supervisor:
  assumes "etcd c fval" "sup_enter c s = (r, s')"
  shows "(fval (srv_world s) (lock_key c (UseVolsupervisor h)) \<noteq> None \<longrightarrow>
           (\<exists>m. r = Panic m) \<and> fval (srv_world s') = fval (srv_world s)) \<and>
         (r = Ok () \<longrightarrow> fval (srv_world s') =
           (fval (srv_world s))(lock_key c (UseVolsupervisor h) \<mapsto> use_text (UseVolsupervisor (su_hostname s))))"
proof -
  let ?u = "UseVolsupervisor (su_hostname s)"
  obtain r1 w1 where p: "PublishUse c ?u (srv_world s) = (r1, w1)" by fastforce
  have a: "AcquireWithTTLRefresh c ?u (srv_world s) = (r1, w1)" using p by (simp add: AcquireWithTTLRefresh_def)
  note ia = inner_run [where m = "AcquireWithTTLRefresh c ?u" and s = s, OF a]
  note k = volsupervisor_key [of c h "su_hostname s"]
  show ?thesis
  proof (cases r1)
    case (Ok u)
    let ?s1 = "s\<lparr>srv_world := w1, su_refreshers := su_refreshers s @ [Refreshing ?u]\<rparr>"
    have "updateVolumes c ?s1 = (r, s')"
      using assms(2) ia Ok by (simp add: sup_enter_def sup_refresh_def)
    from updateVolumes_reads [OF assms(1) this] have "fval (srv_world s') = fval w1" by simp
    moreover have "fval w1 = (fval (srv_world s))(lock_key c ?u \<mapsto> use_text ?u)" "fval (srv_world s) (lock_key c ?u) = None"
      using etcd.publish_ok [OF assms(1), of ?u "srv_world s" u w1] p Ok by simp_all
    ultimately show ?thesis by (simp add: k)
  next
    case (Err e)
    have "fval w1 = fval (srv_world s)" if "fval (srv_world s) (lock_key c ?u) \<noteq> None"
      using publish_taken [OF assms(1) _ that p] by simp
    then show ?thesis using assms(2) ia Err by (auto simp: sup_enter_def sup_refresh_def k)
  qed (use assms(2) ia etcd.publish_returns [OF assms(1), of ?u "srv_world s"] p in auto)
qed

definition supervisor1 :: "machine \<Rightarrow> machine supervisor" where
  "supervisor1 = NewSupervisor ''mon0'' NewGlobalConfig"

theorem single_supervisor_witness:
  "\<exists>s1 m s2. sup_enter (machine_host 1) (supervisor1 machine_start) = (Ok (), s1) \<and>
     sup_enter (machine_host 1) (NewSupervisor ''mon1'' NewGlobalConfig (srv_world s1)) = (Panic m, s2) \<and>
     mem_file (srv_world s2) = mem_file (srv_world s1)"
proof -
  let ?e = "sup_enter (machine_host 1)" and ?s = "supervisor1 machine_start"
  have "fst (?e ?s) = Ok ()" by code_simp
  then have r1: "?e ?s = (Ok (), snd (?e ?s))" by (metis prod.collapse)
  from single_supervisor [OF machine.etcd_axioms r1, of "''mon1''"]
  have held: "mem_file (srv_world (snd (?e ?s))) (lock_key (machine_host 1) (UseVolsupervisor ''mon1'')) \<noteq> None" by simp
  let ?t = "NewSupervisor ''mon1'' NewGlobalConfig (srv_world (snd (?e ?s)))"
  have t: "srv_world ?t = srv_world (snd (?e ?s))" by (simp add: NewSupervisor_def)
  have "?e ?t = (fst (?e ?t), snd (?e ?t))" by simp
  from single_supervisor [OF machine.etcd_axioms this, of "''mon1''"] held t r1 show ?thesis
    by (metis prod.collapse)
qed

section \<open>What a pass of the loop starts\<close>

lemma consider_result:
  assumes "etcd c fval" "consider_volume c v s = (r, s')"
  shows "\<exists>new. su_tasks s' = su_tasks s @ new \<and> set new \<subseteq> {Cycle v (v_unlocked v)} \<and>
    (r = Ok () \<or> r = Panic ''integer divide by zero'') \<and>
    (ro_use_snapshots (v_runtime v) \<longrightarrow> go_div (snapshot_frequency v) second = 0 \<longrightarrow> r \<noteq> Ok ())"
proof -
  obtain now w1 where t: "read_clock c (srv_world s) = (Ok now, w1)"
    by (cases "h_now c (srv_world s)") (simp add: read_clock_def)
  obtain r2 w2 where u: "IsVolumeInUse c v w1 = (r2, w2)" by fastforce
  obtain e where e: "r2 = Ok (v_unlocked v, e)" using in_use_answer [OF assms(1) u] by blast
  note i1 = inner_run [where m = "read_clock c" and s = s, OF t]
  have i2: "inner (IsVolumeInUse c v) (s\<lparr>srv_world := w1\<rparr>) = (r2, s\<lparr>srv_world := w2\<rparr>)"
    using inner_run [where m = "IsVolumeInUse c v" and s = "s\<lparr>srv_world := w1\<rparr>", of r2 w2] u by simp
  show ?thesis
    using assms(2) i1 i2 e
    by (cases "ro_use_snapshots (v_runtime v)"; cases "go_div (snapshot_frequency v) second = 0";
        cases "now div second mod go_div (snapshot_frequency v) second = 0")
      (auto simp: consider_volume_def Let_def spawn_def)
qed

lemma consider_volumes_result:
  assumes "etcd c fval"
  shows "consider_volumes c m ks s = (r, s') \<Longrightarrow>
    \<exists>new. su_tasks s' = su_tasks s @ new \<and> (\<forall>t \<in> set new. \<exists>k \<in> set ks. t = Cycle (vm_get m k) (v_unlocked (vm_get m k))) \<and>
    (r = Ok () \<or> r = Panic ''integer divide by zero'') \<and>
    (\<forall>k \<in> set ks. ro_use_snapshots (v_runtime (vm_get m k)) \<longrightarrow> go_div (snapshot_frequency (vm_get m k)) second = 0 \<longrightarrow> r \<noteq> Ok ())"
proof (induction ks arbitrary: s)
  case (Cons k ks)
  obtain r1 s1 where c1: "consider_volume c (vm_get m k) s = (r1, s1)" by fastforce
  obtain new1 where n1: "su_tasks s1 = su_tasks s @ new1" "set new1 \<subseteq> {Cycle (vm_get m k) (v_unlocked (vm_get m k))}"
    "r1 = Ok () \<or> r1 = Panic ''integer divide by zero''"
    "ro_use_snapshots (v_runtime (vm_get m k)) \<longrightarrow> go_div (snapshot_frequency (vm_get m k)) second = 0 \<longrightarrow> r1 \<noteq> Ok ()"
    using consider_result [OF assms c1] by blast
  show ?case
  proof (cases "r1 = Ok ()")
    case True
    then have "consider_volumes c m ks s1 = (r, s')" using Cons.prems c1 by simp
    from Cons.IH [OF this] obtain new2 where "su_tasks s' = su_tasks s1 @ new2"
      "\<forall>t \<in> set new2. \<exists>k \<in> set ks. t = Cycle (vm_get m k) (v_unlocked (vm_get m k))"
      "r = Ok () \<or> r = Panic ''integer divide by zero''"
      "\<forall>k \<in> set ks. ro_use_snapshots (v_runtime (vm_get m k)) \<longrightarrow> go_div (snapshot_frequency (vm_get m k)) second = 0 \<longrightarrow> r \<noteq> Ok ()"
      by blast
    with n1 True show ?thesis by (intro exI [of _ "new1 @ new2"]) auto
  next
    case False
    then have "r = r1" "s' = s1" using Cons.prems c1 n1(3) by auto
    then show ?thesis using n1 False by (intro exI [of _ new1]) auto
  qed
qed simp

lemma loop_pass_run:
  "loop_pass c s = consider_volumes c (su_volumes s) (h_order c (map fst (su_volumes s))) (s\<lparr>srv_world := h_sleep c second (srv_world s)\<rparr>)"
  by (simp add: loop_pass_def andThen_def attempt_def reading_def inner_def modify_def)

text \<open>
  C32. What a pass of the supervisor's loop starts: cycles of its volumes, in which a snapshot is created only for
  the unlocked ones. A volume with locks, mounted or not, is pruned and never gets a snapshot.
\<close>

theorem locked_never_snapshotted:
  assumes "etcd c fval" "loop_pass c s = (r, s')"
  shows "\<exists>new. su_tasks s' = su_tasks s @ new \<and>
    (\<forall>t \<in> set new. \<exists>k. t = Cycle (vm_get (su_volumes s) k) (v_unlocked (vm_get (su_volumes s) k)))"
  using consider_volumes_result [OF assms(1)] assms(2) unfolding loop_pass_run by fastforce

definition watching :: "Volume \<Rightarrow> machine supervisor" where
  "watching v = (supervisor1 machine_start)\<lparr>su_volumes := [(''gold/db'', v)]\<rparr>"

definition snapshotted :: "string \<Rightarrow> Volume" where
  "snapshotted freq = silver\<lparr>v_runtime := zero_runtime\<lparr>ro_use_snapshots := True, ro_snapshot := \<lparr>sc_frequency = freq, sc_keep = 2\<rparr>\<rparr>\<rparr>"

theorem locked_never_snapshotted_witness:
  "su_tasks (snd (loop_pass (machine_host 1) (watching (snapshotted ''1s'')))) = [Cycle (snapshotted ''1s'') False] \<and>
   \<not> v_unlocked (snapshotted ''1s'') \<and>
   (\<exists>new. su_tasks (snd (loop_pass (machine_host 1) (watching (snapshotted ''1s'')))) = su_tasks (watching (snapshotted ''1s'')) @ new)"
proof -
  let ?r = "loop_pass (machine_host 1) (watching (snapshotted ''1s''))"
  have "?r = (fst ?r, snd ?r)" by simp
  from locked_never_snapshotted [OF machine.etcd_axioms this]
  have "\<exists>new. su_tasks (snd ?r) = su_tasks (watching (snapshotted ''1s'')) @ new" by blast
  moreover have "su_tasks (snd ?r) = [Cycle (snapshotted ''1s'') False]" by code_simp
  moreover have "\<not> v_unlocked (snapshotted ''1s'')" by code_simp
  ultimately show ?thesis by blast
qed

section \<open>What ends the supervisor\<close>

text \<open>
  A volume whose snapshot frequency does not parse, or is below a second, ends the supervisor: the pass of the
  loop that meets it panics with a division by zero. The validation lets such frequencies in, as
  it asks for digits and one more character only.
\<close>

theorem bad_frequency_ends_supervisor:
  assumes "etcd c fval" "range_ok c" "distinct (map fst (su_volumes s))" "map_of (su_volumes s) k = Some v"
    and "ro_use_snapshots (v_runtime v)"
    and "ParseDuration (sc_frequency (ro_snapshot (v_runtime v))) \<in> {None} \<union> Some ` {- second <..< second}"
    and "loop_pass c s = (r, s')"
  shows "r = Panic ''integer divide by zero''"
proof -
  have "k \<in> set (h_order c (map fst (su_volumes s)))"
    using assms(2-4) by (auto simp: range_ok_def dest: map_of_SomeD intro: rev_image_eqI)
  moreover have "vm_get (su_volumes s) k = v" using assms(4) by (simp add: vm_get_def)
  moreover have "go_div (snapshot_frequency v) second = 0"
    using assms(6) by (auto simp: snapshot_frequency_def go_div_def second_def)
  ultimately show ?thesis
    using consider_volumes_result [OF assms(1)] assms(5,7) unfolding loop_pass_run by blast
qed

theorem bad_frequency_ends_supervisor_witness:
  "Volume_Validate (machine_host 1) (snapshotted ''30'') = Ok () \<and>
   fst (loop_pass (machine_host 1) (watching (snapshotted ''30''))) = Panic ''integer divide by zero''"
proof
  let ?s = "watching (snapshotted ''30'')"
  have f: "frequency_valid ''30''" using frequency_accepts [of "''3''" "CHR ''0''"] by (simp add: is_digit_def ascii_def)
  have "volume_ok (machine_host 1) silver" using published_volume_kept(3) [OF machine.etcd_axioms machine_prefix] silver_published
    by (metis prod.collapse)
  from volume_ok_runtime [OF this, of "v_runtime (snapshotted ''30'')"] f
  show "Volume_Validate (machine_host 1) (snapshotted ''30'') = Ok ()"
    by (simp add: Volume_Validate_iff snapshotted_def runtime_ok_def zero_defs)
  have vs: "su_volumes ?s = [(''gold/db'', snapshotted ''30'')]" by (simp add: watching_def)
  have p: "ParseDuration (sc_frequency (ro_snapshot (v_runtime (snapshotted ''30'')))) = None" by code_simp
  have "loop_pass (machine_host 1) ?s = (fst (loop_pass (machine_host 1) ?s), snd (loop_pass (machine_host 1) ?s))" by simp
  from bad_frequency_ends_supervisor [OF machine.etcd_axioms machine_range _ _ _ _ this, of "''gold/db''" "snapshotted ''30''"] p
  show "fst (loop_pass (machine_host 1) ?s) = Panic ''integer divide by zero''"
    by (simp add: vs) (simp add: snapshotted_def)
qed

section \<open>What a pruning removes\<close>

text \<open>The removals of a list of snapshots, one after the other, whatever each returns.\<close>

definition removals :: "'w SnapshotDriver \<Rightarrow> DriverOptions \<Rightarrow> string list \<Rightarrow> 'w \<Rightarrow> 'w" where
  "removals driver opts names w = fold (\<lambda>name w. snd (sd_remove driver name opts w)) names w"

lemma prune_loop_run:
  assumes "\<And>name w r w'. P w \<Longrightarrow> sd_remove driver name opts w = (r, w') \<Longrightarrow> P w' \<and> (r = Ok () \<or> (\<exists>e. r = Err e))"
  shows "P w \<Longrightarrow> 0 \<le> n \<Longrightarrow> prune_loop driver opts names n w =
    (if n \<le> int (length names) then Ok () else Panic ''index out of range'', removals driver opts (take (nat n) names) w)"
proof (induction names arbitrary: n w)
  case (Cons name names)
  obtain r w1 where rm: "sd_remove driver name opts w = (r, w1)" by fastforce
  have r: "P w1" "r = Ok () \<or> (\<exists>e. r = Err e)" using assms [OF Cons.prems(1) rm] by auto
  show ?case
  proof (cases "n = 0")
    case False
    then have n: "0 \<le> n - 1" "nat n = Suc (nat (n - 1))" using Cons.prems(2) by auto
    from r(2) have "prune_loop driver opts (name # names) n w = prune_loop driver opts names (n - 1) w1"
      using False Cons.prems(2) rm by auto
    then show ?thesis using Cons.IH [OF r(1) n(1)] n rm by (auto simp: removals_def)
  qed (simp add: removals_def)
qed (auto simp: removals_def)

text \<open>
  C33. Pruning removes the oldest snapshots: with a number to keep that fits an \<open>int\<close> each of the listed snapshots
  but the last ones to keep is removed once, in order, whichever removal fails. With a larger number (the
  validation sets no upper bound) the conversion wraps to a negative one, and every snapshot is
  removed before the loop runs past the end of the list and panics.
\<close>

theorem prune_keeps_newest:
  assumes "sd_list driver opts w = (Ok list, w1)" "P w1"
    and "\<And>name w r w'. P w \<Longrightarrow> sd_remove driver name opts w = (r, w') \<Longrightarrow> P w' \<and> (r = Ok () \<or> (\<exists>e. r = Err e))"
    and "sc_keep (ro_snapshot (v_runtime val)) = keep" "keep < 2 ^ 64" "int (length list) < 2 ^ 63"
  shows "(keep < 2 ^ 63 \<longrightarrow>
           prune_listed driver val opts w = (Ok (), removals driver opts (take (length list - keep) list) w1)) \<and>
         (2 ^ 63 \<le> keep \<longrightarrow> int (length list) + (2 ^ 64 - int keep) < 2 ^ 63 \<longrightarrow>
           prune_listed driver val opts w = (Panic ''index out of range'', removals driver opts list w1))"
proof (intro conjI impI)
  note run = prune_loop_run [where P = P, OF assms(3) assms(2)]
  have keep: "int keep < 2 ^ 64" using assms(5) by (metis of_nat_less_iff of_nat_numeral of_nat_power)
  {
    assume "keep < 2 ^ 63"
    then have k: "int keep < 2 ^ 63" by (metis of_nat_less_iff of_nat_numeral of_nat_power)
    then have n: "toDeleteCount list keep = int (length list) - int keep"
      using assms(6) by (simp add: toDeleteCount_def wrap64_id int64_def)
    show "prune_listed driver val opts w = (Ok (), removals driver opts (take (length list - keep) list) w1)"
    proof (cases "toDeleteCount list keep < 0")
      case True
      then show ?thesis using assms(1,4) n by (simp add: prune_listed_def Let_def removals_def)
    next
      case False
      then have "nat (toDeleteCount list keep) = length list - keep" using n by auto
      then show ?thesis using False assms(1,4) run [where n = "toDeleteCount list keep" and names = list] n by (simp add: prune_listed_def Let_def)
    qed
  }
  assume k: "2 ^ 63 \<le> keep" "int (length list) + (2 ^ 64 - int keep) < 2 ^ 63"
  then have "2 ^ 63 \<le> int keep" by (metis of_nat_le_iff of_nat_numeral of_nat_power)
  moreover have "(int keep + 2 ^ 63) mod 2 ^ 64 = (int keep - 2 ^ 63) mod 2 ^ 64"
    using mod_add_self2 [of "int keep - 2 ^ 63" "2 ^ 64"] by (simp add: algebra_simps)
  ultimately have "wrap64 (int keep) = int keep - 2 ^ 64" using keep by (simp add: wrap64_def mod_pos_pos_trivial)
  then have n: "toDeleteCount list keep = int (length list) + (2 ^ 64 - int keep)"
    using k(2) keep by (simp add: toDeleteCount_def wrap64_id int64_def algebra_simps)
  then have "\<not> toDeleteCount list keep < 0" "\<not> toDeleteCount list keep \<le> int (length list)" "length list \<le> nat (toDeleteCount list keep)"
    using keep by linarith+
  then show "prune_listed driver val opts w = (Panic ''index out of range'', removals driver opts list w1)"
    using assms(1,4) run [where n = "toDeleteCount list keep" and names = list] by (simp add: prune_listed_def Let_def)
qed

text \<open>A machine whose next command answers the listing, and where every other one succeeds.\<close>

definition listing :: machine where
  "listing = machine_start\<lparr>mc_exec := [(Some \<lparr>er_status = 0, er_stdout = snap_ls_text ''SNAPID NAME SIZE''
     [\<lparr>sr_pad = 5, sr_id = 4, sr_name = ''s1'', sr_size = ''10240'', sr_rest = ''kB''\<rparr>,
      \<lparr>sr_pad = 5, sr_id = 6, sr_name = ''s2'', sr_size = ''10240'', sr_rest = ''kB''\<rparr>,
      \<lparr>sr_pad = 5, sr_id = 9, sr_name = ''s3'', sr_size = ''10240'', sr_rest = ''kB''\<rparr>], er_stderr = []\<rparr>, None)]\<rparr>"

definition machine_snapshots :: "machine SnapshotDriver" where
  "machine_snapshots = (case NewSnapshotDriver (machine_host 1) ''ceph'' of Ok d \<Rightarrow> d)"

theorem prune_keeps_newest_witness:
  "\<exists>w1. prune_listed machine_snapshots (snapshotted ''1h'') (snapshot_options (snapshotted ''1h'') second) listing =
    (Ok (), removals machine_snapshots (snapshot_options (snapshotted ''1h'') second) [''s1''] w1)"
proof -
  let ?o = "snapshot_options (snapshotted ''1h'') second" and ?d = "machine_snapshots"
  have d: "?d = \<lparr>sd_name = BackendName_ceph, sd_validate = ceph_Validate, sd_create = ceph_CreateSnapshot (machine_host 1),
      sd_remove = ceph_RemoveSnapshot (machine_host 1), sd_list = ceph_ListSnapshots (machine_host 1),
      sd_copy = ceph_CopySnapshot (machine_host 1)\<rparr>"
    by (simp add: machine_snapshots_def NewSnapshotDriver_def SnapshotDrivers_def backend_names ceph_NewSnapshotDriver_def)
  have i: "internalName (sv_name (d_volume ?o)) = Ok ''gold.db''" by code_simp
  have "fst (ceph_ListSnapshots (machine_host 1) ?o listing) = Ok [''s1'', ''s2'', ''s3'']" by code_simp
  then have l: "sd_list ?d ?o listing = (Ok [''s1'', ''s2'', ''s3''], snd (sd_list ?d ?o listing))"
    by (simp add: d) (metis prod.collapse)
  have e: "mc_exec (snd (sd_list ?d ?o listing)) = []"
    by (simp add: d) code_simp
  have rm: "mc_exec w' = [] \<and> (r = Ok () \<or> (\<exists>e. r = Err e))"
    if "mc_exec w = []" "sd_remove ?d name ?o w = (r, w')" for name w r w'
    using that by (auto simp: d ceph_RemoveSnapshot_def i snap_cmd_def exec_cmd_def with_er_def mc_run_def mc_answer_def io_defs)
  have k: "sc_keep (ro_snapshot (v_runtime (snapshotted ''1h''))) = 2" by (simp add: snapshotted_def)
  show ?thesis
    using prune_keeps_newest [where P = "\<lambda>w. mc_exec w = []" and val = "snapshotted ''1h''", OF l e rm k] by auto
qed

end
