(* ===== verification/Api.thy ===== *)
theory Api imports Mount_State begin

text \<open>
  \<open>api/api.go\<close>, \<open>api/interfaces.go\<close> and \<open>api/handlers.go\<close>: the handlers of the plugin, over the interface
  \<open>Volplugin\<close> of the protocol that is spoken.
\<close>

section \<open>interfaces.go\<close>

record api_Volume =
  av_mountpoint :: string
  av_policy :: string
  av_name :: string
  av_options :: "smap option"

definition api_Volume_String :: "api_Volume \<Rightarrow> string" where
  "api_Volume_String v = av_policy v @ ''/'' @ av_name v"

record 'w Volplugin =
  vp_HTTPError :: "goerr \<Rightarrow> ('w, unit) handler"
  vp_ReadCreate :: "request \<Rightarrow> VolumeRequest res"
  vp_WriteCreate :: "Volume \<Rightarrow> ('w, unit) handler"
  vp_ReadGet :: "request \<Rightarrow> string res"
  vp_WriteGet :: "string \<Rightarrow> string \<Rightarrow> ('w, unit) handler"
  vp_ReadPath :: "request \<Rightarrow> string res"
  vp_WritePath :: "string \<Rightarrow> ('w, unit) handler"
  vp_WriteList :: "string list \<Rightarrow> ('w, unit) handler"
  vp_ReadMount :: "request \<Rightarrow> api_Volume res"
  vp_WriteMount :: "string \<Rightarrow> ('w, unit) handler"

section \<open>api.go\<close>

definition GetStorageParameters ::
  "('w, 'z) host_scheme \<Rightarrow> api_Volume \<Rightarrow> ('w, 'w MountDriver \<times> Volume \<times> DriverOptions) handler" where
  "GetStorageParameters c uc =
     andThen (inner (cfg_GetVolume c (av_policy uc) (av_name uc))) (\<lambda>volConfig.
     reading srv_global (\<lambda>global.
     case v_backends volConfig of None \<Rightarrow> panic nil_deref | Some b \<Rightarrow>
     attempt (lift (NewMountDriver c (bd_mount b) (g_mount_path global))) (\<lambda>e. fail (Combine GetDriver e)) (\<lambda>driver.
     attempt (lift (ToDriverOptions c volConfig (g_timeout global))) (\<lambda>e. fail (Combine UnmarshalRequest e)) (\<lambda>opts.
       ret (driver, volConfig, opts)))))"

section \<open>Creation\<close>

text \<open>The label \<open>publish\<close>: \<open>errors.Exists\<close> is no failure.\<close>

definition publish_created :: "('w, 'z) host_scheme \<Rightarrow> 'w Volplugin \<Rightarrow> Volume \<Rightarrow> ('w, unit) handler" where
  "publish_created c vp volConfig =
     attempt (inner (cfg_PublishVolume c volConfig))
       (\<lambda>err. if err \<noteq> Exists then (if \<not> is_errored err then fail (Combine PublishVolume err) else fail err)
              else vp_WriteCreate vp volConfig)
       (\<lambda>_. vp_WriteCreate vp volConfig)"

definition api_createVolume ::
  "('w, 'z) host_scheme \<Rightarrow> 'w Volplugin \<Rightarrow> VolumeRequest \<Rightarrow> Policy \<Rightarrow> ('w, unit) handler" where
  "api_createVolume c vp volume policyObj =
     reading srv_global (\<lambda>global.
     andThen (inner (cfg_CreateVolume c volume)) (\<lambda>volConfig.
     attempt (inner (ctl_CreateVolume c policyObj volConfig (g_timeout global)))
       (\<lambda>err. if err = NoActionTaken then publish_created c vp volConfig else fail (Combine CreateVolume err))
       (\<lambda>dopts.
          attempt (inner (ctl_FormatVolume c volConfig dopts))
            (\<lambda>err. regardless (inner (ctl_RemoveVolume c volConfig (g_timeout global))) (fail (Combine FormatVolume err)))
            (\<lambda>_. publish_created c vp volConfig))))"

text \<open>The volume is created while it is locked for mounts and for snapshots.\<close>

definition create_locks :: "VolumeRequest \<Rightarrow> string \<Rightarrow> use list" where
  "create_locks volume hostname =
     [UseMount (VolumeRequest_String volume) hostname ReasonCreate, UseSnapshot (VolumeRequest_String volume) ReasonCreate]"

definition create_locked :: "('w, 'z) host_scheme \<Rightarrow> 'w Volplugin \<Rightarrow> VolumeRequest \<Rightarrow> Policy \<Rightarrow> string \<Rightarrow> ('w, unit) handler" where
  "create_locked c vp volume policyObj hostname =
     reading srv_global (\<lambda>global.
     attempt (ExecuteWithMultiUseLock (srv_host c) (create_locks volume hostname) (g_timeout global)
                (api_createVolume c vp volume policyObj))
       (\<lambda>err. if err \<noteq> Exists then vp_HTTPError vp (Combine CreateVolume err) else ret ())
       (\<lambda>_. ret ()))"

definition api_Create :: "('w, 'z) host_scheme \<Rightarrow> 'w Volplugin \<Rightarrow> request \<Rightarrow> ('w, unit) handler" where
  "api_Create c vp r =
     attempt (lift (vp_ReadCreate vp r)) (vp_HTTPError vp) (\<lambda>volume.
     attempt (inner (cfg_GetVolume c (vr_policy volume) (vr_name volume)))
       (\<lambda>_. attempt (inner (h_hostname c)) (\<lambda>e. vp_HTTPError vp (Combine GetHostname e)) (\<lambda>hostname.
            attempt (inner (cfg_GetPolicy c (vr_policy volume)))
              (\<lambda>e. vp_HTTPError vp (Combine (Combine GetPolicy (Fresh (vr_policy volume))) e))
              (\<lambda>policyObj. create_locked c vp volume policyObj hostname)))
       (\<lambda>vol. vp_HTTPError vp Exists))"

section \<open>Lookups\<close>

definition api_get :: "('w, 'z) host_scheme \<Rightarrow> string \<Rightarrow> ('w, string) handler" where
  "api_get c origName =
     attempt (lift (SplitName origName)) (\<lambda>e. fail (Combine GetVolume e)) (\<lambda>(policy, name).
     attempt (GetStorageParameters c \<lparr>av_mountpoint = [], av_policy = policy, av_name = name, av_options = None\<rparr>)
       (\<lambda>e. fail (Combine GetVolume e)) (\<lambda>(driver, volConfig, driverOpts).
     attempt (lift (Volume_Validate c volConfig)) (\<lambda>e. fail (Combine ConfiguringVolume e)) (\<lambda>_.
     attempt (lift (md_mount_path driver driverOpts)) (\<lambda>e. fail (Combine MountPath e)) ret)))"

definition writePathError :: "('w, 'z) host_scheme \<Rightarrow> 'w Volplugin \<Rightarrow> goerr \<Rightarrow> ('w, unit) handler" where
  "writePathError c vp err =
     (if is_errored err \<and> Contains err NotExists then send_ignored c ''{}'' else vp_HTTPError vp err)"

definition getMountPath :: "'w MountDriver \<Rightarrow> DriverOptions \<Rightarrow> string res" where
  "getMountPath driver driverOpts = md_mount_path driver driverOpts"

definition api_Path :: "('w, 'z) host_scheme \<Rightarrow> 'w Volplugin \<Rightarrow> request \<Rightarrow> ('w, unit) handler" where
  "api_Path c vp r =
     attempt (lift (vp_ReadPath vp r)) (\<lambda>e. vp_HTTPError vp (Combine GetVolume e)) (\<lambda>origName.
     attempt (api_get c origName) (writePathError c vp) (\<lambda>path.
     attempt (vp_WritePath vp path) (\<lambda>e. vp_HTTPError vp (Combine GetVolume e)) ret))"

definition api_Get :: "('w, 'z) host_scheme \<Rightarrow> 'w Volplugin \<Rightarrow> request \<Rightarrow> ('w, unit) handler" where
  "api_Get c vp r =
     attempt (lift (vp_ReadGet vp r)) (\<lambda>e. vp_HTTPError vp (Combine GetVolume e)) (\<lambda>origName.
     attempt (api_get c origName) (writePathError c vp) (\<lambda>path.
     attempt (vp_WriteGet vp origName path) (\<lambda>e. vp_HTTPError vp (Combine GetVolume e)) ret))"

definition api_List :: "('w, 'z) host_scheme \<Rightarrow> 'w Volplugin \<Rightarrow> request \<Rightarrow> ('w, unit) handler" where
  "api_List c vp r =
     attempt (inner (cfg_ListAllVolumes c)) (\<lambda>e. vp_HTTPError vp (Combine ListVolume e)) (\<lambda>volList.
     attempt (vp_WriteList vp volList) (\<lambda>e. vp_HTTPError vp (Combine ListVolume e)) ret)"

section \<open>Mounting\<close>

record 'w mountState =
  ms_err :: goerr
  ms_ut :: use
  ms_driver :: "'w MountDriver"
  ms_opts :: DriverOptions
  ms_volume :: Volume

text \<open>The clean-up: it neither takes the volume out of the collection nor lowers its counter.\<close>

definition clearMount :: "('w, 'z) host_scheme \<Rightarrow> 'w Volplugin \<Rightarrow> 'w mountState \<Rightarrow> ('w, unit) handler" where
  "clearMount c vp ms =
     regardless (inner (md_unmount (ms_driver ms) (ms_opts ms)))
       (reading srv_global (\<lambda>global.
        attempt (inner (ClearLock c (ms_ut ms) (g_timeout global)))
          (\<lambda>err. vp_HTTPError vp
             (Combine (Combine (Combine RefreshMount (Fresh (Volume_String (ms_volume ms)))) err) (ms_err ms)))
          (\<lambda>_. vp_HTTPError vp (Combine MountFailed (ms_err ms)))))"

definition mount_use :: "string \<Rightarrow> string \<Rightarrow> use" where
  "mount_use volName hostname = UseMount volName hostname ReasonMount"

definition startTTLRefresh :: "('w, 'z) host_scheme \<Rightarrow> string \<Rightarrow> ('w, unit) handler" where
  "startTTLRefresh c volName =
     reading a_hostname (\<lambda>hostname.
     andThen (start_refresh c (mount_use volName hostname)) (\<lambda>stopChan. AddStopChan volName stopChan))"

text \<open>\<open>a.WriteMount(path, w)\<close> with its error dropped.\<close>

definition reply_mount :: "'w Volplugin \<Rightarrow> string \<Rightarrow> ('w, unit) handler" where
  "reply_mount vp path = regardless (vp_WriteMount vp path) (ret ())"

text \<open>A locked volume is held for this host before its counter is looked at.\<close>

definition hold_use :: "('w, 'z) host_scheme \<Rightarrow> Volume \<Rightarrow> use \<Rightarrow> ('w, unit) handler" where
  "hold_use c volConfig ut = (if v_unlocked volConfig then ret () else inner (PublishUse c ut))"

text \<open>The part of \<open>Mount\<close> after the check for a duplicate.\<close>

definition mount_first ::
  "('w, 'z) host_scheme \<Rightarrow> 'w Volplugin \<Rightarrow> 'w MountDriver \<Rightarrow> Volume \<Rightarrow> DriverOptions \<Rightarrow> use \<Rightarrow> ('w, unit) handler" where
  "mount_first c vp driver volConfig driverOpts ut =
     (let state = (\<lambda>err. \<lparr>ms_err = err, ms_ut = ut, ms_driver = driver, ms_opts = driverOpts, ms_volume = volConfig\<rparr>);
          volName = Volume_String volConfig;
          undo = (\<lambda>err. andThen (RemoveStopChan volName) (\<lambda>_. clearMount c vp (state err)))
      in attempt (inner (md_mount driver driverOpts)) (\<lambda>err. clearMount c vp (state err)) (\<lambda>mc.
         andThen (collection_Add mc) (\<lambda>_.
         attempt (if v_unlocked volConfig then ret () else startTTLRefresh c volName) undo (\<lambda>_.
         regardless (inner (ApplyCGroupRateLimit c (v_runtime volConfig) mc))
           (attempt (lift (md_mount_path driver driverOpts)) undo (reply_mount vp))))))"

definition mount_volume ::
  "('w, 'z) host_scheme \<Rightarrow> 'w Volplugin \<Rightarrow> 'w MountDriver \<Rightarrow> Volume \<Rightarrow> DriverOptions \<Rightarrow> ('w, unit) handler" where
  "mount_volume c vp driver volConfig driverOpts =
     reading a_hostname (\<lambda>hostname.
     let volName = Volume_String volConfig; ut = mount_use volName hostname in
     attempt (hold_use c volConfig ut) (\<lambda>e. vp_HTTPError vp (Combine LockFailed e)) (\<lambda>_.
     andThen (counter_Add volName) (\<lambda>n.
       if n > 1 then
         (if v_unlocked volConfig
          then attempt (lift (getMountPath driver driverOpts)) (\<lambda>e. vp_HTTPError vp (Combine MarshalResponse e)) (reply_mount vp)
          else vp_HTTPError vp (Combine LockFailed (Fresh ''Duplicate mount'')))
       else mount_first c vp driver volConfig driverOpts ut)))"

definition api_Mount :: "('w, 'z) host_scheme \<Rightarrow> 'w Volplugin \<Rightarrow> request \<Rightarrow> ('w, unit) handler" where
  "api_Mount c vp r =
     attempt (lift (vp_ReadMount vp r)) (\<lambda>e. vp_HTTPError vp (Combine ConfiguringVolume e)) (\<lambda>request.
     attempt (GetStorageParameters c request) (\<lambda>e. vp_HTTPError vp (Combine ConfiguringVolume e))
       (\<lambda>(driver, volConfig, driverOpts). mount_volume c vp driver volConfig driverOpts))"

definition unmount_volume ::
  "('w, 'z) host_scheme \<Rightarrow> 'w Volplugin \<Rightarrow> 'w MountDriver \<Rightarrow> Volume \<Rightarrow> DriverOptions \<Rightarrow> ('w, unit) handler" where
  "unmount_volume c vp driver volConfig driverOpts =
     reading a_hostname (\<lambda>hostname.
     let volName = Volume_String volConfig;
         ut = mount_use volName hostname;
         reply = attempt (lift (getMountPath driver driverOpts)) (\<lambda>e. vp_HTTPError vp (Combine MarshalResponse e)) (reply_mount vp) in
     attempt (hold_use c volConfig ut) (\<lambda>e. vp_HTTPError vp (Combine LockFailed e)) (\<lambda>_.
     andThen (counter_Sub volName) (\<lambda>n.
       if n > 0 then reply
       else
         attempt (inner (md_unmount driver driverOpts)) (\<lambda>e. vp_HTTPError vp (Combine UnmountFailed e)) (\<lambda>_.
         andThen (collection_Remove volName) (\<lambda>_.
         andThen (if v_unlocked volConfig then ret () else RemoveStopChan volName) (\<lambda>_. reply))))))"

definition api_Unmount :: "('w, 'z) host_scheme \<Rightarrow> 'w Volplugin \<Rightarrow> request \<Rightarrow> ('w, unit) handler" where
  "api_Unmount c vp r =
     attempt (lift (vp_ReadMount vp r)) (\<lambda>e. vp_HTTPError vp (Combine UnmarshalRequest e)) (\<lambda>request.
     attempt (GetStorageParameters c request) (\<lambda>e. vp_HTTPError vp (Combine GetDriver e))
       (\<lambda>(driver, volConfig, driverOpts). unmount_volume c vp driver volConfig driverOpts))"

end
