(* ===== verification/Volplugin_Daemon.thy ===== *)
theory Volplugin_Daemon imports Watch Api begin

text \<open>
  \<open>volplugin/init.go\<close>, \<open>volplugin/runtime.go\<close> and the start in \<open>volplugin/volplugin.go\<close>: the daemon that mounts
  rebuilds its counters, its collection of mounts and its lock refreshers from the running containers
  and the mounts of the kernel, and applies changed rate limits to live mounts.
\<close>

section \<open>The docker client\<close>

text \<open>A container has a state and mounts, each with the name of its volume driver and of the volume.\<close>

record container =
  ct_state :: string
  ct_mounts :: "(string \<times> string) list"

record 'w docker =
  dk_new :: "('w, goerr, unit) io"             \<comment> \<open>\<open>client.NewEnvClient\<close>\<close>
  dk_list :: "('w, goerr, container list) io"  \<comment> \<open>\<open>ContainerList\<close>\<close>

section \<open>getMounted\<close>

text \<open>
  The loop runs while docker cannot be asked. The elapsed time is taken the wrong way round, so it is
  never above a timeout that is not negative.
\<close>

fun query_docker :: "nat \<Rightarrow> ('w, 'z) host_scheme \<Rightarrow> 'w docker \<Rightarrow> int \<Rightarrow> int \<Rightarrow> ('w, goerr, container list) io" where
  "query_docker 0 c dk timeout now = hang"
| "query_docker (Suc n) c dk timeout now =
     attempt (dk_new dk) (\<lambda>e. fail (Combine (Fresh ''Could not initiate docker client'') e)) (\<lambda>_.
     attempt (dk_list dk)
       (\<lambda>e. andThen (read_clock c) (\<lambda>t.
          if now - t > timeout then panic ''Cannot contact docker''
          else andThen (modify (h_sleep c second)) (\<lambda>_. query_docker n c dk timeout now)))
       ret)"

text \<open>The mounts by name (\<open>nil\<close> where only docker knows of one) and how often docker uses each.\<close>

type_synonym mount_table = "(string \<times> Mount option) list"

definition mount_put :: "string \<Rightarrow> Mount option \<Rightarrow> mount_table \<Rightarrow> mount_table" where
  "mount_put k m t = (k, m) # filter (\<lambda>p. fst p \<noteq> k) t"

definition plugin_mounts :: "string \<Rightarrow> container list \<Rightarrow> string list" where
  "plugin_mounts plugin cs =
     concat (map (\<lambda>ct. if ct_state ct = ''running'' then map snd (filter (\<lambda>m. fst m = plugin) (ct_mounts ct)) else []) cs)"

definition docker_table :: "string list \<Rightarrow> mount_table" where
  "docker_table names = fold (\<lambda>n. mount_put n None) names []"

definition docker_counts :: "string list \<Rightarrow> string \<Rightarrow> int" where
  "docker_counts names n = int (count_list names n)"

definition add_mounted :: "Mount list \<Rightarrow> mount_table \<Rightarrow> mount_table" where
  "add_mounted ms t = fold (\<lambda>m. mount_put (sv_name (mt_volume m)) (Some m)) ms t"

fun scan_drivers :: "('w, 'z) host_scheme \<Rightarrow> Global \<Rightarrow> string list \<Rightarrow> mount_table \<Rightarrow> ('w, goerr, mount_table) io" where
  "scan_drivers c global [] t = ret t"
| "scan_drivers c global (name # names) t =
     andThen (lift (NewMountDriver c name (g_mount_path global))) (\<lambda>cd.
     andThen (md_mounted cd (g_timeout global)) (\<lambda>mounted. scan_drivers c global names (add_mounted mounted t)))"

definition getMounted ::
  "('w, 'z) host_scheme \<Rightarrow> 'w docker \<Rightarrow> string \<Rightarrow> Global \<Rightarrow> ('w, goerr, mount_table \<times> (string \<Rightarrow> int)) io" where
  "getMounted c dk plugin global =
     andThen (read_clock c) (\<lambda>now.
     andThen (query_docker (h_fuel c) c dk (g_timeout global) now) (\<lambda>containers.
     let names = plugin_mounts plugin containers in
     andThen (scan_drivers c global (h_order c (map fst (MountDrivers c))) (docker_table names)) (\<lambda>t.
       ret (t, docker_counts names))))"

section \<open>updateMounts\<close>

text \<open>
  The volume of a mount. An error that is neither of the two looked for leaves a nil volume, whose use
  panics; \<open>logrus.Fatalf\<close> ends the process.
\<close>

definition mounted_volume :: "('w, 'z) host_scheme \<Rightarrow> string \<Rightarrow> string \<Rightarrow> ('w, Volume option) handler" where
  "mounted_volume c policy name =
     attempt (inner (cfg_GetVolume c policy name))
       (\<lambda>err. if \<not> is_errored err then panic ''Unknown error reading from apiserver''
              else if Contains err NotExists then ret None
              else if Contains err GetVolume then panic ''Volmaster could not be contacted''
              else panic nil_deref)
       (\<lambda>vol. ret (Some vol))"

definition mounted_use :: "string \<Rightarrow> string \<Rightarrow> Volume \<Rightarrow> use" where
  "mounted_use name hostname vol = UseMount name (if v_unlocked vol then Unlocked else hostname) ReasonMount"

definition adopt_mount :: "('w, 'z) host_scheme \<Rightarrow> string \<Rightarrow> Mount \<Rightarrow> Volume \<Rightarrow> ('w, unit) handler" where
  "adopt_mount c name mount vol =
     attempt (collection_Get name)
       (\<lambda>err.
          andThen (collection_Add mount) (\<lambda>_.
          reading a_hostname (\<lambda>hostname.
          attempt (start_refresh c (mounted_use name hostname vol))
            (\<lambda>err. panic ''Error encountered while trying to acquire lock for mount'')
            (\<lambda>stopChan. AddStopChan name stopChan))))
       (\<lambda>_. ret ())"

text \<open>One entry of the table. The entry is printed before it is compared with nil, which panics on nil.\<close>

definition update_mount :: "('w, 'z) host_scheme \<Rightarrow> (string \<Rightarrow> int) \<Rightarrow> string \<Rightarrow> Mount option \<Rightarrow> ('w, unit) handler" where
  "update_mount c counts name mount =
     (case mount of
        None \<Rightarrow> panic nil_deref
      | Some m \<Rightarrow>
          andThen (counter_AddCount name (counts name)) (\<lambda>_.
          case split_on CHR ''/'' name of
            [policy, vol] \<Rightarrow>
              andThen (mounted_volume c policy vol) (\<lambda>v. case v of None \<Rightarrow> ret () | Some volume \<Rightarrow> adopt_mount c name m volume)
          | _ \<Rightarrow> ret ()))"

fun update_entries :: "('w, 'z) host_scheme \<Rightarrow> (string \<Rightarrow> int) \<Rightarrow> mount_table \<Rightarrow> string list \<Rightarrow> ('w, unit) handler" where
  "update_entries c counts t [] = ret ()"
| "update_entries c counts t (name # names) =
     andThen (update_mount c counts name (case map_of t name of None \<Rightarrow> None | Some m \<Rightarrow> m))
       (\<lambda>_. update_entries c counts t names)"

definition updateMounts :: "('w, 'z) host_scheme \<Rightarrow> 'w docker \<Rightarrow> string \<Rightarrow> ('w, unit) handler" where
  "updateMounts c dk plugin =
     reading srv_global (\<lambda>global.
     andThen (inner (getMounted c dk plugin global)) (\<lambda>(t, counts).
       update_entries c counts t (h_order c (map fst t))))"

section \<open>pollRuntime\<close>

text \<open>One watch: a volume that is not mounted here is left alone, and an error is logged.\<close>

definition pollRuntime :: "('w, 'z) host_scheme \<Rightarrow> watch \<Rightarrow> ('w, unit) handler" where
  "pollRuntime c volWatch =
     (case wa_config volWatch of
        VolumeConfig vol \<Rightarrow>
          attempt (collection_Get (Volume_String vol)) (\<lambda>err. ret ())
            (\<lambda>thisMC. regardless (inner (ApplyCGroupRateLimit c (v_runtime vol) thisMC)) (ret ()))
      | _ \<Rightarrow> ret ())"

section \<open>The start\<close>

definition started_global :: "('w, 'z) host_scheme \<Rightarrow> ('w, goerr, Global) io" where
  "started_global c = attempt (cfg_GetGlobal c) (\<lambda>err. ret NewGlobalConfig) ret"

definition volplugin_start ::
  "('w, 'z) host_scheme \<Rightarrow> 'w docker \<Rightarrow> string \<Rightarrow> string \<Rightarrow> 'w \<Rightarrow> (goerr, unit) outcome \<times> 'w api" where
  "volplugin_start c dk plugin hostname w =
     (case started_global c w of
        (Ok global, w') \<Rightarrow> updateMounts c dk plugin (NewAPI hostname global w')
      | (Err e, w') \<Rightarrow> (Err e, NewAPI hostname NewGlobalConfig w')
      | (Panic p, w') \<Rightarrow> (Panic p, NewAPI hostname NewGlobalConfig w')
      | (Hang, w') \<Rightarrow> (Hang, NewAPI hostname NewGlobalConfig w'))"

definition valid_plugin_name :: "string \<Rightarrow> bool" where
  "valid_plugin_name name \<longleftrightarrow> name \<noteq> [] \<and> CHR ''/'' \<notin> set name"

end
