(* ===== verification/Docker.thy ===== *)
theory Docker imports Api begin

text \<open>
  \<open>api/impl/docker\<close>: the volume plugin protocol of docker, an instance of the interface \<open>Volplugin\<close>.
\<close>

section \<open>structs.go\<close>

record VolumeCreateRequest =
  vq_Name :: string
  vq_Opts :: "smap option"

definition zero_vq :: VolumeCreateRequest where
  "zero_vq = \<lparr>vq_Name = [], vq_Opts = None\<rparr>"

definition vq_fields :: "(string \<times> VolumeCreateRequest field_dec) list" where
  "vq_fields =
     [(''Name'', \<lambda>j r. map_option (\<lambda>x. r\<lparr>vq_Name := x\<rparr>) (get_string j (vq_Name r))),
      (''Opts'', \<lambda>j r. map_option (\<lambda>x. r\<lparr>vq_Opts := x\<rparr>) (get_smap j (vq_Opts r)))]"

definition name_fields :: "(string \<times> string field_dec) list" where
  "name_fields = [(''Name'', \<lambda>j r. get_string j r)]"

definition response_json :: "string \<Rightarrow> string \<Rightarrow> json" where
  "response_json mountpoint err = JObj (field ''Mountpoint'' (JStr mountpoint) @ field ''Err'' (JStr err))"

definition docker_volume_json :: "string \<Rightarrow> string \<Rightarrow> json" where
  "docker_volume_json name mountpoint = JObj (field ''Name'' (JStr name) @ field ''Mountpoint'' (JStr mountpoint))"

definition get_response_json :: "string \<Rightarrow> string \<Rightarrow> json" where
  "get_response_json name mountpoint =
     JObj (field ''Volume'' (docker_volume_json name mountpoint) @ field ''Err'' (JStr []))"

text \<open>A nil slice is \<open>null\<close>: the list is nil when nothing was appended.\<close>

definition list_json :: "string list \<Rightarrow> json" where
  "list_json volumes =
     JObj (field ''Volumes'' (if volumes = [] then JNull else JArr (map (\<lambda>v. docker_volume_json v []) volumes)) @
           field ''Err'' (JStr []))"

section \<open>docker.go\<close>

definition docker_HTTPError :: "goerr \<Rightarrow> ('w, unit) handler" where
  "docker_HTTPError err = answer (HttpError 200 (render (response_json [] (error_text err))))"

definition docker_ReadCreate :: "request \<Rightarrow> VolumeRequest res" where
  "docker_ReadCreate r =
     (case ReadAll r of
        Ok content \<Rightarrow>
          (case unmarshal vq_fields content zero_vq of
             Ok req \<Rightarrow>
               (case SplitName (vq_Name req) of
                  Ok (policy, volume) \<Rightarrow> Ok \<lparr>vr_name = volume, vr_policy = policy, vr_options = vq_Opts req\<rparr>
                | Err e \<Rightarrow> Err (Combine (Combine UnmarshalRequest InvalidVolume) e)
                | Panic m \<Rightarrow> Panic m | Hang \<Rightarrow> Hang)
           | Err e \<Rightarrow> Err (Combine UnmarshalRequest e)
           | Panic m \<Rightarrow> Panic m | Hang \<Rightarrow> Hang)
      | Err e \<Rightarrow> Err (Combine ReadBody e)
      | Panic m \<Rightarrow> Panic m | Hang \<Rightarrow> Hang)"

definition docker_WriteCreate :: "('w, 'z) host_scheme \<Rightarrow> Volume \<Rightarrow> ('w, unit) handler" where
  "docker_WriteCreate c volConfig = send c (render (response_json [] []))"

definition docker_ReadGet :: "request \<Rightarrow> string res" where
  "docker_ReadGet r =
     bind_res (ReadAll r) (\<lambda>content.
     bind_res (unmarshal name_fields content []) (\<lambda>name.
     bind_res (SplitName name) (\<lambda>_. Ok name)))"

definition docker_WriteGet :: "('w, 'z) host_scheme \<Rightarrow> string \<Rightarrow> string \<Rightarrow> ('w, unit) handler" where
  "docker_WriteGet c name mountpoint = send c (render (get_response_json name mountpoint))"

definition docker_unmarshal :: "request \<Rightarrow> VolumeCreateRequest res" where
  "docker_unmarshal r = bind_res (ReadAll r) (\<lambda>content. unmarshal vq_fields content zero_vq)"

definition docker_ReadPath :: "request \<Rightarrow> string res" where
  "docker_ReadPath r = bind_res (docker_unmarshal r) (\<lambda>vol. Ok (vq_Name vol))"

definition docker_WritePath :: "('w, 'z) host_scheme \<Rightarrow> string \<Rightarrow> ('w, unit) handler" where
  "docker_WritePath c mountpoint = send c (render (response_json mountpoint []))"

definition docker_WriteList :: "('w, 'z) host_scheme \<Rightarrow> string list \<Rightarrow> ('w, unit) handler" where
  "docker_WriteList c volumes = send c (render (list_json volumes))"

definition docker_ReadMount :: "request \<Rightarrow> api_Volume res" where
  "docker_ReadMount r =
     bind_res (docker_unmarshal r) (\<lambda>vol.
     bind_res (SplitName (vq_Name vol)) (\<lambda>(policy, name).
       Ok \<lparr>av_mountpoint = [], av_policy = policy, av_name = name, av_options = None\<rparr>))"

definition docker_WriteMount :: "('w, 'z) host_scheme \<Rightarrow> string \<Rightarrow> ('w, unit) handler" where
  "docker_WriteMount c mountPoint = send c (render (response_json mountPoint []))"

definition NewVolplugin :: "('w, 'z) host_scheme \<Rightarrow> 'w Volplugin" where
  "NewVolplugin c =
     \<lparr>vp_HTTPError = docker_HTTPError, vp_ReadCreate = docker_ReadCreate, vp_WriteCreate = docker_WriteCreate c,
      vp_ReadGet = docker_ReadGet, vp_WriteGet = docker_WriteGet c, vp_ReadPath = docker_ReadPath,
      vp_WritePath = docker_WritePath c, vp_WriteList = docker_WriteList c, vp_ReadMount = docker_ReadMount,
      vp_WriteMount = docker_WriteMount c\<rparr>"

section \<open>handlers.go\<close>

definition docker_Activate :: "('w, 'z) host_scheme \<Rightarrow> request \<Rightarrow> ('w, unit) handler" where
  "docker_Activate c r = send_ignored c (render (JObj (field ''Implements'' (JArr [JStr ''VolumeDriver'']))))"

definition docker_Deactivate :: "request \<Rightarrow> ('w, unit) handler" where
  "docker_Deactivate r = answer (Header 200)"

definition docker_Capabilities :: "('w, 'z) host_scheme \<Rightarrow> request \<Rightarrow> ('w, unit) handler" where
  "docker_Capabilities c r =
     send_ignored c (render (JObj (field ''Capabilities'' (JObj (field ''Scope'' (JStr ''global''))))))"

section \<open>The routes\<close>

text \<open>The handlers of \<open>Router\<close>; which path a request takes is decided by the vendored \<open>mux\<close>.\<close>

definition routeMap :: "('w, 'z) host_scheme \<Rightarrow> (string \<times> (request \<Rightarrow> ('w, unit) handler)) list" where
  "routeMap c =
     (let vp = NewVolplugin c in
      [(''/Plugin.Activate'', docker_Activate c),
       (''/Plugin.Deactivate'', docker_Deactivate),
       (''/VolumeDriver.Capabilities'', docker_Capabilities c),
       (''/VolumeDriver.Create'', api_Create c vp),
       (''/VolumeDriver.Remove'', api_Path c vp),
       (''/VolumeDriver.Path'', api_Path c vp),
       (''/VolumeDriver.Get'', api_Get c vp),
       (''/VolumeDriver.List'', api_List c vp),
       (''/VolumeDriver.Mount'', api_Mount c vp),
       (''/VolumeDriver.Unmount'', api_Unmount c vp)])"

text \<open>What is registered for a route: its handler in the logger, named by what follows the first dot.\<close>

definition routed :: "('w, 'z) host_scheme \<Rightarrow> bool \<Rightarrow> (string \<times> (request \<Rightarrow> ('w, unit) handler)) list" where
  "routed c debug =
     map (\<lambda>(key, value). (key, LogHandler (case split2 CHR ''.'' key of [a, b] \<Rightarrow> b | _ \<Rightarrow> []) debug value)) (routeMap c)"

end
