(* ===== verification/Processes.thy ===== *)
theory Processes imports Volsupervisor_Props Volplugin_Daemon Docker begin

text \<open>
  The two long-running processes beside the API server, as wholes: \<open>volsupervisor/volsupervisor.go\<close> from its start to
  the signal that ends it, with its goroutines as interleaved events; and \<open>volplugin/volplugin.go\<close> with its socket. The
  goroutines of \<open>info/debug.go\<close>, which both start, answer two signals with a report and a dump.
\<close>

section \<open>The etcd connection of a process\<close>

text \<open>The services of the host, with the connection \<open>config.NewClient\<close> has made.\<close>

definition connected :: "'w client \<Rightarrow> ('w, 'z) host_scheme \<Rightarrow> ('w, 'z) host_scheme" where
  "connected cl c = c\<lparr>kv_get := kv_get cl, kv_set := kv_set cl, kv_del := kv_del cl, c_prefix := c_prefix cl\<rparr>"

section \<open>volsupervisor\<close>

text \<open>\<open>Daemon\<close> up to its loop; without a connection \<open>logrus.Fatal\<close> ends the process.\<close>

definition sup_Daemon ::
  "(string list \<Rightarrow> 'w client res) \<Rightarrow> ('w, 'z) host_scheme \<Rightarrow> string \<Rightarrow> string list \<Rightarrow> string \<Rightarrow> 'w
    \<Rightarrow> (goerr, unit) outcome \<times> 'w supervisor" where
  "sup_Daemon connect c prefix etcdHosts hostname w =
     (case NewClient connect prefix etcdHosts w of
        (Ok cl, w') \<Rightarrow> sup_start (connected cl c) hostname w'
      | (Hang, w') \<Rightarrow> (Hang, NewSupervisor hostname NewGlobalConfig w')
      | (_, w') \<Rightarrow> (Panic ''fatal'', NewSupervisor hostname NewGlobalConfig w'))"

text \<open>
  What its goroutines do, one call at a time: the poll of the volumes, the loop, the tasks, the two watches, and the
  goroutines that refresh the locks.
\<close>

datatype sup_event =
    Poll
  | Pass
  | Task nat
  | SnapshotSignal watch
  | GlobalUpdate watch
  | Refresher nat

definition sup_task :: "('w, 'z) host_scheme \<Rightarrow> nat \<Rightarrow> ('w, unit) sup" where
  "sup_task c i s =
     (if i < length (su_tasks s)
      then run_task c (su_tasks s ! i) (s\<lparr>su_tasks := take i (su_tasks s) @ drop (Suc i) (su_tasks s)\<rparr>)
      else (Ok (), s))"

definition sup_goroutine :: "('w, 'z) host_scheme \<Rightarrow> nat \<Rightarrow> ('w, unit) sup" where
  "sup_goroutine c i s =
     (if i < length (su_refreshers s) then
        (case su_refreshers s ! i of
           Refreshing u \<Rightarrow>
             regardless (inner (acquire c u (g_ttl (srv_global s)) (g_timeout (srv_global s)))) (ret ()) s
         | Stopping u \<Rightarrow>
             regardless (inner (RemoveUse c u False)) (modify (\<lambda>s'. s'\<lparr>su_refreshers := (su_refreshers s')[i := Ended u]\<rparr>)) s
         | Ended u \<Rightarrow> (Ok (), s))
      else (Ok (), s))"

fun sup_handle :: "('w, 'z) host_scheme \<Rightarrow> sup_event \<Rightarrow> ('w, unit) sup" where
  "sup_handle c Poll = updateVolumes c"
| "sup_handle c Pass = loop_pass c"
| "sup_handle c (Task i) = sup_task c i"
| "sup_handle c (SnapshotSignal a) = signalSnapshot c a"
| "sup_handle c (GlobalUpdate a) = watchAndSetGlobal a"
| "sup_handle c (Refresher i) = sup_goroutine c i"

text \<open>
  The process runs, is leaving since a signal has come (the goroutine that waits for it takes one), or has ended. A panic in
  any goroutine ends it. On the signal the goroutine of its own lock is told to stop; the process ends after the TTL
  and a second.
\<close>

datatype 'w process = Up bool "'w supervisor" | Down 'w

definition sup_terminate :: "('w, unit) sup" where
  "sup_terminate = sup_stop 0"

definition sup_exit :: "('w, 'z) host_scheme \<Rightarrow> 'w supervisor \<Rightarrow> 'w" where
  "sup_exit c s = h_sleep c (wrap64 (g_ttl (srv_global s) + second)) (srv_world s)"

inductive sup_step :: "('w, 'z) host_scheme \<Rightarrow> 'w process \<Rightarrow> 'w process \<Rightarrow> bool" for c where
  returns: "sup_handle c ev s = (Ok u, s') \<Longrightarrow> sup_step c (Up leaving s) (Up leaving s')"
| reports: "sup_handle c ev s = (Err e, s') \<Longrightarrow> sup_step c (Up leaving s) (Up leaving s')"
| panics: "sup_handle c ev s = (Panic m, s') \<Longrightarrow> sup_step c (Up leaving s) (Down (srv_world s'))"
| signal: "sup_terminate s = (Ok u, s') \<Longrightarrow> sup_step c (Up False s) (Up True s')"
| exit: "sup_step c (Up True s) (Down (sup_exit c s))"
| others: "sup_step c (Up leaving s) (Up leaving (s\<lparr>srv_world := w\<rparr>))"

inductive_cases sup_stepE: "sup_step c (Up leaving s) (Up leaving' s')"
inductive_simps down_stays: "sup_step c (Down w) p"

inductive sup_reach :: "('w, 'z) host_scheme \<Rightarrow> string \<Rightarrow> 'w process \<Rightarrow> bool" for c hostname where
  start: "sup_start c hostname w = (Ok u, s) \<Longrightarrow> sup_reach c hostname (Up False s)"
| step: "sup_reach c hostname p \<Longrightarrow> sup_step c p p' \<Longrightarrow> sup_reach c hostname p'"

section \<open>The refreshers of the supervisor\<close>

text \<open>Calls that leave the refreshing goroutines alone, however they end.\<close>

definition same_refreshers :: "'w supervisor \<Rightarrow> 'w supervisor \<Rightarrow> bool" where
  "same_refreshers s s' \<longleftrightarrow> su_refreshers s' = su_refreshers s"

lemma same_trans: "same_refreshers a b \<Longrightarrow> same_refreshers b d \<Longrightarrow> same_refreshers a d"
  by (simp add: same_refreshers_def)

lemmas quiet_attempt = keeps_attempt [of same_refreshers, OF same_trans]
lemmas quiet_pure = keeps_pure [of same_refreshers, unfolded same_refreshers_def, OF refl, folded same_refreshers_def]

lemma quiet_andThen: "keeps same_refreshers m \<Longrightarrow> (\<And>x. keeps same_refreshers (k x)) \<Longrightarrow> keeps same_refreshers (andThen m k)"
  unfolding andThen_def by (intro quiet_attempt quiet_pure)

lemma quiet_regardless: "keeps same_refreshers m \<Longrightarrow> keeps same_refreshers k \<Longrightarrow> keeps same_refreshers (regardless m k)"
  unfolding regardless_def by (intro quiet_attempt)

lemma quiet_inner: "keeps same_refreshers (inner m)"
  by (simp add: keeps_def inner_def same_refreshers_def split: prod.split)

lemma quiet_reading: "(\<And>v. keeps same_refreshers (k v)) \<Longrightarrow> keeps same_refreshers (reading f k)"
  by (simp add: keeps_def)

lemma quiet_modify: "(\<And>s. su_refreshers (f s) = su_refreshers s) \<Longrightarrow> keeps same_refreshers (modify f)"
  by (simp add: keeps_def same_refreshers_def)

lemma quiet_Pair: "keeps same_refreshers (Pair r)"
  by (simp add: keeps_def same_refreshers_def)

lemmas quiet = quiet_pure quiet_Pair quiet_andThen quiet_attempt quiet_regardless quiet_inner quiet_reading

lemma quiet_spawn: "keeps same_refreshers (spawn t)"
  unfolding spawn_def by (intro quiet_modify) simp

lemma quiet_calls:
  "keeps same_refreshers (updateVolumes c)" "keeps same_refreshers (consider_volume c v)"
  "keeps same_refreshers (signalSnapshot c a)" "keeps same_refreshers (watchAndSetGlobal a)"
proof -
  show "keeps same_refreshers (updateVolumes c)"
    unfolding updateVolumes_def by (intro quiet quiet_modify) simp_all
  show "keeps same_refreshers (consider_volume c v)"
    unfolding consider_volume_def Let_def by (auto intro!: quiet quiet_spawn split: prod.split)
  show "keeps same_refreshers (signalSnapshot c a)"
    unfolding signalSnapshot_def by (auto intro!: quiet quiet_spawn split: list.split)
  show "keeps same_refreshers (watchAndSetGlobal a)"
    unfolding watchAndSetGlobal_def by (auto intro!: quiet quiet_modify split: watch_config.split)
qed

lemma quiet_consider: "keeps same_refreshers (consider_volumes c m ks)"
  by (induction ks) (auto intro!: quiet quiet_calls)

lemma quiet_pass: "keeps same_refreshers (loop_pass c)"
  unfolding loop_pass_def by (intro quiet quiet_consider)

text \<open>Calls whose new refreshing goroutines have been told to stop when they return.\<close>

definition refreshing :: "goroutine list \<Rightarrow> use set" where
  "refreshing gs = {u. Refreshing u \<in> set gs}"

definition settles :: "('w, unit) sup \<Rightarrow> bool" where
  "settles m \<longleftrightarrow> (\<forall>s r s'. m s = (r, s') \<longrightarrow> r \<noteq> Hang \<longrightarrow>
     (\<exists>gs. su_refreshers s' = su_refreshers s @ gs \<and> refreshing gs = {}))"

lemma settlesD:
  assumes "settles m" "m s = (r, s')" "r \<noteq> Hang"
  obtains gs where "su_refreshers s' = su_refreshers s @ gs" "refreshing gs = {}"
  using assms unfolding settles_def by blast

lemma refreshing_simps [simp]:
  "refreshing [] = {}" "refreshing (Refreshing u # gs) = insert u (refreshing gs)"
  "refreshing (Stopping u # gs) = refreshing gs" "refreshing (Ended u # gs) = refreshing gs"
  "refreshing (gs @ hs) = refreshing gs \<union> refreshing hs"
  by (auto simp: refreshing_def)

lemma settles_quiet: "keeps same_refreshers m \<Longrightarrow> settles m"
  unfolding settles_def using keepsD [of same_refreshers m] by (fastforce simp: same_refreshers_def)

lemma settles_while_locked:
  assumes "keeps same_refreshers m"
  shows "settles (while_locked c u m)"
  unfolding settles_def
proof (intro allI impI)
  fix s r s' assume run: "while_locked c u m s = (r, s')" "r \<noteq> Hang"
  obtain r1 w where l: "AcquireWithTTLRefresh c u (srv_world s) = (r1, w)" by fastforce
  note il = inner_run [where m = "AcquireWithTTLRefresh c u" and s = s, OF l]
  show "\<exists>gs. su_refreshers s' = su_refreshers s @ gs \<and> refreshing gs = {}"
  proof (cases r1)
    case (Ok x)
    let ?s1 = "s\<lparr>srv_world := w, su_refreshers := su_refreshers s @ [Refreshing u]\<rparr>"
    obtain r2 s2 where m: "m ?s1 = (r2, s2)" by fastforce
    have "su_refreshers s2 = su_refreshers s @ [Refreshing u]"
      using keepsD [OF assms m] by (simp add: same_refreshers_def)
    moreover have "su_refreshers s' = (su_refreshers s2)[length (su_refreshers s) := signal (su_refreshers s2 ! length (su_refreshers s))]"
      using run m il Ok
      by (cases r2) (auto simp: while_locked_def sup_refresh_def deferred_def sup_stop_def attempt_def andThen_def)
    ultimately show ?thesis by simp
  qed (use run il in \<open>auto simp: while_locked_def sup_refresh_def attempt_def andThen_def\<close>)
qed

lemma settles_tasks: "settles (createSnapshot c v)" "settles (pruneSnapshots c v)"
proof -
  have b: "keeps same_refreshers (snapshot_backend v k)" if "\<And>n. keeps same_refreshers (k n)" for k :: "string \<Rightarrow> ('a, unit) sup"
    using that by (auto simp: snapshot_backend_def intro!: quiet split: option.split)
  show "settles (createSnapshot c v)"
    unfolding createSnapshot_def by (intro settles_while_locked b quiet)
  have p: "settles (snapshot_backend v k)" if "\<And>n. settles (k n)" for k :: "string \<Rightarrow> ('a, unit) sup"
    using that settles_quiet [OF quiet_pure(3)] by (auto simp: snapshot_backend_def split: option.split)
  show "settles (pruneSnapshots c v)"
    unfolding pruneSnapshots_def
    by (intro p) (simp add: settles_while_locked settles_quiet quiet)
qed

lemma settles_andThen:
  assumes m: "settles m" and k: "settles k"
  shows "settles (andThen m (\<lambda>_. k))"
  unfolding settles_def
proof (intro allI impI)
  fix s r s' assume run: "andThen m (\<lambda>_. k) s = (r, s')" "r \<noteq> Hang"
  obtain r1 s1 where a: "m s = (r1, s1)" by fastforce
  then have nh: "r1 \<noteq> Hang" using run by auto
  obtain gs where gs: "su_refreshers s1 = su_refreshers s @ gs" "refreshing gs = {}" by (rule settlesD [OF m a nh])
  show "\<exists>gs. su_refreshers s' = su_refreshers s @ gs \<and> refreshing gs = {}"
  proof (cases r1)
    case (Ok x)
    then have "k s1 = (r, s')" using run(1) a by simp
    then obtain hs where "su_refreshers s' = su_refreshers s1 @ hs" "refreshing hs = {}"
      using settlesD [OF k _ run(2)] by blast
    then show ?thesis using gs by simp
  qed (use run a gs nh in auto)
qed

lemma settles_task: "settles (run_task c t)"
proof (cases t)
  case (Cycle v b)
  then show ?thesis
    by (cases b) (simp_all add: run_task_def settles_andThen settles_tasks settles_quiet quiet_pure)
qed (simp add: run_task_def settles_tasks)

text \<open>What every event leaves of the refreshing goroutines: the first one is that of the supervisor's own lock.\<close>

definition own_lock :: "string \<Rightarrow> bool \<Rightarrow> 'w supervisor \<Rightarrow> bool" where
  "own_lock hostname leaving s \<longleftrightarrow>
     (\<exists>g gs. su_refreshers s = g # gs \<and> refreshing gs = {} \<and>
        (if leaving then g \<in> {Stopping (UseVolsupervisor hostname), Ended (UseVolsupervisor hostname)}
         else g = Refreshing (UseVolsupervisor hostname)))"

lemma own_lock_same: "su_refreshers s' = su_refreshers s \<Longrightarrow> own_lock h l s' = own_lock h l s"
  by (simp add: own_lock_def)

lemma own_lock_settles:
  assumes "settles m" "m s = (r, s')" "r \<noteq> Hang" "own_lock h l s"
  shows "own_lock h l s'"
  using settlesD [OF assms(1-3)] assms(4) unfolding own_lock_def by (metis append_Cons refreshing_simps(5) sup.idem)

lemma goroutine_refreshers:
  assumes "sup_goroutine c i s = (r, s')"
  shows "su_refreshers s' = su_refreshers s \<or>
    (\<exists>u. i < length (su_refreshers s) \<and> su_refreshers s ! i = Stopping u \<and> su_refreshers s' = (su_refreshers s)[i := Ended u])"
  using assms
  by (auto simp: sup_goroutine_def regardless_def attempt_def inner_def
      split: if_splits goroutine.splits prod.splits outcome.splits)

lemma refreshing_ended: "refreshing gs = {} \<Longrightarrow> refreshing (gs[i := Ended u]) = {}"
  using set_update_subset_insert [of gs i "Ended u"] by (auto simp: refreshing_def)

lemma own_lock_goroutine:
  assumes "sup_goroutine c i s = (r, s')" "own_lock h l s"
  shows "own_lock h l s'"
proof -
  obtain g gs where g: "su_refreshers s = g # gs" "refreshing gs = {}" using assms(2) by (auto simp: own_lock_def)
  show ?thesis
    using goroutine_refreshers [OF assms(1)] assms(2) g
    by (cases i) (auto simp: own_lock_def refreshing_ended split: if_splits)
qed

lemma own_lock_event:
  assumes "sup_handle c ev s = (r, s')" "r \<noteq> Hang" "own_lock h l s"
  shows "own_lock h l s'"
proof (cases ev)
  case (Task i)
  then show ?thesis
    using assms own_lock_settles [OF settles_task, of c "su_tasks s ! i" "s\<lparr>su_tasks := take i (su_tasks s) @ drop (Suc i) (su_tasks s)\<rparr>" r s' h l]
    by (auto simp: sup_task_def own_lock_same [of "s\<lparr>su_tasks := _\<rparr>" s] split: if_splits)
next
  case (Refresher i)
  then show ?thesis using assms own_lock_goroutine by simp
next
  case Poll
  then show ?thesis using assms own_lock_settles [OF settles_quiet [OF quiet_calls(1)]] by simp
next
  case Pass
  then show ?thesis using assms own_lock_settles [OF settles_quiet [OF quiet_pass]] by simp
next
  case (SnapshotSignal a)
  then show ?thesis using assms own_lock_settles [OF settles_quiet [OF quiet_calls(3)]] by simp
next
  case (GlobalUpdate a)
  then show ?thesis using assms own_lock_settles [OF settles_quiet [OF quiet_calls(4)]] by simp
qed

lemma start_own_lock:
  assumes "sup_start c hostname w = (Ok u, s)"
  shows "own_lock hostname False s"
proof -
  obtain g w1 where e: "sup_enter c (NewSupervisor hostname g w1) = (Ok u, s)"
    using assms unfolding sup_start_def by (auto split: prod.splits outcome.splits)
  let ?s0 = "NewSupervisor hostname g w1" and ?u = "UseVolsupervisor hostname"
  obtain r w2 where a: "AcquireWithTTLRefresh c ?u (srv_world ?s0) = (r, w2)" by fastforce
  let ?s1 = "?s0\<lparr>srv_world := w2, su_refreshers := [Refreshing ?u]\<rparr>"
  have "updateVolumes c ?s1 = (Ok u, s)"
    using e inner_run [where m = "AcquireWithTTLRefresh c ?u" and s = ?s0, OF a]
    by (cases r) (auto simp: sup_enter_def sup_refresh_def NewSupervisor_def)
  then show ?thesis
    by (rule own_lock_settles [OF settles_quiet [OF quiet_calls(1)]]) (simp_all add: own_lock_def)
qed

lemma own_lock_signal: "own_lock h False s \<Longrightarrow> sup_terminate s = (r, s') \<Longrightarrow> own_lock h True s'"
  by (auto simp: own_lock_def sup_terminate_def sup_stop_def)

lemma reach_own_lock: "sup_reach c hostname p \<Longrightarrow> p = Up leaving s \<Longrightarrow> own_lock hostname leaving s"
proof (induction arbitrary: leaving s rule: sup_reach.induct)
  case (start w u s)
  then show ?case using start_own_lock by auto
next
  case (step p p')
  from step.hyps(2) step.prems show ?case
    by (cases rule: sup_step.cases)
      (use step.IH in \<open>auto dest: own_lock_event own_lock_signal simp: own_lock_same [of "s\<lparr>srv_world := _\<rparr>" s for s]\<close>)
qed


definition configured :: machine where
  "configured = snd (cfg_PublishGlobal (machine_host 1) NewGlobalConfig machine_start)"


section \<open>volplugin\<close>

text \<open>\<open>NewDaemonConfig\<close>: it waits for a connection; a name no socket can have ends the process.\<close>

fun retry_client ::
  "nat \<Rightarrow> (string list \<Rightarrow> 'w client res) \<Rightarrow> ('w, 'z) host_scheme \<Rightarrow> string \<Rightarrow> string list \<Rightarrow> ('w, goerr, 'w client) io" where
  "retry_client 0 connect c prefix hosts = hang"
| "retry_client (Suc n) connect c prefix hosts =
     attempt (NewClient connect prefix hosts)
       (\<lambda>err. andThen (modify (h_sleep c second)) (\<lambda>_. retry_client n connect c prefix hosts)) ret"

definition NewDaemonConfig ::
  "(string list \<Rightarrow> 'w client res) \<Rightarrow> ('w, 'z) host_scheme \<Rightarrow> string \<Rightarrow> string list \<Rightarrow> string \<Rightarrow> ('w, goerr, ('w, 'z) host_scheme) io" where
  "NewDaemonConfig connect c prefix hosts plugin =
     andThen (retry_client (h_fuel c) connect c prefix hosts) (\<lambda>cl.
       if valid_plugin_name plugin then ret (connected cl c)
       else panic ''Cannot continue; socket name contains empty value or invalid characters'')"

definition basePath :: string where "basePath = ''/run/docker/plugins''"

definition driverPath :: "string \<Rightarrow> string" where
  "driverPath plugin = path_join [basePath, plugin @ ''.sock'']"

text \<open>
  The socket and the HTTP server on it are parameters: \<open>us_serve\<close> runs the requests it is sent, on the routes it is given.
  \<open>Serve\<close> has no end but an error, which ends the process.
\<close>

record 'w unix_socket =
  us_listen :: "string \<Rightarrow> ('w, goerr, unit) io"   \<comment> \<open>\<open>net.ListenUnix\<close>\<close>
  us_serve :: "(string \<times> (request \<Rightarrow> ('w, unit) handler)) list \<Rightarrow> ('w, unit) handler"
  us_close :: "('w, goerr, unit) io"

definition plugin_serve :: "('w, 'z) host_scheme \<Rightarrow> 'w unix_socket \<Rightarrow> string \<Rightarrow> ('w, unit) handler" where
  "plugin_serve c u plugin =
     (let path = driverPath plugin in
      andThen (attempt (inner (h_remove c path)) (\<lambda>err. if err = ENOENT then ret () else fail err) ret) (\<lambda>_.
      andThen (inner (h_mkdir c basePath 448)) (\<lambda>_.
      andThen (inner (us_listen u path)) (\<lambda>_.
      reading srv_global (\<lambda>global.
      attempt (us_serve u (routed c (g_debug global))) (\<lambda>err. panic ''Fatal error serving volplugin'') (\<lambda>_.
        regardless (inner (us_close u)) (inner (h_remove c path))))))))"

definition volplugin_Daemon ::
  "('w, 'z) host_scheme \<Rightarrow> 'w docker \<Rightarrow> 'w unix_socket \<Rightarrow> string \<Rightarrow> string \<Rightarrow> 'w \<Rightarrow> (goerr, unit) outcome \<times> 'w api" where
  "volplugin_Daemon c dk u plugin hostname w =
     (case volplugin_start c dk plugin hostname w of (Ok x, s) \<Rightarrow> plugin_serve c u plugin s | (r, s) \<Rightarrow> (r, s))"

text \<open>The goroutine that takes what \<open>WatchGlobal\<close> sends.\<close>

definition plugin_global :: "watch \<Rightarrow> ('w, unit) handler" where
  "plugin_global a =
     (case wa_config a of GlobalConfig g \<Rightarrow> modify (\<lambda>s. s\<lparr>srv_global := g\<rparr>) | _ \<Rightarrow> panic ''interface conversion'')"

text \<open>A plugin whose name is accepted has a socket of its own, directly in the directory docker looks at.\<close>

lemma driverPath_plain:
  assumes "valid_plugin_name plugin"
  shows "driverPath plugin = basePath @ slash @ plugin @ ''.sock''"
proof -
  have "plain_seg (plugin @ ''.sock'')" using assms by (auto simp: plain_seg_def valid_plugin_name_def)
  then have "path_join [slash @ join slash [''run'', ''docker'', ''plugins''], plugin @ ''.sock''] =
      slash @ join slash ([''run'', ''docker'', ''plugins''] @ [plugin @ ''.sock''])"
    by (intro path_join_snoc) (auto simp: plain_seg_def)
  then show ?thesis by (simp add: driverPath_def basePath_def)
qed

lemma driverPath_inj:
  "valid_plugin_name p \<Longrightarrow> valid_plugin_name q \<Longrightarrow> driverPath p = driverPath q \<longleftrightarrow> p = q"
  by (simp add: driverPath_plain)

section \<open>info/debug.go\<close>

text \<open>
  What SIGUSR1 reports: the number of open descriptors, and the version \<open>ceph version\<close> prints. \<open>strings.TrimLeft\<close> takes off
  every leading character of its set, not a prefix. The version and the processors of the Go runtime are not modelled.
\<close>

definition trim_left :: "string \<Rightarrow> string \<Rightarrow> string" where
  "trim_left cutset s = dropWhile (\<lambda>x. x \<in> set cutset) s"

definition numFileDescriptors :: "('w, goerr, string list) io \<Rightarrow> ('w, goerr, int) io" where
  "numFileDescriptors readDir = attempt readDir (\<lambda>err. ret (- 1)) (\<lambda>fds. ret (int (length fds)))"

definition getCephVersion :: "('w, goerr, string) io \<Rightarrow> ('w, goerr, string) io" where
  "getCephVersion output =
     attempt output (\<lambda>err. fail (Fresh ''encountered error'')) (\<lambda>out. ret (trim_space (trim_left ''ceph version '' out)))"

definition logDebugInfo :: "('w, goerr, string) io \<Rightarrow> ('w, goerr, string list) io \<Rightarrow> ('w, goerr, int \<times> string) io" where
  "logDebugInfo output readDir =
     andThen (attempt (getCephVersion output) (\<lambda>err. ret ''n/a'') ret) (\<lambda>cephVersion.
     andThen (numFileDescriptors readDir) (\<lambda>fds. ret (fds, cephVersion)))"

text \<open>What SIGUSR2 does: a dump, whose failure is logged. The answer is the name of the file, if any.\<close>

definition dump_signal :: "('w, 'z) tar_writer_scheme \<Rightarrow> string \<Rightarrow> ('w, goerr, string option) io" where
  "dump_signal t prefix = attempt (DumpTarball t prefix) (\<lambda>err. ret None) (\<lambda>tarballPath. ret (Some tarballPath))"

text \<open>The report never fails, and reads a version number as it is printed.\<close>

lemma logDebugInfo_total:
  assumes "output w = (Ok out, w1) \<or> output w = (Err e, w1)" "readDir w1 = (Ok fds, w2) \<or> readDir w1 = (Err e', w2)"
  shows "\<exists>n v. logDebugInfo output readDir w = (Ok (n, v), w2) \<and> - 1 \<le> n"
  using assms by (auto simp: logDebugInfo_def getCephVersion_def numFileDescriptors_def andThen_def attempt_def)

lemma ceph_version_number:
  assumes "d \<notin> set ''ceph version ''" "output w = (Ok (''ceph version '' @ d # ds), w')"
  shows "getCephVersion output w = (Ok (trim_space (d # ds)), w')"
  using assms by (simp add: getCephVersion_def trim_left_def)

end
