(* ===== verification/Apiserver.thy ===== *)
theory Apiserver imports Http begin

text \<open>
  \<open>apiserver/daemon.go\<close>: the handlers of the management API. The state of the daemon is \<open>srv\<close>: its
  world, the global configuration its watch keeps, and the answers to the request it handles.
\<close>

type_synonym ('w, 'a) serve = "('w srv, goerr, 'a) io"

section \<open>Requests\<close>

definition rest_error :: "goerr \<Rightarrow> ('w, unit) serve" where
  "rest_error e = RESTHTTPError (Some e)"

definition unmarshalRequest :: "request \<Rightarrow> VolumeRequest res" where
  "unmarshalRequest r =
     bind_res (ReadAll r) (\<lambda>content.
     bind_res (unmarshal request_fields content zero_request) (\<lambda>cfg.
       if vr_policy cfg = [] then Err (Fresh ''Policy was blank'')
       else if vr_name cfg = [] then Err (Fresh ''volume was blank'')
       else Ok cfg))"

text \<open>\<open>req.Options[k]\<close>, and whether the key is there.\<close>

definition option_of :: "VolumeRequest \<Rightarrow> string \<Rightarrow> string" where
  "option_of req k = lookup_opt (vr_options req) k"

definition has_option :: "VolumeRequest \<Rightarrow> string \<Rightarrow> bool" where
  "has_option req k = (case vr_options req of None \<Rightarrow> False | Some m \<Rightarrow> map_of m k \<noteq> None)"

definition strings_json :: "string list \<Rightarrow> json" where
  "strings_json ss = JArr (map JStr ss)"

text \<open>Reading a body into a value that is filled, with the two errors of the handlers.\<close>

definition read_into ::
  "request \<Rightarrow> (string \<times> 'r field_dec) list \<Rightarrow> 'r \<Rightarrow> goerr \<Rightarrow> ('r \<Rightarrow> ('w, unit) serve) \<Rightarrow> ('w, unit) serve" where
  "read_into r fs z err k =
     attempt (lift (ReadAll r)) (\<lambda>e. rest_error (Combine ReadBody e)) (\<lambda>content.
     attempt (lift (unmarshal fs content z)) (\<lambda>e. rest_error (Combine err e)) k)"

section \<open>Global configuration\<close>

definition handleDebug :: "request \<Rightarrow> ('w, unit) serve" where
  "handleDebug r = answer (Header 404)"

definition handleGlobalUpload :: "('w, 'z) host_scheme \<Rightarrow> request \<Rightarrow> ('w, unit) serve" where
  "handleGlobalUpload c r =
     read_into r global_fields NewGlobalConfig UnmarshalGlobal (\<lambda>global.
     attempt (inner (cfg_PublishGlobal c global)) (\<lambda>e. rest_error (Combine PublishGlobal e)) ret)"

definition handleGlobal :: "('w, 'z) host_scheme \<Rightarrow> request \<Rightarrow> ('w, unit) serve" where
  "handleGlobal c r = reading srv_global (\<lambda>global. send_ignored c (render (global_json (Published global))))"

section \<open>Policies\<close>

definition handlePolicyUpload :: "('w, 'z) host_scheme \<Rightarrow> request \<Rightarrow> ('w, unit) serve" where
  "handlePolicyUpload c r =
     read_into r policy_fields NewPolicy UnmarshalPolicy (\<lambda>policy.
     attempt (inner (cfg_PublishPolicy c (route_var r ''policy'') policy)) (\<lambda>e. rest_error (Combine PublishPolicy e)) ret)"

definition handlePolicyDelete :: "('w, 'z) host_scheme \<Rightarrow> request \<Rightarrow> ('w, unit) serve" where
  "handlePolicyDelete c r =
     attempt (inner (cfg_DeletePolicy c (route_var r ''policy''))) (\<lambda>e. rest_error (Combine PublishGlobal e)) ret"

definition handlePolicyListRevisions :: "('w, 'z) host_scheme \<Rightarrow> request \<Rightarrow> ('w, unit) serve" where
  "handlePolicyListRevisions c r =
     attempt (inner (ListPolicyRevisions c (route_var r ''policy''))) (\<lambda>e. rest_error (Combine ListPolicyRevision e))
       (\<lambda>revisions. send_ignored c (render (strings_json revisions)))"

definition handlePolicyGetRevision :: "('w, 'z) host_scheme \<Rightarrow> request \<Rightarrow> ('w, unit) serve" where
  "handlePolicyGetRevision c r =
     attempt (inner (cfg_GetPolicyRevision c (route_var r ''policy'') (route_var r ''revision'')))
       (\<lambda>e. rest_error (Combine GetPolicyRevision e)) (send_ignored c)"

definition handlePolicyList :: "('w, 'z) host_scheme \<Rightarrow> request \<Rightarrow> ('w, unit) serve" where
  "handlePolicyList c r =
     attempt (inner (cfg_ListPolicies c)) (\<lambda>e. rest_error (Combine ListPolicy e))
       (\<lambda>policies. send_ignored c (render (JArr (map policy_json policies))))"

definition handlePolicy :: "('w, 'z) host_scheme \<Rightarrow> request \<Rightarrow> ('w, unit) serve" where
  "handlePolicy c r =
     attempt (inner (cfg_GetPolicy c (route_var r ''policy''))) (\<lambda>e. rest_error (Combine GetPolicy e))
       (\<lambda>policyObj. send_ignored c (render (policy_json policyObj)))"

section \<open>Uses and runtime parameters\<close>

definition handleUserEndpoints :: "('w, 'z) host_scheme \<Rightarrow> use \<Rightarrow> request \<Rightarrow> ('w, unit) serve" where
  "handleUserEndpoints c ul r =
     attempt (inner (GetUse c ul (zero_volume\<lparr>v_policy := route_var r ''policy'', v_name := route_var r ''volume''\<rparr>)))
       (\<lambda>e. rest_error (Combine GetMount e))
       (\<lambda>u. send_ignored c (render (use_json u)))"

definition handleUsesMountsVolume :: "('w, 'z) host_scheme \<Rightarrow> request \<Rightarrow> ('w, unit) serve" where
  "handleUsesMountsVolume c = handleUserEndpoints c (UseMount [] [] [])"

definition handleUsesMountsSnapshots :: "('w, 'z) host_scheme \<Rightarrow> request \<Rightarrow> ('w, unit) serve" where
  "handleUsesMountsSnapshots c = handleUserEndpoints c (UseSnapshot [] [])"

definition handleRuntime :: "('w, 'z) host_scheme \<Rightarrow> request \<Rightarrow> ('w, unit) serve" where
  "handleRuntime c r =
     attempt (inner (GetVolumeRuntime c (route_var r ''policy'') (route_var r ''volume''))) (\<lambda>e. rest_error (Combine GetVolume e))
       (\<lambda>runtime. send_ignored c (render (runtime_json runtime)))"

definition handleRuntimeUpload :: "('w, 'z) host_scheme \<Rightarrow> request \<Rightarrow> ('w, unit) serve" where
  "handleRuntimeUpload c r =
     attempt (inner (cfg_GetVolume c (route_var r ''policy'') (route_var r ''volume''))) (\<lambda>e. rest_error (Combine GetVolume e))
       (\<lambda>volume.
     read_into r runtime_fields zero_runtime UnmarshalRuntime (\<lambda>runtime.
     attempt (inner (PublishVolumeRuntime c volume runtime)) (\<lambda>e. rest_error (Combine PublishRuntime e)) ret))"

section \<open>Snapshots\<close>

definition with_snapshot_driver ::
  "('w, 'z) host_scheme \<Rightarrow> Volume \<Rightarrow> string \<Rightarrow> ('w SnapshotDriver \<Rightarrow> ('w, unit) serve) \<Rightarrow> ('w, unit) serve" where
  "with_snapshot_driver c volConfig txt k =
     (case v_backends volConfig of
        None \<Rightarrow> panic nil_deref
      | Some b \<Rightarrow>
          if bd_snapshot b = [] then rest_error (Combine SnapshotsUnsupported (Fresh txt))
          else attempt (lift (NewSnapshotDriver c (bd_snapshot b))) (\<lambda>e. rest_error (Combine GetDriver e)) k)"

definition handleSnapshotList :: "('w, 'z) host_scheme \<Rightarrow> request \<Rightarrow> ('w, unit) serve" where
  "handleSnapshotList c r =
     attempt (inner (cfg_GetVolume c (route_var r ''policy'') (route_var r ''volume''))) (\<lambda>e. rest_error (Combine GetVolume e))
       (\<lambda>volConfig.
     with_snapshot_driver c volConfig (Volume_String volConfig) (\<lambda>driver.
     reading srv_global (\<lambda>global.
     attempt (inner (sd_list driver (bare_options volConfig (g_timeout global)))) (\<lambda>e. rest_error (Combine ListSnapshots e))
       (\<lambda>results. send_ignored c (render (strings_json results))))))"

definition handleSnapshotTake :: "('w, 'z) host_scheme \<Rightarrow> request \<Rightarrow> ('w, unit) serve" where
  "handleSnapshotTake c r =
     attempt (inner (TakeSnapshot c (route_var r ''policy'' @ ''/'' @ route_var r ''volume'')))
       (\<lambda>e. rest_error (Combine SnapshotFailed e)) ret"

text \<open>
  \<open>handleCopy\<close>: the record of the new volume is published before its data is copied; nothing removes it
  when the copy fails.
\<close>

definition copy_locks :: "Volume \<Rightarrow> Volume \<Rightarrow> string \<Rightarrow> use list" where
  "copy_locks volConfig newVolConfig host =
     [UseMount (Volume_String newVolConfig) host ReasonCopy, UseSnapshot (Volume_String newVolConfig) ReasonCopy,
      UseSnapshot (Volume_String volConfig) ReasonCopy]"

definition copy_volume ::
  "('w, 'z) host_scheme \<Rightarrow> 'w SnapshotDriver \<Rightarrow> DriverOptions \<Rightarrow> string \<Rightarrow> Volume \<Rightarrow> ('w, goerr, unit) io" where
  "copy_volume c driver dopts snapshot newVolConfig =
     andThen (cfg_PublishVolume c newVolConfig) (\<lambda>_. sd_copy driver dopts snapshot (Volume_String newVolConfig))"

definition copy_locked ::
  "('w, 'z) host_scheme \<Rightarrow> VolumeRequest \<Rightarrow> 'w SnapshotDriver \<Rightarrow> Volume \<Rightarrow> Volume \<Rightarrow> ('w, unit) serve" where
  "copy_locked c req driver volConfig newVolConfig =
     reading srv_global (\<lambda>global.
     attempt (inner (h_hostname c)) (\<lambda>e. rest_error (Combine GetHostname e)) (\<lambda>host.
     if v_name volConfig = v_name newVolConfig
     then rest_error (Combine CannotCopyVolume (Fresh ''You cannot copy volume onto itself.''))
     else
       attempt (ExecuteWithMultiUseLock (srv_host c) (copy_locks volConfig newVolConfig host) (g_timeout global)
                  (inner (copy_volume c driver (bare_options volConfig (g_timeout global)) (option_of req ''snapshot'') newVolConfig)))
         (\<lambda>e. rest_error (Combine (Combine PublishVolume (Fresh ''Creating new volume'')) e))
         (\<lambda>_. send_ignored c (render (volume_json newVolConfig)))))"

definition handleCopy :: "('w, 'z) host_scheme \<Rightarrow> request \<Rightarrow> ('w, unit) serve" where
  "handleCopy c r =
     attempt (lift (unmarshalRequest r)) (\<lambda>e. rest_error (Combine UnmarshalRequest e)) (\<lambda>req.
     if \<not> has_option req ''snapshot'' then rest_error MissingSnapshotOption
     else if \<not> has_option req ''target'' then rest_error MissingTargetOption
     else if contains ''/'' (option_of req ''target'') then rest_error (Combine InvalidVolume (Fresh ''/''))
     else
       attempt (inner (cfg_GetVolume c (vr_policy req) (vr_name req))) (\<lambda>e. rest_error (Combine GetVolume e)) (\<lambda>volConfig.
       with_snapshot_driver c volConfig [] (\<lambda>driver.
       attempt (inner (cfg_GetVolume c (vr_policy req) (vr_name req))) (\<lambda>e. rest_error (Combine GetVolume e)) (\<lambda>newVol.
       copy_locked c req driver volConfig (newVol\<lparr>v_name := option_of req ''target''\<rparr>)))))"

section \<open>Listing and lookups\<close>

fun list_configs :: "('w, 'z) host_scheme \<Rightarrow> string list \<Rightarrow> Volume list \<Rightarrow> (Volume list \<Rightarrow> ('w, unit) serve) \<Rightarrow> ('w, unit) serve" where
  "list_configs c [] response k = k response"
| "list_configs c (vol # vols) response k =
     (case split2 CHR ''/'' vol of
        [policy, name] \<Rightarrow>
          attempt (inner (cfg_GetVolume c policy name)) (\<lambda>e. rest_error (Combine ListVolume e))
            (\<lambda>volConfig. list_configs c vols (response @ [volConfig]) k)
      | _ \<Rightarrow> rest_error (Combine InvalidVolume (Fresh vol)))"

text \<open>Both list every volume: the policy in the route of \<open>handleList\<close> is not looked at.\<close>

definition handleList :: "('w, 'z) host_scheme \<Rightarrow> request \<Rightarrow> ('w, unit) serve" where
  "handleList c r =
     attempt (inner (cfg_ListAllVolumes c)) (\<lambda>e. rest_error (Combine ListVolume e)) (\<lambda>vols.
     list_configs c vols [] (\<lambda>response. send_ignored c (render (JArr (map volume_json response)))))"

definition handleListAll :: "('w, 'z) host_scheme \<Rightarrow> request \<Rightarrow> ('w, unit) serve" where
  "handleListAll c r =
     attempt (inner (cfg_ListAllVolumes c)) (\<lambda>e. rest_error (Combine ListVolume e)) (\<lambda>vols.
     list_configs c vols [] (\<lambda>response. send_ignored c (render (JArr (map volume_json response)))))"

definition reply_volume :: "('w, 'z) host_scheme \<Rightarrow> string \<Rightarrow> string \<Rightarrow> ('w, unit) serve" where
  "reply_volume c policy name =
     attempt (inner (cfg_GetVolume c policy name))
       (\<lambda>err. if is_errored err \<and> Contains err NotExists then answer (Header 404) else rest_error (Combine GetVolume err))
       (\<lambda>volConfig. send_ignored c (render (volume_json volConfig)))"

definition handleGet :: "('w, 'z) host_scheme \<Rightarrow> request \<Rightarrow> ('w, unit) serve" where
  "handleGet c r = reply_volume c (route_var r ''policy'') (route_var r ''volume'')"

definition handleRequest :: "('w, 'z) host_scheme \<Rightarrow> request \<Rightarrow> ('w, unit) serve" where
  "handleRequest c r =
     attempt (lift (unmarshalRequest r)) (\<lambda>e. rest_error (Combine UnmarshalRequest e))
       (\<lambda>req. reply_volume c (vr_policy req) (vr_name req))"

section \<open>Removal\<close>

definition createRemoveLocks :: "('w, 'z) host_scheme \<Rightarrow> Volume \<Rightarrow> ('w, goerr, use list) io" where
  "createRemoveLocks c vc =
     attempt (h_hostname c) (\<lambda>e. fail (Combine GetHostname e)) (\<lambda>hostname.
       ret [UseMount (Volume_String vc) hostname ReasonRemove, UseSnapshot (Volume_String vc) ReasonRemove])"

definition srv_removeVolume :: "('w, 'z) host_scheme \<Rightarrow> VolumeRequest \<Rightarrow> Volume \<Rightarrow> ('w, goerr, unit) io" where
  "srv_removeVolume c req vc =
     attempt (cfg_RemoveVolume c (vr_policy req) (vr_name req))
       (\<lambda>e. fail (Combine (Combine ClearVolume (Fresh (Volume_String vc))) e)) ret"

text \<open>An image that cannot be removed is logged; the record goes all the same.\<close>

definition completeRemove :: "('w, 'z) host_scheme \<Rightarrow> Global \<Rightarrow> VolumeRequest \<Rightarrow> Volume \<Rightarrow> ('w, goerr, unit) io" where
  "completeRemove c global req vc =
     regardless (ctl_RemoveVolume c vc (g_timeout global)) (srv_removeVolume c req vc)"

definition removeVolumeUse :: "('w, 'z) host_scheme \<Rightarrow> use \<Rightarrow> Volume \<Rightarrow> ('w, goerr, unit) io" where
  "removeVolumeUse c u vc = regardless (RemoveUse c u True) (ret ())"

definition remove_error :: "Volume \<Rightarrow> goerr \<Rightarrow> goerr" where
  "remove_error vc e = Combine (Combine RemoveVolume (Fresh (Volume_String vc))) e"

definition handleForceRemoveLock ::
  "('w, 'z) host_scheme \<Rightarrow> Global \<Rightarrow> VolumeRequest \<Rightarrow> Volume \<Rightarrow> use list \<Rightarrow> ('w, goerr, unit) io" where
  "handleForceRemoveLock c global req vc locks =
     attempt (ctl_ExistsVolume c vc (g_timeout global))
       (\<lambda>err. if err \<noteq> NoActionTaken then fail (remove_error vc err)
              else andThen (completeRemove c global req vc) (\<lambda>_.
                   andThen (removeVolumeUse c (hd locks) vc) (\<lambda>_. fail (remove_error vc err))))
       (\<lambda>exists. if \<not> exists then regardless (srv_removeVolume c req vc) (fail (remove_error vc NotExists))
                 else attempt (completeRemove c global req vc) (\<lambda>_. fail (remove_error vc NotExists))
                        (\<lambda>_. removeVolumeUse c (hd locks) vc))"

text \<open>What is done under the locks of a removal.\<close>

definition remove_locked ::
  "('w, 'z) host_scheme \<Rightarrow> Global \<Rightarrow> int \<Rightarrow> VolumeRequest \<Rightarrow> Volume \<Rightarrow> ('w, goerr, unit) io" where
  "remove_locked c global timeout req vc =
     attempt (ctl_ExistsVolume c vc timeout)
       (\<lambda>err. if err \<noteq> NoActionTaken then fail err else completeRemove c global req vc)
       (\<lambda>exists. if \<not> exists then regardless (srv_removeVolume c req vc) (fail NotExists)
                 else completeRemove c global req vc)"

definition remove_timeout :: "Global \<Rightarrow> VolumeRequest \<Rightarrow> int res" where
  "remove_timeout global req =
     (if option_of req ''timeout'' = [] then Ok (g_timeout global)
      else (case ParseDuration (option_of req ''timeout'') of
          None \<Rightarrow> Err (Combine RemoveVolume (Plain ''time: invalid duration''))
        | Some t \<Rightarrow> Ok t))"

text \<open>After a forced removal the plain one is tried as well.\<close>

definition remove_volume :: "('w, 'z) host_scheme \<Rightarrow> Global \<Rightarrow> VolumeRequest \<Rightarrow> int \<Rightarrow> Volume \<Rightarrow> use list \<Rightarrow> ('w, unit) serve" where
  "remove_volume c global req timeout vc locks =
     attempt (if option_of req ''force'' = ''true'' then inner (handleForceRemoveLock c global req vc locks) else ret ())
       rest_error (\<lambda>_.
     attempt (ExecuteWithMultiUseLock (srv_host c) locks timeout (inner (remove_locked c global timeout req vc)))
       (\<lambda>err. if err = NotExists then answer (Header 404) else rest_error (remove_error vc err)) ret)"

definition handleRemove :: "('w, 'z) host_scheme \<Rightarrow> request \<Rightarrow> ('w, unit) serve" where
  "handleRemove c r =
     reading srv_global (\<lambda>global.
     attempt (lift (unmarshalRequest r)) (\<lambda>e. rest_error (Combine UnmarshalRequest e)) (\<lambda>req.
     attempt (lift (remove_timeout global req)) rest_error (\<lambda>timeout.
     attempt (inner (cfg_GetVolume c (vr_policy req) (vr_name req))) (\<lambda>e. rest_error (Combine GetVolume e)) (\<lambda>vc.
     attempt (inner (createRemoveLocks c vc)) rest_error (\<lambda>locks.
       remove_volume c global req timeout vc locks)))))"

definition handleRemoveForce :: "('w, 'z) host_scheme \<Rightarrow> request \<Rightarrow> ('w, unit) serve" where
  "handleRemoveForce c r =
     attempt (lift (unmarshalRequest r)) (\<lambda>e. rest_error (Combine UnmarshalRequest e)) (\<lambda>req.
     attempt (inner (cfg_RemoveVolume c (vr_policy req) (vr_name req)))
       (\<lambda>err. if err = NotExists then answer (Header 404)
              else rest_error (Combine (Combine RemoveVolume (Fresh (vr_policy req @ ''/'' @ vr_name req))) err)) ret)"

section \<open>Creation\<close>

text \<open>The label \<open>publish\<close>: \<open>errors.Exists\<close> is no failure, and it is what every failed write is reported as.\<close>

definition srv_publish :: "('w, 'z) host_scheme \<Rightarrow> Volume \<Rightarrow> ('w, unit) serve" where
  "srv_publish c volConfig =
     attempt (inner (cfg_PublishVolume c volConfig))
       (\<lambda>err. if err \<noteq> Exists then (if \<not> is_errored err then fail (Combine PublishVolume err) else fail err)
              else send_ignored c (render (volume_json volConfig)))
       (\<lambda>_. send_ignored c (render (volume_json volConfig)))"

definition srv_createVolume :: "('w, 'z) host_scheme \<Rightarrow> VolumeRequest \<Rightarrow> Policy \<Rightarrow> ('w, unit) serve" where
  "srv_createVolume c req policy =
     reading srv_global (\<lambda>global.
     andThen (inner (cfg_CreateVolume c req)) (\<lambda>volConfig.
     attempt (inner (ctl_CreateVolume c policy volConfig (g_timeout global)))
       (\<lambda>err. if err = NoActionTaken then srv_publish c volConfig else fail (Combine CreateVolume err))
       (\<lambda>dopts.
          attempt (inner (ctl_FormatVolume c volConfig dopts))
            (\<lambda>err. regardless (inner (ctl_RemoveVolume c volConfig (g_timeout global))) (fail (Combine FormatVolume err)))
            (\<lambda>_. srv_publish c volConfig))))"

definition srv_create_locks :: "VolumeRequest \<Rightarrow> string \<Rightarrow> use list" where
  "srv_create_locks req hostname =
     [UseMount (vr_policy req @ ''/'' @ vr_name req) hostname ReasonCreate,
      UseSnapshot (vr_policy req @ ''/'' @ vr_name req) ReasonCreate]"

definition handleCreate :: "('w, 'z) host_scheme \<Rightarrow> request \<Rightarrow> ('w, unit) serve" where
  "handleCreate c r =
     read_into r request_fields zero_request UnmarshalRequest (\<lambda>req.
     if vr_policy req = [] then rest_error (Combine GetPolicy (Fresh ''policy was blank''))
     else if vr_name req = [] then rest_error (Combine GetVolume (Fresh ''volume was blank''))
     else
       attempt (inner (h_hostname c)) (\<lambda>e. rest_error (Combine GetHostname e)) (\<lambda>hostname.
       attempt (inner (cfg_GetPolicy c (vr_policy req)))
         (\<lambda>e. rest_error (Combine GetPolicy (Combine (Fresh (vr_policy req)) e))) (\<lambda>policy.
       reading srv_global (\<lambda>global.
       attempt (ExecuteWithMultiUseLock (srv_host c) (srv_create_locks req hostname) (g_timeout global)
                  (srv_createVolume c req policy))
         (\<lambda>err. if err \<noteq> Exists then rest_error (Combine CreateVolume err) else ret ()) ret))))"

section \<open>The routes\<close>

definition postRouter :: "('w, 'z) host_scheme \<Rightarrow> (string \<times> (request \<Rightarrow> ('w, unit) serve)) list" where
  "postRouter c =
     [(''/global'', handleGlobalUpload c), (''/volumes/create'', handleCreate c), (''/volumes/copy'', handleCopy c),
      (''/volumes/request'', handleRequest c), (''/policies/{policy}'', handlePolicyUpload c),
      (''/runtime/{policy}/{volume}'', handleRuntimeUpload c), (''/snapshots/take/{policy}/{volume}'', handleSnapshotTake c)]"

definition deleteRouter :: "('w, 'z) host_scheme \<Rightarrow> (string \<times> (request \<Rightarrow> ('w, unit) serve)) list" where
  "deleteRouter c =
     [(''/volumes/remove'', handleRemove c), (''/volumes/removeforce'', handleRemoveForce c),
      (''/policies/{policy}'', handlePolicyDelete c)]"

definition getRouter :: "('w, 'z) host_scheme \<Rightarrow> (string \<times> (request \<Rightarrow> ('w, unit) serve)) list" where
  "getRouter c =
     [(''/global'', handleGlobal c), (''/policy-archives/{policy}'', handlePolicyListRevisions c),
      (''/policy-archives/{policy}/{revision}'', handlePolicyGetRevision c), (''/policies'', handlePolicyList c),
      (''/policies/{policy}'', handlePolicy c), (''/uses/mounts/{policy}/{volume}'', handleUsesMountsVolume c),
      (''/uses/snapshots/{policy}/{volume}'', handleUsesMountsSnapshots c), (''/volumes'', handleListAll c),
      (''/volumes/{policy}'', handleList c), (''/volumes/{policy}/{volume}'', handleGet c),
      (''/runtime/{policy}/{volume}'', handleRuntime c), (''/snapshots/{policy}/{volume}'', handleSnapshotList c)]"

text \<open>
  \<open>addRoute\<close>: a path with a trailing slash is an error; every other is registered with and without one.
  The handlers are wrapped in \<open>logHandler\<close>, the same as \<open>api.LogHandler\<close>.
\<close>

fun addRoute :: "bool \<Rightarrow> (string \<times> (request \<Rightarrow> 'h)) list \<Rightarrow> (string \<times> (request \<Rightarrow> 'h)) list \<Rightarrow> (string \<times> (request \<Rightarrow> 'h)) list res" where
  "addRoute debug [] r = Ok r"
| "addRoute debug ((path, f) # handlers) r =
     (if has_suffix ''/'' path then Err (Plain ''route path has trailing slash'')
      else addRoute debug handlers
        (r @ [(path, LogHandler path debug f), (path @ ''/'', LogHandler (path @ ''/'') debug f)]))"

end
