(* ===== verification/Api_Frame.thy ===== *)
theory Api_Frame imports Docker begin

text \<open>
  What the handlers of the plugin leave alone: the contract of the protocol's interface, which docker's
  implementation keeps, the frame of every handler, and the number of answers to a request.
\<close>

section \<open>The contract of the interface\<close>

text \<open>
  Writing an error is one answer and nothing else; any other reply is one answer when it succeeds and
  none when it does not.
\<close>

definition answers_error :: "('w, unit) handler \<Rightarrow> bool" where
  "answers_error m \<longleftrightarrow> (\<forall>s. \<exists>a. m s = (Ok (), s\<lparr>srv_answers := srv_answers s @ [a]\<rparr>))"

definition writes :: "('w, unit) handler \<Rightarrow> bool" where
  "writes m \<longleftrightarrow> (\<forall>s. \<exists>w. (\<exists>a. m s = (Ok (), s\<lparr>srv_world := w, srv_answers := srv_answers s @ [a]\<rparr>)) \<or>
     (\<exists>r. r \<noteq> Ok () \<and> m s = (r, s\<lparr>srv_world := w\<rparr>)))"

lemma writes_send: "writes (send c b)"
  unfolding writes_def
proof
  fix s :: "'a api"
  obtain r w where m: "h_write c b (srv_world s) = (r, w)" by force
  show "\<exists>w. (\<exists>a. send c b s = (Ok (), s\<lparr>srv_world := w, srv_answers := srv_answers s @ [a]\<rparr>)) \<or>
      (\<exists>r. r \<noteq> Ok () \<and> send c b s = (r, s\<lparr>srv_world := w\<rparr>))"
    by (rule exI [of _ w], cases r)
      (auto simp: send_def andThen_def attempt_def inner_def m answer_def)
qed

locale volplugin_contract =
  fixes vp :: "'w Volplugin"
  assumes error_once: "answers_error (vp_HTTPError vp e)"
    and create_writes: "writes (vp_WriteCreate vp vol)"
    and get_writes: "writes (vp_WriteGet vp n p)"
    and path_writes: "writes (vp_WritePath vp p)"
    and list_writes: "writes (vp_WriteList vp vs)"
    and mount_writes: "writes (vp_WriteMount vp p)"

interpretation docker: volplugin_contract "NewVolplugin c"
  by unfold_locales
    (auto simp: NewVolplugin_def docker_HTTPError_def answers_error_def docker_WriteCreate_def docker_WriteGet_def
      docker_WritePath_def docker_WriteList_def docker_WriteMount_def intro: writes_send)

section \<open>Frames\<close>

text \<open>The state of the API that is not the world, the configuration and the answers.\<close>

definition same_rest :: "'w api \<Rightarrow> 'w api \<Rightarrow> bool" where
  "same_rest s s' \<longleftrightarrow> a_hostname s' = a_hostname s \<and> a_counts s' = a_counts s \<and> a_mounts s' = a_mounts s \<and>
     a_stops s' = a_stops s \<and> a_gos s' = a_gos s"

lemma keeps_reading: "(\<And>v. keeps R (k v)) \<Longrightarrow> keeps R (reading f k)"
  by (simp add: keeps_def)

text \<open>A frame is a transitive relation that every call to the world and every answer keeps.\<close>

locale frame =
  fixes R :: "'w api \<Rightarrow> 'w api \<Rightarrow> bool"
  assumes trans: "R a b \<Longrightarrow> R b d \<Longrightarrow> R a d"
    and rest: "same_rest a b \<Longrightarrow> R a b"
begin

lemma refl: "R a a"
  by (rule rest) (simp add: same_rest_def)

lemma pure: "keeps R (ret x)" "keeps R (fail e)" "keeps R (panic p)" "keeps R (lift r)" "keeps R (Pair r)"
  by (simp_all add: keeps_def refl)

lemma world: "keeps R (inner m)"
  by (auto simp: keeps_def inner_def same_rest_def intro!: rest split: prod.splits)

lemma attempts: "keeps R m \<Longrightarrow> (\<And>e. keeps R (h e)) \<Longrightarrow> (\<And>x. keeps R (k x)) \<Longrightarrow> keeps R (attempt m h k)"
  using trans by (rule keeps_attempt)

lemma thens: "keeps R m \<Longrightarrow> (\<And>x. keeps R (k x)) \<Longrightarrow> keeps R (andThen m k)"
  unfolding andThen_def by (rule attempts) (simp_all only: pure)

lemma regardlesses: "keeps R m \<Longrightarrow> keeps R k \<Longrightarrow> keeps R (regardless m k)"
  unfolding regardless_def by (rule attempts)

lemma errors: "answers_error m \<Longrightarrow> keeps R m"
proof (rule keepsI)
  fix s r s'
  assume "answers_error m" "m s = (r, s')"
  then show "R s s'" unfolding answers_error_def by (auto simp: same_rest_def intro!: rest dest!: spec [of _ s])
qed

lemma replies: "writes m \<Longrightarrow> keeps R m"
proof (rule keepsI)
  fix s r s'
  assume "writes m" "m s = (r, s')"
  then show "R s s'" unfolding writes_def by (auto simp: same_rest_def intro!: rest dest!: spec [of _ s])
qed

lemmas steps = pure world attempts thens regardlesses keeps_reading

text \<open>Handlers that never touch the rest of the state.\<close>

lemma parameters: "keeps R (GetStorageParameters c uc)"
  unfolding GetStorageParameters_def by (auto intro!: steps split: option.splits)

lemma get: "keeps R (api_get c n)"
  unfolding api_get_def by (auto intro!: steps parameters split: prod.splits)

end

text \<open>The handlers that keep every frame.\<close>

locale api_frame = volplugin_contract vp + frame R
  for vp :: "'w Volplugin" and R :: "'w api \<Rightarrow> 'w api \<Rightarrow> bool"
begin

lemma protocol:
  "keeps R (vp_HTTPError vp e)" "keeps R (vp_WriteCreate vp vol)" "keeps R (vp_WriteGet vp n p)"
  "keeps R (vp_WritePath vp p)" "keeps R (vp_WriteList vp vs)" "keeps R (vp_WriteMount vp p)" "keeps R (reply_mount vp p)"
  unfolding reply_mount_def
  by (auto intro!: steps errors [OF error_once] replies [OF create_writes] replies [OF get_writes] replies [OF path_writes]
      replies [OF list_writes] replies [OF mount_writes])

lemma path_error: "keeps R (writePathError c vp e)"
  unfolding writePathError_def send_ignored_def by (auto intro!: steps protocol replies [OF writes_send])

lemma published: "keeps R (publish_created c vp v)"
  unfolding publish_created_def by (auto intro!: steps protocol)

lemma create: "keeps R (api_Create c vp r)"
  unfolding api_Create_def create_locked_def api_createVolume_def srv_MultiUseLock
  by (auto intro!: steps protocol published)

lemma lookups: "keeps R (api_Path c vp r)" "keeps R (api_Get c vp r)" "keeps R (api_List c vp r)"
  unfolding api_Path_def api_Get_def api_List_def by (auto intro!: steps protocol path_error get)

lemma clear: "keeps R (clearMount c vp ms)"
  unfolding clearMount_def by (auto intro!: steps protocol)

lemma hold: "keeps R (hold_use c v u)"
  unfolding hold_use_def by (auto intro!: steps)

end

interpretation rest: api_frame "NewVolplugin c" same_rest
  by unfold_locales (auto simp: same_rest_def)

section \<open>The counters\<close>

definition same_counts :: "'w api \<Rightarrow> 'w api \<Rightarrow> bool" where
  "same_counts s s' \<longleftrightarrow> a_counts s' = a_counts s"

interpretation counts: api_frame "NewVolplugin c" same_counts
  by unfold_locales (auto simp: same_counts_def same_rest_def)

lemma stop_signal_counts [simp]: "a_counts (stop_signal i s) = a_counts s"
  by (simp add: stop_signal_def)

lemma counts_state:
  "keeps same_counts (collection_Add mc)" "keeps same_counts (collection_Remove v)"
  "keeps same_counts (AddStopChan v i)" "keeps same_counts (RemoveStopChan v)"
  by (auto simp: keeps_def same_counts_def collection_Add_def collection_Remove_def AddStopChan_def RemoveStopChan_def Let_def
      split: option.splits)

lemma counts_refresh: "keeps same_counts (startTTLRefresh c v)"
  unfolding startTTLRefresh_def start_refresh_def
  by (auto intro!: counts.steps counts_state) (simp add: keeps_def same_counts_def)

lemma counts_mount_first: "keeps same_counts (mount_first c (NewVolplugin d) driver v opts ut)"
  unfolding mount_first_def Let_def
  by (auto intro!: counts.steps counts.clear counts.protocol counts_state counts_refresh)

text \<open>A count has moved by \<open>d\<close> for at most one volume.\<close>

definition moved :: "int \<Rightarrow> 'w api \<Rightarrow> 'w api \<Rightarrow> bool" where
  "moved d s s' \<longleftrightarrow> a_counts s' = a_counts s \<or> (\<exists>v. a_counts s' = (a_counts s)(v := a_counts s v + d))"

lemma moved_same: "same_counts a b \<Longrightarrow> moved d a b"
  by (simp add: moved_def same_counts_def)

lemma moved_around: "same_counts a b \<Longrightarrow> moved d b b' \<Longrightarrow> same_counts b' e \<Longrightarrow> moved d a e"
  by (simp add: moved_def same_counts_def)

text \<open>A call that moves a count between calls that do not.\<close>

lemma moves_before:
  assumes "keeps same_counts m" "\<And>e. keeps (moved d) (h e)" "\<And>x. keeps (moved d) (k x)"
  shows "keeps (moved d) (attempt m h k)"
proof (rule keepsI)
  fix s r s'
  assume run: "attempt m h k s = (r, s')"
  obtain q s1 where m: "m s = (q, s1)" by force
  have one: "same_counts s s1" by (rule keepsD [OF assms(1) m])
  have two: "moved d s1 s'"
  proof (cases q)
    case (Ok x)
    then show ?thesis using run m keepsD [OF assms(3), of x s1] by simp
  next
    case (Err e)
    then show ?thesis using run m keepsD [OF assms(2), of e s1] by simp
  qed (use run m in \<open>simp_all add: moved_def\<close>)
  show "moved d s s'" using one two by (simp add: moved_def same_counts_def)
qed

lemma moves_after:
  assumes "keeps (moved d) m" "\<And>e. keeps same_counts (h e)" "\<And>x. keeps same_counts (k x)"
  shows "keeps (moved d) (attempt m h k)"
proof (rule keepsI)
  fix s r s'
  assume run: "attempt m h k s = (r, s')"
  obtain q s1 where m: "m s = (q, s1)" by force
  have one: "moved d s s1" by (rule keepsD [OF assms(1) m])
  show "moved d s s'"
    using run m one keepsD [OF assms(2)] keepsD [OF assms(3)]
    by (cases q) (force simp: moved_def same_counts_def)+
qed

lemma moves_counter: "keeps (moved 1) (counter_Add v)" "keeps (moved (- 1)) (counter_Sub v)"
  by (auto simp: keeps_def moved_def counter_Sub_def Let_def)

lemma moves_none: "keeps same_counts m \<Longrightarrow> keeps (moved d) m"
  by (simp add: keeps_def moved_same)

lemma andThen_attempt: "andThen m k = attempt m fail k"
  by (rule andThen_def)

text \<open>The counter is moved once, nothing after it moves a counter.\<close>

lemma moves_then:
  assumes "\<And>n. keeps same_counts (k n)"
  shows "keeps (moved 1) (andThen (counter_Add v) k)" "keeps (moved (- 1)) (andThen (counter_Sub v) k)"
  unfolding andThen_attempt by (rule moves_after, rule moves_counter, auto intro: counts.pure assms)+

lemma moves_Mount: "keeps (moved 1) (api_Mount c (NewVolplugin d) r)"
  unfolding api_Mount_def mount_volume_def Let_def
  by (auto intro!: moves_before moves_then moves_none [OF counts.protocol(1)] counts.pure counts.parameters counts.hold
      keeps_reading counts.steps counts.protocol counts_mount_first)

lemma moves_Unmount: "keeps (moved (- 1)) (api_Unmount c (NewVolplugin d) r)"
  unfolding api_Unmount_def unmount_volume_def Let_def
  by (auto intro!: moves_before moves_then moves_none [OF counts.protocol(1)] counts.pure counts.parameters counts.hold
      keeps_reading counts.steps counts.protocol counts_state)

end
