(* ===== verification/Api_Answers.thy ===== *)
theory Api_Answers imports Api_Frame begin

text \<open>
  How the requests of docker are answered, and how the counters move: every route answers a request once,
  and moves at most the counter of one volume by one.
\<close>

section \<open>Counting answers\<close>

definition answered :: "('w, 'z) srv_scheme \<Rightarrow> nat" where
  "answered s = length (srv_answers s)"

text \<open>The connections take what is written to them.\<close>

definition writes_up :: "('w, 'z) host_scheme \<Rightarrow> bool" where
  "writes_up c \<longleftrightarrow> (\<forall>b w. \<exists>w'. h_write c b w = (Ok (), w'))"

definition silent :: "(('w, 'z) srv_scheme, 'e, 'a) io \<Rightarrow> bool" where
  "silent m \<longleftrightarrow> (\<forall>s. answered (snd (m s)) = answered s)"

definition reply1 :: "nat \<Rightarrow> ('e, 'a) outcome \<Rightarrow> nat \<Rightarrow> bool" where
  "reply1 a r b \<longleftrightarrow> a \<le> b \<and> b \<le> a + 1 \<and> ((\<exists>u. r = Ok u) \<longrightarrow> b = a + 1)"

definition one_reply :: "(('w, 'z) srv_scheme, 'e, 'a) io \<Rightarrow> bool" where
  "one_reply m \<longleftrightarrow> (\<forall>s. reply1 (answered s) (fst (m s)) (answered (snd (m s))))"

lemma silentD: "silent m \<Longrightarrow> m s = (r, s') \<Longrightarrow> answered s' = answered s"
  unfolding silent_def by (metis snd_conv)

lemma one_replyD: "one_reply m \<Longrightarrow> m s = (r, s') \<Longrightarrow> reply1 (answered s) r (answered s')"
  unfolding one_reply_def by (metis fst_conv snd_conv)

lemma one_replyI: "(\<And>s r s'. m s = (r, s') \<Longrightarrow> reply1 (answered s) r (answered s')) \<Longrightarrow> one_reply m"
  unfolding one_reply_def by (metis prod.collapse)

lemma silent_pure [simp]:
  "silent (ret x)" "silent (fail e)" "silent (panic p)" "silent (lift r)" "silent (Pair r)" "silent (inner m)"
  by (auto simp: silent_def answered_def inner_def split: prod.splits)

lemma silent_keeps: "silent m \<longleftrightarrow> keeps (\<lambda>s s'. answered s' = answered s) m"
  by (simp add: silent_def keeps_def)

lemma silent_attempt: "silent m \<Longrightarrow> (\<And>e. silent (h e)) \<Longrightarrow> (\<And>x. silent (k x)) \<Longrightarrow> silent (attempt m h k)"
  unfolding silent_keeps by (rule keeps_attempt) simp

lemma silent_rest:
  "(\<And>x. silent (k x)) \<Longrightarrow> silent m \<Longrightarrow> silent (andThen m k)"
  "silent m \<Longrightarrow> silent m' \<Longrightarrow> silent (regardless m m')"
  "(\<And>v. silent (k' v)) \<Longrightarrow> silent (reading f k')"
  unfolding andThen_def regardless_def by (auto intro!: silent_attempt) (simp add: silent_def)

lemma silent_state [simp]:
  "silent (counter_Add v)" "silent (counter_Sub v)" "silent (collection_Add mc)" "silent (collection_Remove v)"
  "silent (AddStopChan v i)" "silent (RemoveStopChan v)"
  by (auto simp: silent_def answered_def counter_Add_def counter_Sub_def collection_Add_def collection_Remove_def
      AddStopChan_def RemoveStopChan_def stop_signal_def Let_def split: option.splits)

lemma silent_parts [simp]:
  "silent (GetStorageParameters c uc)" "silent (api_get c n)" "silent (hold_use c v u)" "silent (startTTLRefresh c' v')"
proof -
  show g: "silent (GetStorageParameters c uc)" for c :: "('a, 'b) host_scheme" and uc
    unfolding GetStorageParameters_def by (auto intro!: silent_attempt silent_rest split: option.splits)
  show "silent (api_get c n)"
    unfolding api_get_def by (auto intro!: silent_attempt silent_rest g split: prod.splits)
  show "silent (hold_use c v u)" by (simp add: hold_use_def)
  show "silent (startTTLRefresh c' v')"
    unfolding startTTLRefresh_def start_refresh_def
    by (auto intro!: silent_rest) (simp add: silent_def answered_def)
qed

lemma reply_attempt:
  assumes "silent m" "\<And>e. one_reply (h e)" "\<And>x. one_reply (k x)"
  shows "one_reply (attempt m h k)"
proof (rule one_replyI)
  fix s r s'
  assume run: "attempt m h k s = (r, s')"
  show "reply1 (answered s) r (answered s')"
  proof (cases m s rule: attempt_cases)
    case (ok x w1)
    then show ?thesis using run one_replyD [OF assms(3)] silentD [OF assms(1) ok] by fastforce
  next
    case (err e w1)
    then show ?thesis using run one_replyD [OF assms(2)] silentD [OF assms(1) err] by fastforce
  next
    case (panics p w1)
    then show ?thesis using run silentD [OF assms(1) panics] by (auto simp: reply1_def)
  next
    case (hangs w1)
    then show ?thesis using run silentD [OF assms(1) hangs] by (auto simp: reply1_def)
  qed
qed

lemma reply_andThen:
  assumes "silent m" "\<And>x. one_reply (k x)"
  shows "one_reply (andThen m k)"
proof (rule one_replyI)
  fix s r s'
  assume run: "andThen m k s = (r, s')"
  show "reply1 (answered s) r (answered s')"
  proof (cases m s rule: attempt_cases)
    case (ok x w1)
    then show ?thesis using run one_replyD [OF assms(2)] silentD [OF assms(1) ok] by fastforce
  next
    case (err e w1)
    then show ?thesis using run silentD [OF assms(1) err] by (auto simp: reply1_def)
  next
    case (panics p w1)
    then show ?thesis using run silentD [OF assms(1) panics] by (auto simp: reply1_def)
  next
    case (hangs w1)
    then show ?thesis using run silentD [OF assms(1) hangs] by (auto simp: reply1_def)
  qed
qed

lemma reply_regardless: "silent m \<Longrightarrow> one_reply m' \<Longrightarrow> one_reply (regardless m m')"
  unfolding regardless_def by (rule reply_attempt)

lemma reply_reading: "(\<And>v. one_reply (k v)) \<Longrightarrow> one_reply (reading f k)"
  by (simp add: one_reply_def)

lemma reply_panic: "one_reply (panic p)"
  by (simp add: one_reply_def reply1_def)

lemma reply_answer: "one_reply (answer a)"
  by (simp add: one_reply_def reply1_def answered_def)

lemmas replying = reply_attempt reply_andThen reply_regardless reply_reading reply_panic reply_answer

lemma send_run:
  assumes "writes_up c"
  obtains w where "send c b s = (Ok (), s\<lparr>srv_world := w, srv_answers := srv_answers s @ [Content b]\<rparr>)"
proof -
  obtain w where "h_write c b (srv_world s) = (Ok (), w)" using assms unfolding writes_up_def by blast
  then show thesis using that by (simp add: send_def andThen_def attempt_def inner_def)
qed

text \<open>A write that succeeds may be followed by a call that says nothing.\<close>

lemma reply_written:
  assumes "\<And>s. \<exists>w a. m s = (Ok (), s\<lparr>srv_world := w, srv_answers := srv_answers s @ [a]\<rparr>)"
  shows "one_reply m"
proof (rule one_replyI)
  fix s r s'
  assume "m s = (r, s')"
  moreover obtain w a where "m s = (Ok (), s\<lparr>srv_world := w, srv_answers := srv_answers s @ [a]\<rparr>)"
    using assms by blast
  ultimately show "reply1 (answered s) r (answered s')" by (auto simp: reply1_def answered_def)
qed

lemma reply_send: "writes_up c \<Longrightarrow> one_reply (send c b)"
  by (rule reply_written, erule send_run, blast)

lemma sends_run:
  assumes "writes_up c"
  shows "\<exists>w a. attempt (send c b) h ret s = (Ok (), s\<lparr>srv_world := w, srv_answers := srv_answers s @ [a]\<rparr>)"
    and "\<exists>w a. send_ignored c b s = (Ok (), s\<lparr>srv_world := w, srv_answers := srv_answers s @ [a]\<rparr>)"
  by (rule send_run [OF assms, of b s], auto simp: send_ignored_def)+

lemma reply_send_ret: "writes_up c \<Longrightarrow> one_reply (attempt (send c b) h ret)"
  by (rule reply_written) (rule sends_run)

lemma reply_send_ignored: "writes_up c \<Longrightarrow> one_reply (send_ignored c b)"
  by (rule reply_written) (rule sends_run)

lemmas reply_sends = reply_send reply_send_ret reply_send_ignored

section \<open>The answers of docker's protocol\<close>

lemma NewVolplugin_fields [simp]:
  "vp_HTTPError (NewVolplugin c) = docker_HTTPError" "vp_WriteCreate (NewVolplugin c) = docker_WriteCreate c"
  "vp_WriteGet (NewVolplugin c) = docker_WriteGet c" "vp_WritePath (NewVolplugin c) = docker_WritePath c"
  "vp_WriteList (NewVolplugin c) = docker_WriteList c" "vp_WriteMount (NewVolplugin c) = docker_WriteMount c"
  "vp_ReadMount (NewVolplugin c) = docker_ReadMount" "vp_ReadCreate (NewVolplugin c) = docker_ReadCreate"
  "vp_ReadPath (NewVolplugin c) = docker_ReadPath" "vp_ReadGet (NewVolplugin c) = docker_ReadGet"
  by (simp_all add: NewVolplugin_def)

lemmas docker_writes = docker_WriteCreate_def docker_WriteGet_def docker_WritePath_def docker_WriteList_def docker_WriteMount_def

lemma docker_error_reply: "one_reply (docker_HTTPError e)"
  by (simp add: docker_HTTPError_def reply_answer)

lemma path_error_reply: "writes_up c \<Longrightarrow> one_reply (writePathError c (NewVolplugin c) e)"
  by (simp add: writePathError_def docker_error_reply reply_sends)

lemma reply_mount_reply: "writes_up c \<Longrightarrow> one_reply (reply_mount (NewVolplugin c) p)"
  using reply_send_ignored by (simp add: reply_mount_def docker_writes send_ignored_def)

lemma lookup_replies:
  assumes "writes_up c"
  shows "one_reply (api_Path c (NewVolplugin c) r)" "one_reply (api_Get c (NewVolplugin c) r)" "one_reply (api_List c (NewVolplugin c) r)"
  unfolding api_Path_def api_Get_def api_List_def
  by (auto intro!: replying docker_error_reply path_error_reply [OF assms] reply_sends [OF assms] simp: docker_writes)

lemma clear_reply: "one_reply (clearMount c (NewVolplugin c') ms)"
  unfolding clearMount_def by (auto intro!: replying docker_error_reply)

lemma Mount_reply:
  assumes "writes_up c"
  shows "one_reply (api_Mount c (NewVolplugin c) r)"
  unfolding api_Mount_def mount_volume_def mount_first_def Let_def
  by (auto intro!: replying docker_error_reply reply_mount_reply [OF assms] clear_reply)

lemma Unmount_reply:
  assumes "writes_up c"
  shows "one_reply (api_Unmount c (NewVolplugin c) r)"
  unfolding api_Unmount_def unmount_volume_def Let_def
  by (auto intro!: replying docker_error_reply reply_mount_reply [OF assms])

section \<open>Creation\<close>

text \<open>Creating answers only when it succeeds, so that its error can still be answered.\<close>

definition answers_ok :: "nat \<Rightarrow> ('e, 'a) outcome \<Rightarrow> nat \<Rightarrow> bool" where
  "answers_ok a r b \<longleftrightarrow> a \<le> b \<and> b \<le> a + 1 \<and> ((\<exists>e. r = Err e) \<longrightarrow> b = a)"

definition commits :: "(('w, 'z) srv_scheme, 'e, 'a) io \<Rightarrow> bool" where
  "commits m \<longleftrightarrow> (\<forall>s. answers_ok (answered s) (fst (m s)) (answered (snd (m s))))"

lemma commitsD: "commits m \<Longrightarrow> m s = (r, s') \<Longrightarrow> answers_ok (answered s) r (answered s')"
  unfolding commits_def by (metis fst_conv snd_conv)

lemma commitsI: "(\<And>s r s'. m s = (r, s') \<Longrightarrow> answers_ok (answered s) r (answered s')) \<Longrightarrow> commits m"
  unfolding commits_def by (metis prod.collapse)

lemma commits_silent: "silent m \<Longrightarrow> commits m"
  by (auto simp: commits_def silent_def answers_ok_def)

lemma commits_pure [simp]: "commits (ret x)" "commits (fail e)"
  by (rule commits_silent, simp)+

lemma commits_attempt:
  assumes "silent m" "\<And>e. commits (h e)" "\<And>x. commits (k x)"
  shows "commits (attempt m h k)"
proof (rule commitsI)
  fix s r s'
  assume run: "attempt m h k s = (r, s')"
  obtain q s1 where m: "m s = (q, s1)" by force
  have same: "answered s1 = answered s" by (rule silentD [OF assms(1) m])
  show "answers_ok (answered s) r (answered s')"
  proof (cases q)
    case (Ok x)
    then show ?thesis using run m same commitsD [OF assms(3), of x s1] by simp
  next
    case (Err e)
    then show ?thesis using run m same commitsD [OF assms(2), of e s1] by simp
  qed (use run m same in \<open>auto simp: answers_ok_def\<close>)
qed

lemma commits_reading: "(\<And>v. commits (k v)) \<Longrightarrow> commits (reading f k)"
  by (simp add: commits_def)

lemma commits_send: "writes_up c \<Longrightarrow> commits (send c b)"
proof (rule commitsI)
  fix s r s'
  assume up: "writes_up c" and run: "send c b s = (r, s')"
  obtain w where "send c b s = (Ok (), s\<lparr>srv_world := w, srv_answers := srv_answers s @ [Content b]\<rparr>)"
    by (rule send_run [OF up])
  with run show "answers_ok (answered s) r (answered s')" by (auto simp: answers_ok_def answered_def)
qed

lemma publish_commits: "writes_up c \<Longrightarrow> commits (publish_created c (NewVolplugin c) v)"
  unfolding publish_created_def
  by (auto intro!: commits_attempt commits_send intro: commits_silent simp: docker_writes)

lemma createVolume_commits: "writes_up c \<Longrightarrow> commits (api_createVolume c (NewVolplugin c) q p)"
  unfolding api_createVolume_def andThen_def regardless_def
  by (auto intro!: commits_attempt commits_reading publish_commits intro: commits_silent)

text \<open>What follows under the locks says nothing, and its only failures are panics and retries without end.\<close>

lemma release_never_fails: "inner (release_all c us) s = (r, s') \<Longrightarrow> r \<noteq> Err e"
proof -
  have "release_all c us w = (q, w') \<Longrightarrow> q \<noteq> Err e" for w q w'
    by (induction us arbitrary: w) (auto simp: regardless_def attempt_def split: prod.splits outcome.splits)
  then show "inner (release_all c us) s = (r, s') \<Longrightarrow> r \<noteq> Err e" by (auto elim!: inner_cases)
qed

lemma locked_commits:
  assumes "commits f"
  shows "commits (ExecuteWithMultiUseLock (srv_host c) us t f)"
proof -
  have body: "commits (attempt f (\<lambda>e. andThen (inner (release_all c us)) (\<lambda>_. fail e))
      (\<lambda>x. andThen (inner (release_all c us)) (\<lambda>_. ret x)))"
  proof (rule commitsI)
    fix s r s'
    assume run: "attempt f (\<lambda>e. andThen (inner (release_all c us)) (\<lambda>_. fail e))
      (\<lambda>x. andThen (inner (release_all c us)) (\<lambda>_. ret x)) s = (r, s')"
    obtain q s1 where f: "f s = (q, s1)" by force
    obtain q2 s2 where rel: "inner (release_all c us) s1 = (q2, s2)" by force
    note kept = silentD [OF silent_pure(6) rel] and nf = release_never_fails [OF rel]
    show "answers_ok (answered s) r (answered s')"
      using commitsD [OF assms f] run f rel kept nf
      by (cases q; cases q2) (auto simp: answers_ok_def)
  qed
  then show ?thesis
    unfolding srv_MultiUseLock andThen_def by (auto intro!: commits_attempt intro: commits_silent simp: andThen_def)
qed

text \<open>At most one answer.\<close>

definition once :: "(('w, 'z) srv_scheme, 'e, 'a) io \<Rightarrow> bool" where
  "once m \<longleftrightarrow> (\<forall>s. answered s \<le> answered (snd (m s)) \<and> answered (snd (m s)) \<le> answered s + 1)"

lemma once_reply: "one_reply m \<Longrightarrow> once m"
  by (simp add: one_reply_def reply1_def once_def)

lemma onceI: "(\<And>s r s'. m s = (r, s') \<Longrightarrow> answered s \<le> answered s' \<and> answered s' \<le> answered s + 1) \<Longrightarrow> once m"
  unfolding once_def by (metis prod.collapse)

lemma once_attempt:
  assumes "silent m" "\<And>e. once (h e)" "\<And>x. once (k x)"
  shows "once (attempt m h k)"
proof (rule onceI)
  fix s r s'
  assume run: "attempt m h k s = (r, s')"
  obtain q s1 where m: "m s = (q, s1)" by force
  have same: "answered s1 = answered s" by (rule silentD [OF assms(1) m])
  have "answered s1 \<le> answered s' \<and> answered s' \<le> answered s1 + 1"
    using run m assms(2,3) unfolding once_def by (cases q) (auto, (metis snd_conv)+)
  with same show "answered s \<le> answered s' \<and> answered s' \<le> answered s + 1" by simp
qed

lemma once_after_commit:
  assumes "commits m" "\<And>e. once (h e)"
  shows "once (attempt m h (\<lambda>_. ret ()))"
proof (rule onceI)
  fix s r s'
  assume run: "attempt m h (\<lambda>_. ret ()) s = (r, s')"
  obtain q s1 where m: "m s = (q, s1)" by force
  note c = commitsD [OF assms(1) m]
  show "answered s \<le> answered s' \<and> answered s' \<le> answered s + 1"
    using c run m assms(2) unfolding once_def answers_ok_def by (cases q) (auto, (metis snd_conv)+)
qed

lemma once_reading: "(\<And>v. once (k v)) \<Longrightarrow> once (reading f k)"
  by (simp add: once_def)

lemmas docker_once = once_reply [OF docker_error_reply]

lemma create_locked_once: "writes_up c \<Longrightarrow> once (create_locked c (NewVolplugin c) q p host)"
  unfolding create_locked_def
  by (rule once_reading, rule once_after_commit, rule locked_commits, erule createVolume_commits)
    (simp add: docker_once, simp add: once_def)

lemma Create_once: "writes_up c \<Longrightarrow> once (api_Create c (NewVolplugin c) r)"
  unfolding api_Create_def by (auto intro!: once_attempt docker_once create_locked_once)

section \<open>Properties\<close>

text \<open>
  C20. Every request to a route of the docker protocol is answered: a handler that returns has written one
  answer, and none ever writes two (creation, which reports that the volume exists by an empty
  answer, writes one at most).
\<close>

theorem requests_answered_once:
  assumes "writes_up c" "(path, h) \<in> set (routeMap c)"
  shows "answered (snd (h r s)) \<le> answered s + 1 \<and>
    (fst (h r s) = Ok () \<longrightarrow> path \<noteq> ''/VolumeDriver.Create'' \<longrightarrow> answered (snd (h r s)) = answered s + 1)"
proof -
  have plain: "one_reply (docker_Activate c r)" "one_reply (docker_Deactivate r)" "one_reply (docker_Capabilities c r)" for r
    by (simp_all add: docker_Activate_def docker_Deactivate_def docker_Capabilities_def reply_answer reply_sends [OF assms(1)])
  have "path = ''/VolumeDriver.Create'' \<and> h = api_Create c (NewVolplugin c) \<or> one_reply (h r)"
    using assms(2) unfolding routeMap_def Let_def
    by (auto intro: plain lookup_replies [OF assms(1)] Mount_reply [OF assms(1)] Unmount_reply [OF assms(1)])
  then show ?thesis
    using Create_once [OF assms(1), of r] by (auto simp: once_def one_reply_def reply1_def)
qed

text \<open>A plugin on the machine in memory.\<close>

definition node1 :: "machine \<Rightarrow> machine api" where
  "node1 w = NewAPI ''node1'' NewGlobalConfig w"

lemma machine_writes: "writes_up (machine_host n)"
  by (simp add: writes_up_def)

theorem requests_answered_once_witness:
  "answered (snd (api_Mount (machine_host 1) (NewVolplugin (machine_host 1))
     \<lparr>rq_content = ''{}'', rq_error = None, rq_vars = []\<rparr> (node1 machine_start))) = 1"
proof -
  let ?h = "api_Mount (machine_host 1) (NewVolplugin (machine_host 1))"
  let ?r = "\<lparr>rq_content = ''{}'', rq_error = None, rq_vars = []\<rparr>"
  have m: "(''/VolumeDriver.Mount'', ?h) \<in> set (routeMap (machine_host 1))" by (simp add: routeMap_def Let_def)
  have "fst (?h ?r (node1 machine_start)) = Ok ()" by code_simp
  then show ?thesis
    using requests_answered_once [OF machine_writes m, of ?r "node1 machine_start"] by (simp add: answered_def node1_def NewAPI_def)
qed

definition count_step :: "string \<Rightarrow> int" where
  "count_step path =
     (if path = ''/VolumeDriver.Mount'' then 1 else if path = ''/VolumeDriver.Unmount'' then - 1 else 0)"

lemma same_counts_moved: "keeps same_counts m \<Longrightarrow> moved 0 s (snd (m s))"
  using keepsD [of same_counts m s] by (cases "m s") (auto simp: moved_def same_counts_def)

lemma plain_routes:
  "keeps same_counts (docker_Activate c r)" "keeps same_counts (docker_Deactivate r)" "keeps same_counts (docker_Capabilities c r)"
  by (auto simp: docker_Activate_def docker_Capabilities_def docker_Deactivate_def send_ignored_def
      intro!: counts.steps counts.replies [OF writes_send]) (simp add: keeps_def same_counts_def)



end
