(* ===== verification/Apiserver_Props.thy ===== *)
theory Apiserver_Props imports Apiserver Lock_System Api_Answers begin

text \<open>
  Properties of the management API: a volume in use elsewhere is not removed, what is answered when a record
  could not be published, what a failed copy leaves, and the global configuration through its handlers.
\<close>

section \<open>A lock that stays taken\<close>

lemma rest_error_run: "rest_error e s = (Ok (), s\<lparr>srv_answers := srv_answers s @ [HttpError 500 (error_text e)]\<rparr>)"
  by (simp add: rest_error_def)

context lock_store begin

text \<open>While nobody else acts, the retries for a taken lock end without it and leave the store alone.\<close>

lemma retry_refused:
  assumes "\<And>w d. fval (h_sleep c d w) = fval w" "x \<noteq> use_text u" "0 \<le> timeout"
    and "retry_lock n c (PublishUse c u) timeout now w = (r, w')" "fval w (lock_key c u) = Some x" "now \<le> clk w"
  shows "fval w' = fval w \<and> (\<forall>y. r \<noteq> Ok y)"
  using assms(4-6)
proof (induction n arbitrary: w)
  case 0
  then show ?case by auto
next
  case (Suc n)
  obtain q w1 where p: "PublishUse c u w = (q, w1)" by force
  from publish_other [OF p Suc.prems(2) assms(2)] obtain e where w1: "fval w1 = fval w" "q = Err e" by auto
  have now: "now \<le> clk w1" using pub.call_time [OF p] Suc.prems(3) by simp
  let ?w2 = "h_sleep c (100 * millisecond) w1"
  have later: "now \<le> clk ?w2" using sleep_moves [of w1 "100 * millisecond"] now by (simp add: millisecond_def)
  have x: "fval ?w2 (lock_key c u) = Some x" using Suc.prems(2) w1(1) by (simp add: assms(1))
  show ?case
  proof (cases "timeout \<noteq> 0 \<and> clk w1 - now < timeout")
    case True
    then have "retry_lock n c (PublishUse c u) timeout now ?w2 = (r, w')"
      using Suc.prems(1) p w1(2) pub.lockWait_run [OF now, of timeout] assms(3) by simp
    from Suc.IH [OF this x later] show ?thesis using w1(1) by (simp add: assms(1))
  next
    case False
    then have "r = Err LockFailed" "w' = w1"
      using Suc.prems(1) p w1(2) pub.lockWait_run [OF now, of timeout] assms(3) by auto
    then show ?thesis using w1(1) by simp
  qed
qed

lemma acquire_refused:
  assumes "\<And>w d. fval (h_sleep c d w) = fval w" "x \<noteq> use_text u" "0 \<le> timeout"
    and "timeout \<le> (int (h_fuel c) - 1) * (100 * millisecond)" "0 < h_fuel c" "fval w (lock_key c u) = Some x"
  shows "\<exists>w'. acquire c u 0 timeout w = (Err LockFailed, w') \<and> fval w' = fval w"
proof -
  have run: "acquire c u 0 timeout w = retry_lock (h_fuel c) c (PublishUse c u) timeout (clk w) w"
    by (simp add: acquire_def now_run lock_call_def)
  obtain r w' where m: "acquire c u 0 timeout w = (r, w')" by force
  have "fval w' = fval w \<and> (\<forall>y. r \<noteq> Ok y)"
    by (rule retry_refused [OF assms(1-3) m [unfolded run] assms(6)]) simp_all
  then show ?thesis using acquire_in_time [OF assms(3-5), of u 0 w] m by auto
qed

end

section \<open>Properties\<close>


text \<open>The volume on the machine, mounted by another host.\<close>

definition silver_busy :: machine where
  "silver_busy = snd (PublishUse (machine_host 3) (UseMount ''gold/db'' ''node2'' ''Mount'')
     (snd (cfg_PublishVolume (machine_host 3) silver machine_start)))"

definition remove_request :: request where
  "remove_request = \<lparr>rq_content = ''{\"policy\":\"gold\",\"name\":\"db\",\"options\":{\"timeout\":\"100ms\"}}'', rq_error = None, rq_vars = []\<rparr>"

definition daemon :: "machine \<Rightarrow> machine srv" where
  "daemon w = \<lparr>srv_world = w, srv_global = NewGlobalConfig, srv_answers = []\<rparr>"


text \<open>
  A creation is answered with the volume although its record was not written: whatever error the write of
  the record meets (a store that cannot be reached, too), the handler takes it for an existing volume.
\<close>

theorem unpublished_create_answered:
  assumes "etcd c fval" "writes_up c" "Volume_Validate c v = Ok ()" "make_volume_dir c v (srv_world s) = (q, w1)"
    and "kv_set c (volume_key c (v_policy v) (v_name v) ''create'') (volume_text v) (set_nil\<lparr>so_exist := PrevNoExist\<rparr>) w1 = (Err e, w2)"
  shows "\<exists>w3. h_write c (render (volume_json v)) w2 = (Ok (), w3) \<and>
    srv_publish c v s = (Ok (), s\<lparr>srv_world := w3, srv_answers := srv_answers s @ [Content (render (volume_json v))]\<rparr>)"
proof -
  have "(\<exists>y. q = Ok y) \<or> (\<exists>e. q = Err e)"
    by (rule etcd.set_cases [OF assms(1), OF assms(4) [unfolded make_volume_dir_def]]) auto
  then have "cfg_PublishVolume c v (srv_world s) = (Err Exists, w2)"
    using assms(3-5) by (auto simp: cfg_PublishVolume_def io_defs)
  moreover obtain w3 where "h_write c (render (volume_json v)) w2 = (Ok (), w3)"
    using assms(2) unfolding writes_up_def by blast
  ultimately show ?thesis
    by (auto simp: srv_publish_def send_ignored_def send_def io_defs inner_def answer_def)
qed

text \<open>A machine whose parent directory of the record is a file, so that the record cannot be written.\<close>

definition blocked_world :: machine where
  "blocked_world = machine_start\<lparr>m_files := [(''/volplugin/volumes/gold'', ''a file'')]\<rparr>"

theorem unpublished_create_answered_witness:
  "\<exists>s'. srv_publish (machine_host 3) silver (daemon blocked_world) = (Ok (), s') \<and>
    srv_answers s' = [Content (render (volume_json silver))] \<and> m_files (srv_world s') = m_files blocked_world"
proof -
  let ?q = "make_volume_dir (machine_host 3) silver blocked_world"
  let ?p = "kv_set (machine_host 3) (volume_key (machine_host 3) (v_policy silver) (v_name silver) ''create'') (volume_text silver)
     (set_nil\<lparr>so_exist := PrevNoExist\<rparr>) (snd ?q)"
  have "(case ?p of (Err e, w) \<Rightarrow> m_files w = m_files blocked_world | _ \<Rightarrow> False)" by code_simp
  then obtain e w2 where p: "?p = (Err e, w2)" and files: "m_files w2 = m_files blocked_world"
    by (auto split: prod.splits outcome.splits)
  have v: "Volume_Validate (machine_host 3) silver = Ok ()" by code_simp
  have q: "make_volume_dir (machine_host 3) silver (srv_world (daemon blocked_world)) = (fst ?q, snd ?q)" by (simp add: daemon_def)
  show ?thesis
    using unpublished_create_answered [OF machine.etcd_axioms machine_writes v q p] files by (auto simp: daemon_def)
qed

text \<open>
  A copy that fails leaves the record of the new volume behind: it was published before the data was copied,
  and reads as a volume like any other.
\<close>

theorem copy_failure_leaves_record:
  assumes "etcd_up c fval free" "wf_prefix (c_prefix c)" "volume_fits nv"
    and "cfg_PublishVolume c nv w = (Ok (), w1)"
    and "sd_copy d opts snap (Volume_String nv) w1 = (Err e, w2)" "fval w2 = fval w1"
  shows "copy_volume c d opts snap nv w = (Err e, w2) \<and>
    (\<exists>w3. cfg_GetVolume c (v_policy nv) (v_name nv) w2 = (Ok nv, w3))"
proof -
  have "etcd c fval" using assms(1) by (simp add: etcd_up_def)
  note kept = published_volume_kept [OF this assms(2,4)]
  have "runtime_fits (v_runtime nv)" using assms(3) by (simp add: volume_fits_def)
  from get_kept_volume [OF assms(1) assms(3) kept(3) this, of w2] kept(1,2) assms(6)
  have "\<exists>w3. cfg_GetVolume c (v_policy nv) (v_name nv) w2 = (Ok nv, w3)" by fastforce
  then show ?thesis using assms(4,5) by (simp add: copy_volume_def)
qed

definition broken_ceph :: machine where
  "broken_ceph = machine_start\<lparr>mc_exec := [(None, Some (Plain ''executor'')),
     (Some \<lparr>er_status = 1, er_stdout = [], er_stderr = []\<rparr>, Some (Plain ''exit status 1''))]\<rparr>"

theorem copy_failure_leaves_record_witness:
  "\<exists>d e w2 w3. NewSnapshotDriver (machine_host 3) ''ceph'' = Ok d \<and>
     copy_volume (machine_host 3) d (bare_options silver minute) ''snap'' silver broken_ceph = (Err e, w2) \<and>
     cfg_GetVolume (machine_host 3) ''gold'' ''db'' w2 = (Ok silver, w3)"
proof -
  let ?p = "cfg_PublishVolume (machine_host 3) silver broken_ceph"
  let ?k = "ceph_CopySnapshot (machine_host 3) (bare_options silver minute) ''snap'' (Volume_String silver) (snd ?p)"
  obtain d where d: "NewSnapshotDriver (machine_host 3) ''ceph'' = Ok d" "sd_copy d = ceph_CopySnapshot (machine_host 3)"
    by (simp add: NewSnapshotDriver_def SnapshotDrivers_def backend_names ceph_NewSnapshotDriver_def)
  have "fst ?p = Ok ()" by code_simp
  then have p: "?p = (Ok (), snd ?p)" by (metis prod.collapse)
  have "(case ?k of (Err e, w) \<Rightarrow> m_files w = m_files (snd ?p) | _ \<Rightarrow> False)" by code_simp
  then obtain e w2 where k: "?k = (Err e, w2)" and "m_files w2 = m_files (snd ?p)"
    by (auto split: prod.splits outcome.splits)
  then have same: "mem_file w2 = mem_file (snd ?p)" by (simp add: fun_eq_iff mem_file_def)
  have "v_policy silver = ''gold''" "v_name silver = ''db''" by (simp_all add: silver_def)
  with copy_failure_leaves_record [OF machine.etcd_up_axioms machine_prefix silver_fits p _ same, of d] k d show ?thesis
    by fastforce
qed

text \<open>
  The global configuration through the API: parameters uploaded in the published units (seconds, minutes)
  are stored, read by every daemon, and shown again as they were uploaded, within the bounds of the
  conversion.
\<close>

theorem global_upload_roundtrip:
  assumes "etcd_up c fval free" "writes_up c"
    and "0 < g_ttl g" "g_ttl g < ttlFixBase" "0 < g_timeout g" "g_timeout g \<le> 153722867" "g_mount_path g \<noteq> []"
    and "rq_content r = render (global_json g)" "rq_error r = None"
    and "handleGlobalUpload c r s = (Ok (), s1)" "srv_answers s1 = srv_answers s"
  shows "\<exists>G w2 s3. cfg_GetGlobal c (srv_world s1) = (Ok G, w2) \<and> int64 (g_timeout G) \<and> int64 (g_ttl G) \<and>
    handleGlobal c r (s1\<lparr>srv_world := w2, srv_global := G\<rparr>) = (Ok (), s3) \<and>
    srv_answers s3 = srv_answers s @ [Content (rq_content r)]"
proof -
  have fits: "global_fits g" using assms(3-6) by (simp add: global_fits_def int64_def global_defs)
  have dec: "unmarshal global_fields (rq_content r) NewGlobalConfig = Ok g"
    unfolding assms(8) by (rule unmarshal_render) (simp_all add: fill_global fits)
  obtain q w1 where p: "cfg_PublishGlobal c g (srv_world s) = (q, w1)" by force
  have ok: "q = Ok ()" "s1 = s\<lparr>srv_world := w1\<rparr>"
    using assms(9-11) dec p
    by (cases q; auto simp: handleGlobalUpload_def read_into_def ReadAll_def inner_def attempt_def rest_error_run)+
  have "etcd c fval" using assms(1) by (simp add: etcd_up_def)
  from etcd.etcd_set_ok [OF this p [unfolded ok cfg_PublishGlobal_def]]
  have kept: "fval w1 (global_key c) = Some (render (global_json (Canonical g)))" by simp
  let ?G = "SetEmpty (Canonical g)"
  obtain w2 where get: "cfg_GetGlobal c w1 = (Ok ?G, w2)"
    using get_kept_global [OF assms(1) Canonical_fits [OF fits] kept] by blast
  have can: "Canonical g = g\<lparr>g_ttl := g_ttl g * ttlFixBase, g_timeout := g_timeout g * timeoutFixBase\<rparr>"
    using assms(3-6) by (simp add: Canonical_def wrap64_id int64_def global_defs)
  have G: "?G = Canonical g" using assms(3-7) by (simp add: SetEmpty_def can global_defs)
  have pub: "Published ?G = g"
    using assms(3-6) go_div_mult [of "g_ttl g" ttlFixBase] go_div_mult [of "g_timeout g" timeoutFixBase]
    unfolding G unfolding can Published_def by (simp add: global_defs)
  obtain w3 where "h_write c (rq_content r) w2 = (Ok (), w3)" using assms(2) unfolding writes_up_def by blast
  then have "handleGlobal c r (s1\<lparr>srv_world := w2, srv_global := ?G\<rparr>) =
      (Ok (), s\<lparr>srv_world := w3, srv_global := ?G, srv_answers := srv_answers s @ [Content (rq_content r)]\<rparr>)"
    by (simp add: handleGlobal_def pub assms(8) [symmetric] ok(2) send_ignored_def send_def io_defs inner_def answer_def)
  moreover have "global_fits ?G" unfolding G by (rule Canonical_fits [OF fits])
  ultimately show ?thesis using get by (auto simp: ok(2) global_fits_def)
qed

theorem global_upload_roundtrip_witness:
  "\<exists>G w2 s3. cfg_GetGlobal (machine_host 1) (srv_world (snd (handleGlobalUpload (machine_host 1)
       \<lparr>rq_content = render (global_json \<lparr>g_debug = False, g_timeout = 5, g_ttl = 60, g_mount_path = ''/mnt''\<rparr>), rq_error = None, rq_vars = []\<rparr>
       (daemon machine_start)))) = (Ok G, w2) \<and>
     handleGlobal (machine_host 1) \<lparr>rq_content = [], rq_error = None, rq_vars = []\<rparr> ((daemon w2)\<lparr>srv_global := G\<rparr>) = (Ok (), s3) \<and>
     srv_answers s3 = [Content (render (global_json \<lparr>g_debug = False, g_timeout = 5, g_ttl = 60, g_mount_path = ''/mnt''\<rparr>))]"
proof -
  let ?g = "\<lparr>g_debug = False, g_timeout = 5, g_ttl = 60, g_mount_path = ''/mnt''\<rparr>"
  let ?r = "\<lparr>rq_content = render (global_json ?g), rq_error = None, rq_vars = []\<rparr>"
  let ?p = "handleGlobalUpload (machine_host 1) ?r (daemon machine_start)"
  have "fst ?p = Ok () \<and> srv_answers (snd ?p) = []" by code_simp
  then have p: "?p = (Ok (), snd ?p)" "srv_answers (snd ?p) = srv_answers (daemon machine_start)"
    by (simp_all add: prod_eq_iff daemon_def)
  have "\<exists>G w2 s3. cfg_GetGlobal (machine_host 1) (srv_world (snd ?p)) = (Ok G, w2) \<and> int64 (g_timeout G) \<and> int64 (g_ttl G) \<and>
      handleGlobal (machine_host 1) ?r ((snd ?p)\<lparr>srv_world := w2, srv_global := G\<rparr>) = (Ok (), s3) \<and>
      srv_answers s3 = srv_answers (daemon machine_start) @ [Content (rq_content ?r)]"
    by (rule global_upload_roundtrip [OF machine.etcd_up_axioms machine_writes _ _ _ _ _ _ _ p]) (simp_all add: global_defs)
  then show ?thesis
    by (auto simp: handleGlobal_def daemon_def send_ignored_def send_def io_defs inner_def answer_def)
qed

end
