(* ===== verification/Cli.thy ===== *)
theory Cli imports Host begin

text \<open>
  What the two command line programs share: the hierarchy of their commands, as the tables of \<open>commands.go\<close>
  build it for the vendored package \<open>cli\<close>, and the ways an action of a command ends.
\<close>

text \<open>A command has a name, flags of its own (name and default) and an action, or commands below it.\<close>

datatype 'a command =
    Command (cmd_name: string) "(string \<times> string) list" 'a
  | Group (cmd_name: string) "'a command list"

text \<open>
  The command that the words of a command line name, its flags, and the words left, which are its arguments (flags
  are taken out before).
\<close>

fun find_command :: "'a command list \<Rightarrow> string list \<Rightarrow> ((string \<times> string) list \<times> 'a \<times> string list) option" where
  "find_command [] ws = None"
| "find_command (c # cs) [] = None"
| "find_command (c # cs) (w # ws) =
     (if cmd_name c \<noteq> w then find_command cs (w # ws)
      else (case c of Command n flags act \<Rightarrow> Some (flags, act, ws) | Group n sub \<Rightarrow> find_command sub ws))"

text \<open>
  The terminal: what is printed (one call of \<open>fmt.Println\<close> or \<open>Printf\<close> each, its results dropped), the standard
  error, the rest of the standard input and a line of it (with its newline), and the help of the program.
\<close>

record 'w console =
  con_print :: "string \<Rightarrow> 'w \<Rightarrow> 'w"
  con_stderr :: "string \<Rightarrow> ('w, goerr, unit) io"
  con_stdin :: "('w, goerr, string) io"
  con_line :: "('w, goerr, string) io"
  con_help :: "'w \<Rightarrow> 'w"

definition print :: "'w console \<Rightarrow> string \<Rightarrow> ('w, 'e, unit) io" where
  "print t s = modify (con_print t s)"

fun print_all :: "'w console \<Rightarrow> string list \<Rightarrow> ('w, 'e, unit) io" where
  "print_all t [] = ret ()"
| "print_all t (s # ss) = andThen (print t s) (\<lambda>_. print_all t ss)"

text \<open>
  An action yields nothing, or an error and whether the help is shown with it. The error is printed and the process
  ends with status 1.
\<close>

type_synonym ('w, 'a) action = "('w, bool \<times> goerr, 'a) io"

definition bad_args :: "('w, 'a) action" where
  "bad_args = fail (True, Fresh ''Invalid number of arguments'')"

definition failing :: "('w, goerr, 'a) io \<Rightarrow> ('w, 'a) action" where
  "failing m = attempt m (\<lambda>e. fail (False, e)) ret"

definition errExit :: "'w console \<Rightarrow> goerr \<Rightarrow> bool \<Rightarrow> ('w, goerr, unit) io" where
  "errExit t err help =
     regardless (con_stderr t (''Error: '' @ error_text err))
       (andThen (if help then modify (con_help t) else ret ()) (\<lambda>_. panic ''exit status 1''))"

definition execCliAndExit :: "'w console \<Rightarrow> ('w, 'a) action \<Rightarrow> ('w, goerr, unit) io" where
  "execCliAndExit t f = attempt f (\<lambda>(showHelp, err). errExit t err showHelp) (\<lambda>_. ret ())"

lemma failing_runs [simp]:
  "m w = (Ok x, w') \<Longrightarrow> failing m w = (Ok x, w')" "m w = (Err e, w') \<Longrightarrow> failing m w = (Err (False, e), w')"
  by (simp_all add: failing_def)

text \<open>Only an action without an error lets the process go on.\<close>

lemma execCliAndExit_Ok: "execCliAndExit t f w = (Ok (), w') \<Longrightarrow> \<exists>x. f w = (Ok x, w')"
  by (auto simp: execCliAndExit_def errExit_def io_defs split: prod.splits outcome.splits if_splits)

end
