(* ===== verification/Net.thy ===== *)
theory Net imports Cli begin

text \<open>What HTTP carries between the command line client and the API server: a method and a response.\<close>

datatype http_method = GET | POST | DELETE

record response =
  rs_status :: nat
  rs_body :: string
  rs_error :: "goerr option"   \<comment> \<open>what ends the reading of the body, nil at its end\<close>

end
