(* ===== verification/Serving.thy ===== *)
theory Serving imports Apiserver Watch Net "HOL-Library.Multiset" begin

text \<open>
  The API server as a whole: how its router finds the handler of a request, the response the answers of a
  handler make, the start of the daemon (\<open>Daemon\<close> of \<open>apiserver/daemon.go\<close>) and the updates of its global configuration.
\<close>

section \<open>The router\<close>

text \<open>
  A template of \<open>gorilla/mux\<close> matches a path of as many elements, each equal to the template's or, for a variable in
  braces, not empty; the variables are bound to what they matched.
\<close>

definition is_var :: "string \<Rightarrow> bool" where
  "is_var t \<longleftrightarrow> 2 \<le> length t \<and> hd t = CHR ''{'' \<and> last t = CHR ''}''"

definition var_name :: "string \<Rightarrow> string" where
  "var_name t = butlast (tl t)"

fun match_segs :: "string list \<Rightarrow> string list \<Rightarrow> smap option" where
  "match_segs [] [] = Some []"
| "match_segs (t # ts) (p # ps) =
     (if is_var t then (if p = [] then None else map_option (smap_put (var_name t) p) (match_segs ts ps))
      else if t = p then match_segs ts ps else None)"
| "match_segs _ _ = None"

definition match_path :: "string \<Rightarrow> string \<Rightarrow> smap option" where
  "match_path template path = match_segs (split_on CHR ''/'' template) (split_on CHR ''/'' path)"

text \<open>The first route that matches.\<close>

fun find_route :: "(string \<times> 'h) list \<Rightarrow> string \<Rightarrow> ('h \<times> smap) option" where
  "find_route [] path = None"
| "find_route ((t, h) # rs) path =
     (case match_path t path of Some vars \<Rightarrow> Some (h, vars) | None \<Rightarrow> find_route rs path)"

text \<open>A path is redirected to its clean form, with its trailing slash.\<close>

definition cleanPath :: "string \<Rightarrow> string" where
  "cleanPath p =
     (if p = [] then slash
      else let p' = (if hd p = CHR ''/'' then p else slash @ p); np = path_clean p'
           in if last p' = CHR ''/'' \<and> np \<noteq> slash then np @ slash else np)"

section \<open>Responses\<close>

text \<open>The first call that writes a header or content fixes the status; \<open>http.Error\<close> ends its text with a newline.\<close>

fun answer_status :: "answer list \<Rightarrow> nat" where
  "answer_status [] = 200"
| "answer_status (Header n # as) = n"
| "answer_status (HttpError n t # as) = n"
| "answer_status (Content b # as) = 200"

fun answer_body :: "answer \<Rightarrow> string" where
  "answer_body (Header n) = []"
| "answer_body (HttpError n t) = t @ [CHR 0x0A]"
| "answer_body (Content b) = b"

definition response_of :: "answer list \<Rightarrow> response" where
  "response_of as = \<lparr>rs_status = answer_status as, rs_body = concat (map answer_body as), rs_error = None\<rparr>"

section \<open>The daemon\<close>

type_synonym 'w routes = "http_method \<Rightarrow> (string \<times> (request \<Rightarrow> ('w, unit) serve)) list"

definition handlers :: "('w, 'z) host_scheme \<Rightarrow> 'w routes" where
  "handlers c m = (case m of POST \<Rightarrow> postRouter c | DELETE \<Rightarrow> deleteRouter c | GET \<Rightarrow> getRouter c)"

text \<open>
  The routes of the three methods; the tables are Go maps, which are ranged over in any order, so the tables
  are an argument.
\<close>

definition server_routes :: "bool \<Rightarrow> 'w routes \<Rightarrow> 'w routes res" where
  "server_routes debug tables =
     bind_res (addRoute debug (tables POST) []) (\<lambda>post.
     bind_res (addRoute debug (tables DELETE) []) (\<lambda>delete.
     bind_res (addRoute debug (tables GET) []) (\<lambda>get.
       Ok (\<lambda>m. case m of POST \<Rightarrow> post | DELETE \<Rightarrow> delete | GET \<Rightarrow> get))))"

definition begin_serving :: "'w routes \<Rightarrow> Global \<Rightarrow> ('w, goerr, 'w srv \<times> 'w routes) io" where
  "begin_serving tables global w =
     (case server_routes (g_debug global) tables of
        Ok r \<Rightarrow> (Ok (\<lparr>srv_world = w, srv_global = global, srv_answers = []\<rparr>, r), w)
      | _ \<Rightarrow> (Panic ''Error starting apiserver'', w))"

text \<open>A global configuration that cannot be read is replaced by the defaults.\<close>

definition apiserver_Daemon :: "('w, 'z) host_scheme \<Rightarrow> 'w routes \<Rightarrow> ('w, goerr, 'w srv \<times> 'w routes) io" where
  "apiserver_Daemon c tables =
     attempt (cfg_GetGlobal c) (\<lambda>err. begin_serving tables NewGlobalConfig) (begin_serving tables)"

text \<open>The goroutine that takes what \<open>WatchGlobal\<close> sends; the type assertion panics on anything else.\<close>

definition receive_global :: "watch \<Rightarrow> 'w srv \<Rightarrow> 'w srv res" where
  "receive_global a d =
     (case wa_config a of GlobalConfig g \<Rightarrow> Ok (d\<lparr>srv_global := g\<rparr>) | _ \<Rightarrow> Panic ''interface conversion'')"

text \<open>
  One request: the handler runs on a response of its own. A handler that panics ends its request without a
  response (\<open>net/http\<close> recovers from it and closes the connection).
\<close>

definition not_found :: response where
  "not_found = \<lparr>rs_status = 404, rs_body = ''404 page not found'' @ [CHR 0x0A], rs_error = None\<rparr>"

definition run_handler :: "(request \<Rightarrow> ('w, unit) serve) \<Rightarrow> request \<Rightarrow> ('w, response) serve" where
  "run_handler h r s =
     (case h r (s\<lparr>srv_answers := []\<rparr>) of
        (Panic p, s') \<Rightarrow> (Err (Plain ''EOF''), s')
      | (Hang, s') \<Rightarrow> (Hang, s')
      | (_, s') \<Rightarrow> (Ok (response_of (srv_answers s')), s'))"

definition serve_request :: "'w routes \<Rightarrow> http_method \<Rightarrow> string \<Rightarrow> string \<Rightarrow> ('w, response) serve" where
  "serve_request routes m path body =
     (if cleanPath path \<noteq> path then ret \<lparr>rs_status = 301, rs_body = [], rs_error = None\<rparr>
      else (case find_route (routes m) path of
          None \<Rightarrow> ret not_found
        | Some (h, vars) \<Rightarrow> run_handler h \<lparr>rq_content = body, rq_error = None, rq_vars = vars\<rparr>))"

section \<open>One handler for each path\<close>

text \<open>Two templates that no path matches both of.\<close>

fun clash :: "string list \<Rightarrow> string list \<Rightarrow> bool" where
  "clash [] [] = False"
| "clash (t # ts) (u # us) =
     ((\<not> is_var t \<and> \<not> is_var u \<and> t \<noteq> u) \<or> (is_var t \<and> u = []) \<or> (is_var u \<and> t = []) \<or> clash ts us)"
| "clash _ _ = True"

lemma is_var_Nil [simp]: "\<not> is_var []" by (simp add: is_var_def)

lemma clash_apart: "clash ts us \<Longrightarrow> match_segs ts ps = Some v \<Longrightarrow> match_segs us ps = Some v' \<Longrightarrow> False"
proof (induction ts us arbitrary: ps v v' rule: clash.induct)
  case (2 t ts u us)
  then obtain p qs where "ps = p # qs" by (cases ps) auto
  with 2 show ?case by (auto split: if_splits)
qed (auto elim!: match_segs.elims)

text \<open>Tables whose templates are pairwise apart: the route found does not depend on their order.\<close>

definition apart :: "string list \<Rightarrow> bool" where
  "apart ts \<longleftrightarrow> distinct ts \<and>
     list_all (\<lambda>t. list_all (\<lambda>u. t = u \<or> clash (split_on CHR ''/'' t) (split_on CHR ''/'' u)) ts) ts"

lemma find_route_Some: "find_route rs p = Some (h, v) \<Longrightarrow> \<exists>t. (t, h) \<in> set rs \<and> match_path t p = Some v"
  by (induction rs p rule: find_route.induct) (auto split: option.splits)

lemma find_route_None: "find_route rs p = None \<longleftrightarrow> (\<forall>(t, h) \<in> set rs. match_path t p = None)"
  by (induction rs p rule: find_route.induct) (auto split: option.splits)

lemma find_route_iff:
  assumes "apart (map fst rs)"
  shows "find_route rs p = Some (h, v) \<longleftrightarrow> (\<exists>t. (t, h) \<in> set rs \<and> match_path t p = Some v)"
proof
  assume "\<exists>t. (t, h) \<in> set rs \<and> match_path t p = Some v"
  then obtain t where t: "(t, h) \<in> set rs" "match_path t p = Some v" by blast
  then obtain h' v' where f: "find_route rs p = Some (h', v')"
    using find_route_None [of rs p] by (cases "find_route rs p") auto
  then obtain t' where t': "(t', h') \<in> set rs" "match_path t' p = Some v'" using find_route_Some by fast
  have "t \<in> set (map fst rs)" "t' \<in> set (map fst rs)" using t(1) t'(1) by force+
  then have "t = t' \<or> clash (split_on CHR ''/'' t) (split_on CHR ''/'' t')"
    using assms unfolding apart_def list_all_iff by blast
  then have "t = t'" using clash_apart t(2) t'(2) unfolding match_path_def by blast
  moreover have "distinct (map fst rs)" using assms by (simp add: apart_def)
  ultimately have "h = h'" using t(1) t'(1) by (simp add: eq_key_imp_eq_value)
  then show "find_route rs p = Some (h, v)" using f t(2) t'(2) \<open>t = t'\<close> by simp
qed (rule find_route_Some)

lemma find_route_order:
  assumes "apart (map fst rs)" "mset rs = mset rs'"
  shows "find_route rs' p = find_route rs p"
proof -
  have "set rs' = set rs" using assms(2) by (metis mset_eq_setD)
  moreover have "apart (map fst rs')"
    using assms mset_eq_imp_distinct_iff [of "map fst rs" "map fst rs'"] mset_eq_setD [OF assms(2)]
    by (auto simp: apart_def list_all_iff mset_map)
  ultimately have "find_route rs' p = Some (h, v) \<longleftrightarrow> find_route rs p = Some (h, v)" for h v
    using find_route_iff assms(1) by metis
  then show ?thesis by (metis not_Some_eq surj_pair)
qed

text \<open>What \<open>addRoute\<close> registers.\<close>

definition both_paths :: "bool \<Rightarrow> string \<times> (request \<Rightarrow> 'a) \<Rightarrow> (string \<times> (request \<Rightarrow> 'a)) list" where
  "both_paths debug e = (case e of (path, f) \<Rightarrow>
     [(path, LogHandler path debug f), (path @ ''/'', LogHandler (path @ ''/'') debug f)])"

lemma addRoute_Ok:
  "addRoute debug hs r = Ok rs \<longleftrightarrow>
     list_all (\<lambda>(path, f). \<not> has_suffix ''/'' path) hs \<and> rs = r @ concat (map (both_paths debug) hs)"
  by (induction debug hs r rule: addRoute.induct) (auto simp: both_paths_def)

definition templates :: "string list \<Rightarrow> string list" where
  "templates paths = concat (map (\<lambda>p. [p, p @ ''/'']) paths)"

lemma both_paths_templates: "map fst (concat (map (both_paths debug) hs)) = templates (map fst hs)"
  by (induction hs) (auto simp: both_paths_def templates_def)

lemma handlers_apart: "apart (templates (map fst (handlers c m)))"
proof (cases m)
  case GET
  have "apart (templates [''/global'', ''/policy-archives/{policy}'', ''/policy-archives/{policy}/{revision}'', ''/policies'',
     ''/policies/{policy}'', ''/uses/mounts/{policy}/{volume}'', ''/uses/snapshots/{policy}/{volume}'', ''/volumes'',
     ''/volumes/{policy}'', ''/volumes/{policy}/{volume}'', ''/runtime/{policy}/{volume}'', ''/snapshots/{policy}/{volume}''])"
    by code_simp
  then show ?thesis by (simp only: GET handlers_def getRouter_def http_method.case list.map fst_conv)
next
  case POST
  have "apart (templates [''/global'', ''/volumes/create'', ''/volumes/copy'', ''/volumes/request'', ''/policies/{policy}'',
     ''/runtime/{policy}/{volume}'', ''/snapshots/take/{policy}/{volume}''])"
    by code_simp
  then show ?thesis by (simp only: POST handlers_def postRouter_def http_method.case list.map fst_conv)
next
  case DELETE
  have "apart (templates [''/volumes/remove'', ''/volumes/removeforce'', ''/policies/{policy}''])" by code_simp
  then show ?thesis by (simp only: DELETE handlers_def deleteRouter_def http_method.case list.map fst_conv)
qed

lemma handlers_no_slash: "list_all (\<lambda>(path, f). \<not> has_suffix ''/'' path) (handlers c m)"
  by (cases m) (simp_all add: handlers_def getRouter_def postRouter_def deleteRouter_def has_suffix_def)

text \<open>A server of these handlers, whatever the order in which its tables were ranged over.\<close>

definition served :: "('w, 'z) host_scheme \<Rightarrow> 'w routes \<Rightarrow> bool" where
  "served c routes \<longleftrightarrow> (\<exists>debug tables. (\<forall>m. mset (tables m) = mset (handlers c m)) \<and> server_routes debug tables = Ok routes)"

definition with_slash :: "(string \<times> 'h) list \<Rightarrow> (string \<times> 'h) list" where
  "with_slash hs = concat (map (\<lambda>(path, f). [(path, f), (path @ ''/'', f)]) hs)"

lemma with_slash_templates: "map fst (with_slash hs) = templates (map fst hs)"
  by (induction hs) (auto simp: with_slash_def templates_def)

lemma find_both_paths:
  "find_route (concat (map (both_paths debug) hs)) p = map_option (\<lambda>(f, v). (LogHandler [] debug f, v)) (find_route (with_slash hs) p)"
  by (induction hs) (auto simp: both_paths_def with_slash_def LogHandler_def fun_eq_iff split: option.splits)

lemma server_routes_Ok:
  "server_routes debug tables = Ok routes \<Longrightarrow> routes m = concat (map (both_paths debug) (tables m))"
  by (auto simp: server_routes_def bind_res_Ok_iff addRoute_Ok split: http_method.split)

lemma run_LogHandler: "rq_error r = None \<Longrightarrow> run_handler (LogHandler n debug f) r = run_handler f r"
  by (cases r) (simp add: run_handler_def LogHandler_def fun_eq_iff)

lemma mset_concat_map: "mset (concat (map g xs)) = sum_mset (image_mset (\<lambda>x. mset (g x)) (mset xs))"
  by (induction xs) simp_all

lemma mset_concat_map_cong: "mset xs = mset ys \<Longrightarrow> mset (concat (map g xs)) = mset (concat (map g ys))"
  by (simp only: mset_concat_map)

lemma serve_request_spec:
  assumes "served c routes"
  shows "serve_request routes m path body =
    (if cleanPath path \<noteq> path then ret \<lparr>rs_status = 301, rs_body = [], rs_error = None\<rparr>
     else (case find_route (with_slash (handlers c m)) path of
         None \<Rightarrow> ret not_found
       | Some (h, vars) \<Rightarrow> run_handler h \<lparr>rq_content = body, rq_error = None, rq_vars = vars\<rparr>))"
proof -
  obtain debug tables where t: "mset (tables m) = mset (handlers c m)" "server_routes debug tables = Ok routes"
    using assms unfolding served_def by blast
  let ?f = "\<lambda>hs. concat (map (both_paths debug) hs)"
  have "mset (?f (handlers c m)) = mset (?f (tables m))" by (rule mset_concat_map_cong) (simp add: t(1))
  moreover have "apart (map fst (?f (handlers c m)))" by (simp only: both_paths_templates handlers_apart)
  ultimately have "find_route (routes m) path = find_route (?f (handlers c m)) path"
    using find_route_order server_routes_Ok [OF t(2)] by metis
  then show ?thesis
    unfolding serve_request_def find_both_paths by (auto simp: run_LogHandler split: option.splits)
qed

lemma serve_found:
  assumes "served c routes" "(t, f) \<in> set (handlers c m)" "match_path t path = Some vars" "cleanPath path = path"
  shows "serve_request routes m path body = run_handler f \<lparr>rq_content = body, rq_error = None, rq_vars = vars\<rparr>"
proof -
  have "apart (map fst (with_slash (handlers c m)))" by (simp only: with_slash_templates handlers_apart)
  moreover have "(t, f) \<in> set (with_slash (handlers c m))" using assms(2) by (force simp: with_slash_def)
  ultimately have "find_route (with_slash (handlers c m)) path = Some (f, vars)"
    using find_route_iff assms(3) by fast
  then show ?thesis by (simp add: serve_request_spec [OF assms(1)] assms(4))
qed

section \<open>Properties\<close>

text \<open>
  C8. The API server answers a request alike whatever order its tables of routes were registered in (they are Go maps, ranged
  over at random) and whether it logs requests or not; and such a server always starts from these tables.
\<close>

theorem route_order_irrelevant:
  assumes "\<forall>m. mset (tables m) = mset (handlers c m)"
  shows "(\<exists>routes. server_routes debug tables = Ok routes) \<and>
    (server_routes debug tables = Ok routes \<longrightarrow> server_routes debug' (handlers c) = Ok routes' \<longrightarrow>
      serve_request routes m path body = serve_request routes' m path body)"
proof (intro conjI impI)
  have "set (tables m) = set (handlers c m)" for m using assms mset_eq_setD by blast
  then have "list_all (\<lambda>(path, f). \<not> has_suffix ''/'' path) (tables m)" for m
    using handlers_no_slash [of c m] by (simp add: list_all_iff)
  then have "\<exists>rs. addRoute debug (tables m) [] = Ok rs" for m by (simp add: addRoute_Ok)
  then obtain r where "\<And>m. addRoute debug (tables m) [] = Ok (r m)" by metis
  then show "\<exists>routes. server_routes debug tables = Ok routes" by (simp add: server_routes_def)
next
  assume "server_routes debug tables = Ok routes" "server_routes debug' (handlers c) = Ok routes'"
  then have "served c routes" "served c routes'" using assms unfolding served_def by blast+
  then show "serve_request routes m path body = serve_request routes' m path body"
    using serve_request_spec by metis
qed

theorem route_order_irrelevant_witness:
  "\<exists>routes routes'. server_routes True (\<lambda>m. rev (handlers (machine_host 1) m)) = Ok routes \<and>
     server_routes False (handlers (machine_host 1)) = Ok routes' \<and>
     serve_request routes DELETE ''/policies/gold/'' [] = serve_request routes' DELETE ''/policies/gold/'' []"
proof -
  let ?c = "machine_host 1"
  have r: "\<forall>m. mset (rev (handlers ?c m)) = mset (handlers ?c m)" and i: "\<forall>m. mset (handlers ?c m) = mset (handlers ?c m)" by simp_all
  obtain routes where a: "server_routes True (\<lambda>m. rev (handlers ?c m)) = Ok routes"
    using route_order_irrelevant [OF r, of True] by blast
  obtain routes' where b: "server_routes False (handlers ?c) = Ok routes'"
    using route_order_irrelevant [OF i, of False] by blast
  from route_order_irrelevant [OF r, of True routes False routes'] a b show ?thesis by blast
qed

end
