(* ===== verification/Composition.thy ===== *)
theory Composition imports Processes Apiserver_Props Serving Config_Store begin

text \<open>
  The daemons together, through the store and its watches: what an administrator changes in one of them reaches the
  others.
\<close>

section \<open>The global configuration\<close>

lemma global_fields_keep: "fields_keep global_fits global_fields"
proof -
  have "int64 x" if "get_int 64 j old = Some x" "int64 old" for j x old
    using that by (cases j) (auto simp: int64_def split: if_splits)
  then show ?thesis unfolding fields_keep_def global_fields_def global_fits_def by auto
qed

lemma empty_global_kept:
  "SetEmpty g = g \<longleftrightarrow> g_ttl g \<noteq> 0 \<and> g_timeout g \<noteq> 0 \<and> g_mount_path g \<noteq> []"
  by (cases g) (auto simp: SetEmpty_def global_defs)

lemma uploaded_global:
  assumes "etcd c fval" "ReadAll r = Ok text" "unmarshal global_fields text NewGlobalConfig = Ok g"
    and "handleGlobalUpload c r s = (Ok (), s1)" "srv_answers s1 = srv_answers s"
  shows "fval (srv_world s1) (global_key c) = Some (render (global_json (Canonical g)))" "global_fits g"
proof -
  obtain q w1 where p: "cfg_PublishGlobal c g (srv_world s) = (q, w1)" by force
  have ok: "q = Ok ()" "s1 = s\<lparr>srv_world := w1\<rparr>"
    using assms(2-5) p
    by (cases q; auto simp: handleGlobalUpload_def read_into_def inner_def attempt_def rest_error_run)+
  from etcd.etcd_set_ok [OF assms(1) p [unfolded ok cfg_PublishGlobal_def]] ok(2)
  show "fval (srv_world s1) (global_key c) = Some (render (global_json (Canonical g)))" by simp
  have "global_fits NewGlobalConfig" by (simp add: global_fits_def NewGlobalConfig_def int64_def global_defs)
  then show "global_fits g" by (rule unmarshal_keeps [OF global_fields_keep assms(3)])
qed

text \<open>
  C9. A global configuration uploaded through the API server reaches every daemon that runs, as it is stored, by the event of
  the watch: the API server, the plugin and the supervisor go on with it. A daemon that starts afterwards takes it with its
  empty parameters replaced by the defaults; so the daemons agree exactly when none of them is empty.
\<close>

theorem global_reaches_daemons:
  assumes "etcd_up c fval free" "ReadAll r = Ok text" "unmarshal global_fields text NewGlobalConfig = Ok g"
    and "handleGlobalUpload c r s = (Ok (), s1)" "srv_answers s1 = srv_answers s"
    and "action \<noteq> ''delete''" "fval (srv_world s1) (global_key c) = Some (n_value n)"
  shows "\<exists>a G w2. global_callback c action n = ret (Some a) \<and>
    receive_global a d = Ok (d\<lparr>srv_global := Canonical g\<rparr>) \<and>
    plugin_global a p = (Ok (), p\<lparr>srv_global := Canonical g\<rparr>) \<and>
    watchAndSetGlobal a t = (Ok (), t\<lparr>srv_global := Canonical g\<rparr>) \<and>
    started_global c (srv_world s1) = (Ok G, w2) \<and> retry_global (Suc k) c (srv_world s1) = (Ok G, w2) \<and>
    (G = Canonical g \<longleftrightarrow> g_ttl (Canonical g) \<noteq> 0 \<and> g_timeout (Canonical g) \<noteq> 0 \<and> g_mount_path g \<noteq> [])"
proof -
  have up: "etcd c fval" using assms(1) by (simp add: etcd_up_def)
  note kept = uploaded_global [OF up assms(2-5)]
  let ?a = "\<lparr>wa_key = n_key n, wa_config = GlobalConfig (Canonical g)\<rparr>"
  have stored: "n_value n = render (global_json (Canonical g))" using kept(1) assms(7) by simp
  have "unmarshal global_fields (n_value n) zero_global = Ok (Canonical g)"
    unfolding stored by (rule unmarshal_render) (simp_all add: fill_global Canonical_fits kept(2))
  then have "global_callback c action n = ret (Some ?a)"
    using assms(6) by (simp add: fun_eq_iff global_callback_def global_event_def)
  moreover obtain w2 where "cfg_GetGlobal c (srv_world s1) = (Ok (SetEmpty (Canonical g)), w2)"
    using get_kept_global [OF assms(1) Canonical_fits [OF kept(2)] kept(1)] by blast
  moreover have "g_mount_path (Canonical g) = g_mount_path g" by (simp add: Canonical_def)
  ultimately show ?thesis
    by (intro exI [of _ ?a] exI [of _ "SetEmpty (Canonical g)"] exI [of _ w2])
      (simp add: receive_global_def plugin_global_def watchAndSetGlobal_def started_global_def empty_global_kept)
qed

definition zero_ttl :: Global where
  "zero_ttl = \<lparr>g_debug = False, g_timeout = 5, g_ttl = 0, g_mount_path = ''/mnt''\<rparr>"

definition zero_ttl_upload :: "machine srv" where
  "zero_ttl_upload = snd (handleGlobalUpload (machine_host 1)
     \<lparr>rq_content = render (global_json zero_ttl), rq_error = None, rq_vars = []\<rparr> (daemon machine_start))"

theorem global_reaches_daemons_witness:
  "\<exists>n a G w2. mem_file (srv_world zero_ttl_upload) (global_key (machine_host 1)) = Some (n_value n) \<and>
     global_callback (machine_host 1) ''set'' n = ret (Some a) \<and>
     watchAndSetGlobal a (supervisor1 machine_start) = (Ok (), (supervisor1 machine_start)\<lparr>srv_global := Canonical zero_ttl\<rparr>) \<and>
     started_global (machine_host 1) (srv_world zero_ttl_upload) = (Ok G, w2) \<and> G \<noteq> Canonical zero_ttl"
proof -
  let ?c = "machine_host 1" and ?s = "daemon machine_start" and ?text = "render (global_json zero_ttl)"
  let ?r = "\<lparr>rq_content = ?text, rq_error = None, rq_vars = []\<rparr>"
  have "fst (handleGlobalUpload ?c ?r ?s) = Ok () \<and> srv_answers zero_ttl_upload = []" by code_simp
  then have run: "handleGlobalUpload ?c ?r ?s = (Ok (), zero_ttl_upload)" "srv_answers zero_ttl_upload = srv_answers ?s"
    by (simp_all add: zero_ttl_upload_def prod_eq_iff daemon_def)
  have read: "ReadAll ?r = Ok ?text" by (simp add: ReadAll_def)
  have fits: "global_fits zero_ttl" by (simp add: zero_ttl_def global_fits_def int64_def)
  have dec: "unmarshal global_fields ?text NewGlobalConfig = Ok zero_ttl"
    by (rule unmarshal_render) (simp_all add: fill_global fits)
  let ?n = "Node ''/volplugin/global-config'' False (render (global_json (Canonical zero_ttl))) []"
  have kept: "mem_file (srv_world zero_ttl_upload) (global_key ?c) = Some (n_value ?n)"
    using uploaded_global(1) [OF machine.etcd_axioms read dec run] by simp
  have "g_ttl (Canonical zero_ttl) = 0" by (simp add: Canonical_def zero_ttl_def wrap64_def global_defs)
  moreover have "''set'' \<noteq> ''delete''" by simp
  moreover note global_reaches_daemons [OF machine.etcd_up_axioms read dec run this kept, of undefined undefined "supervisor1 machine_start" 0]
  ultimately show ?thesis using kept by blast
qed

section \<open>The snapshot signal\<close>

lemma erase_front: "p \<noteq> [] \<Longrightarrow> erase_all p (p @ s) = erase_all p s"
  using has_prefix_append [of p s] by (cases p) simp_all

lemma erase_none: "count_char ch s < count_char ch p \<Longrightarrow> erase_all p s = s"
proof (induction p s rule: erase_all.induct)
  case (2 p x xs)
  have "\<not> has_prefix p (x # xs)"
  proof
    assume "has_prefix p (x # xs)"
    then obtain t where "x # xs = p @ t" by (metis append_take_drop_id has_prefix_def)
    then have "count_char ch (x # xs) = count_char ch p + count_char ch t" by (metis count_char_append)
    with "2.prems" show False by simp
  qed
  with 2 show ?case by auto
qed simp

lemma snapshot_key_segs:
  assumes "wf_prefix (c_prefix c)" "name_valid a" "name_valid b"
  shows "snapshot_key c (a @ slash @ b) = (prefixed c [rootSnapshots] @ slash) @ a @ slash @ b"
proof -
  have ab: "name_segs (a @ slash @ b) = [a, b]"
    using assms(2,3) by (simp add: name_segs_def split_on_append split_on_no_sep name_valid_def)
  have r: "plain_seg rootSnapshots" by (simp add: plain_seg_def rootSnapshots_def)
  have ok: "list_all name_ok [rootSnapshots, a @ slash @ b]" "list_all name_ok [rootSnapshots]"
    using assms r by (simp_all add: plain_name_ok) (simp add: name_ok_def ab [simplified] name_valid_plain)
  have "path_segs (c_prefix c) \<noteq> []" using assms(1) by (simp add: wf_prefix_def)
  then show ?thesis
    unfolding snapshot_key_def prefixed_segs [OF assms(1) ok(1)] prefixed_segs [OF assms(1) ok(2)]
    by (simp add: ab [simplified] name_segs_plain [OF r] join_append)
qed

lemma snapshot_signal_key:
  assumes "wf_prefix (c_prefix c)" "name_valid a" "name_valid b"
  shows "erase_all (prefixed c [rootSnapshots] @ slash) (snapshot_key c (a @ slash @ b)) = a @ slash @ b"
proof -
  have "plain_seg rootSnapshots" by (simp add: plain_seg_def rootSnapshots_def)
  then have "prefixed c [rootSnapshots] = slash @ join slash (path_segs (c_prefix c) @ [rootSnapshots])"
    using prefixed_segs [OF assms(1), of "[rootSnapshots]"] by (simp add: plain_name_ok name_segs_plain)
  then have "2 \<le> count_char CHR ''/'' (prefixed c [rootSnapshots] @ slash)" by simp
  moreover have "count_char CHR ''/'' (a @ slash @ b) = 1"
    using assms(2,3) count_char_zero [of "CHR ''/''"] by (simp add: name_valid_def)
  ultimately have "erase_all (prefixed c [rootSnapshots] @ slash) (a @ slash @ b) = a @ slash @ b"
    by (intro erase_none [of "CHR ''/''"]) linarith
  then show ?thesis unfolding snapshot_key_segs [OF assms] by (subst erase_front) simp_all
qed


lemma snapshot_request_signal:
  assumes "etcd c fval" "handleSnapshotTake c r s = (Ok (), s1)" "srv_answers s1 = srv_answers s"
  shows "fval (srv_world s1) =
    (fval (srv_world s))(snapshot_key c (route_var r ''policy'' @ slash @ route_var r ''volume'') \<mapsto> [])"
proof -
  let ?name = "route_var r ''policy'' @ slash @ route_var r ''volume''"
  obtain q w1 where q: "TakeSnapshot c ?name (srv_world s) = (q, w1)" by force
  have "q = Ok ()" "s1 = s\<lparr>srv_world := w1\<rparr>"
    using assms(2,3) q by (cases q; auto simp: handleSnapshotTake_def inner_def attempt_def rest_error_run)+
  then show ?thesis using etcd.etcd_set_ok [OF assms(1)] q by (simp add: TakeSnapshot_def)
qed

lemma RemoveTakeSnapshot_cases:
  assumes "etcd c fval" "RemoveTakeSnapshot c name w = (r, w')"
  shows "(r = Ok () \<or> (\<exists>e. r = Err e)) \<and> (fval w' = (fval w)(snapshot_key c name := None) \<or> fval w' = fval w) \<and>
    (r = Ok () \<longrightarrow> fval w' = (fval w)(snapshot_key c name := None))"
proof -
  obtain q w1 where d: "kv_del c (snapshot_key c name) del_nil w = (q, w1)" by force
  have n: "\<not> do_recursive del_nil" "\<not> do_dir del_nil" by (simp_all add: del_nil_def)
  show ?thesis
    by (rule etcd.del_cases [OF assms(1) d])
      (use assms(2) d etcd.del_ok [OF assms(1) _ n] etcd.del_unknown [OF assms(1) _ n] in \<open>fastforce simp: RemoveTakeSnapshot_def\<close>)+
qed

text \<open>What the task does once it has the lock: one snapshot of the volume by its driver.\<close>

lemma snapshot_task_run:
  assumes "PublishUse c (UseSnapshot (Volume_String vol) ReasonSnapshot) (srv_world u) = (Ok x, w1)"
    and "v_backends vol = Some b" "bd_snapshot b = ''ceph''"
  shows "srv_world (snd (run_task c (SnapshotNow vol) u)) =
    snd (ceph_CreateSnapshot c (h_time_string c w1) (snapshot_options vol (g_timeout (srv_global u))) w1)"
proof -
  let ?u = "u\<lparr>srv_world := w1, su_refreshers := su_refreshers u @ [Refreshing (UseSnapshot (Volume_String vol) ReasonSnapshot)]\<rparr>"
  let ?opts = "snapshot_options vol (g_timeout (srv_global u))"
  obtain r w2 where s: "ceph_CreateSnapshot c (h_time_string c w1) ?opts w1 = (r, w2)" by force
  obtain d where d: "NewSnapshotDriver c ''ceph'' = Ok d" "sd_create d = ceph_CreateSnapshot c"
    using NewSnapshotDriver_iff [of c "''ceph''"] by (auto simp: ceph_NewSnapshotDriver_def)
  have "inner (AcquireWithTTLRefresh c (UseSnapshot (Volume_String vol) ReasonSnapshot)) u = (Ok x, u\<lparr>srv_world := w1\<rparr>)"
    by (rule inner_run) (use assms(1) in \<open>simp add: AcquireWithTTLRefresh_def\<close>)
  moreover have "inner (ceph_CreateSnapshot c (h_time_string c w1) ?opts) ?u = (r, ?u\<lparr>srv_world := w2\<rparr>)"
    by (rule inner_run) (use s in simp)
  ultimately show ?thesis
    using s assms(2,3) d
    by (cases r) (simp_all add: run_task_def createSnapshot_def while_locked_def sup_refresh_def deferred_def
        snapshot_backend_def sup_stop_def attempt_def andThen_def regardless_def)
qed

text \<open>
  C10. A snapshot asked for through the API server is taken by the supervisor: an accepted request writes the key of the
  volume; the watch of the supervisor makes of its event the name of that volume; the supervisor starts a task for the volume
  it then reads and takes the key away, unless etcd fails; the task, once it has the snapshot
  lock, has the driver make a snapshot of this volume and nothing else.
\<close>

theorem snapshot_request_served:
  assumes "etcd c fval" "wf_prefix (c_prefix c)" "name_valid p" "name_valid n"
    and "route_var r ''policy'' = p" "route_var r ''volume'' = n"
    and "handleSnapshotTake c r s = (Ok (), s1)" "srv_answers s1 = srv_answers s"
    and "cfg_GetVolume c p n (srv_world t) = (Ok vol, w2)" "v_policy vol = p" "v_name vol = n"
    and "PublishUse c (UseSnapshot (p @ slash @ n) ReasonSnapshot) (srv_world u) = (Ok x, w3)"
    and "v_backends vol = Some b" "bd_snapshot b = ''ceph''"
  shows "\<exists>a t'. fval (srv_world s1) = (fval (srv_world s))(snapshot_key c (p @ slash @ n) \<mapsto> []) \<and>
    snapshot_callback c ''set'' (Node (snapshot_key c (p @ slash @ n)) False [] []) = ret (Some a) \<and>
    signalSnapshot c a t = (Ok (), t') \<and> su_tasks t' = su_tasks t @ [SnapshotNow vol] \<and>
    (fval (srv_world t') = (fval (srv_world t))(snapshot_key c (p @ slash @ n) := None) \<or> fval (srv_world t') = fval (srv_world t)) \<and>
    (fst (RemoveTakeSnapshot c (p @ slash @ n) w2) = Ok () \<longrightarrow>
       fval (srv_world t') = (fval (srv_world t))(snapshot_key c (p @ slash @ n) := None)) \<and>
    srv_world (snd (run_task c (SnapshotNow vol) u)) =
      snd (ceph_CreateSnapshot c (h_time_string c w3) (snapshot_options vol (g_timeout (srv_global u))) w3)"
proof -
  let ?name = "p @ slash @ n" and ?a = "\<lparr>wa_key = p @ slash @ n, wa_config = NoConfig\<rparr>"
  have vs: "Volume_String vol = ?name" using assms(3,4,10,11) path_join_names by (simp add: Volume_String_def name_valid_plain)
  have "snapshot_callback c ''set'' (Node (snapshot_key c ?name) False [] []) = ret (Some ?a)"
    using snapshot_signal_key [OF assms(2-4)] by (simp add: snapshot_callback_def)
  moreover have "split2 CHR ''/'' ?name = [p, n]" using assms(3) by (simp add: split2_append name_valid_def)
  moreover obtain q w4 where q: "RemoveTakeSnapshot c ?name w2 = (q, w4)" by force
  note gone = RemoveTakeSnapshot_cases [OF assms(1) q]
  let ?t1 = "t\<lparr>srv_world := w2, su_tasks := su_tasks t @ [SnapshotNow vol]\<rparr>"
  have "inner (RemoveTakeSnapshot c ?name) ?t1 = (q, ?t1\<lparr>srv_world := w4\<rparr>)" by (rule inner_run) (use q in simp)
  ultimately have "signalSnapshot c ?a t = (Ok (), ?t1\<lparr>srv_world := w4\<rparr>)"
    using inner_run [where m = "cfg_GetVolume c p n" and s = t, OF assms(9)] gone
    by (auto simp: signalSnapshot_def spawn_def vs)
  moreover have "fval w2 = fval (srv_world t)" by (rule keepsD [OF reads_GetVolume [OF assms(1)] assms(9)])
  moreover note snapshot_request_signal [OF assms(1,7,8)] snapshot_task_run [of c vol u x w3 b]
  ultimately show ?thesis
    using assms(5,6,12-14) gone q \<open>snapshot_callback c _ _ = _\<close>
    by (intro exI [of _ ?a] exI [of _ "?t1\<lparr>srv_world := w4\<rparr>"]) (auto simp: vs)
qed


definition asking :: request where
  "asking = \<lparr>rq_content = [], rq_error = None, rq_vars = [(''policy'', ''gold''), (''volume'', ''db'')]\<rparr>"

definition silver_srv :: "machine srv" where
  "silver_srv = daemon (snd (cfg_PublishVolume (machine_host 1) silver machine_start))"

theorem snapshot_request_served_witness:
  "\<exists>s1 a t'. handleSnapshotTake (machine_host 1) asking silver_srv = (Ok (), s1) \<and>
     snapshot_callback (machine_host 1) ''set'' (Node (snapshot_key (machine_host 1) ''gold/db'') False [] []) = ret (Some a) \<and>
     signalSnapshot (machine_host 1) a (supervisor1 (srv_world s1)) = (Ok (), t') \<and> su_tasks t' = [SnapshotNow silver]"
proof -
  let ?c = "machine_host 1"
  define s1 where "s1 = snd (handleSnapshotTake ?c asking silver_srv)"
  let ?w = "srv_world s1" and ?use = "UseSnapshot (''gold'' @ slash @ ''db'') ReasonSnapshot"
  have f: "fst (handleSnapshotTake ?c asking silver_srv) = Ok () \<and> srv_answers s1 = srv_answers silver_srv"
    unfolding s1_def by code_simp
  have "fst (cfg_GetVolume ?c ''gold'' ''db'' ?w) = Ok silver" "fst (PublishUse ?c ?use ?w) = Ok ()"
    unfolding s1_def by code_simp+
  then have g: "cfg_GetVolume ?c ''gold'' ''db'' (srv_world (supervisor1 ?w)) = (Ok silver, snd (cfg_GetVolume ?c ''gold'' ''db'' ?w))"
    "PublishUse ?c ?use (srv_world (supervisor1 ?w)) = (Ok (), snd (PublishUse ?c ?use ?w))"
    by (simp_all add: supervisor1_def NewSupervisor_def prod_eq_iff)
  have v: "v_policy silver = ''gold''" "v_name silver = ''db''" by (simp_all add: silver_def)
  have b: "v_backends silver = Some \<lparr>bd_crud = ''ceph'', bd_mount = ''ceph'', bd_snapshot = ''ceph''\<rparr>" by (simp add: silver_def)
  have n: "name_valid ''gold''" "name_valid ''db''" by (simp_all add: name_valid_def)
  have r: "route_var asking ''policy'' = ''gold''" "route_var asking ''volume'' = ''db''" by code_simp+
  have run: "handleSnapshotTake ?c asking silver_srv = (Ok (), s1)" "srv_answers s1 = srv_answers silver_srv"
    using f by (simp_all add: s1_def prod_eq_iff)
  have t: "su_tasks (supervisor1 ?w) = []" by (simp add: supervisor1_def NewSupervisor_def)
  from snapshot_request_served [OF machine.etcd_axioms machine_prefix n r run g(1) v g(2) b]
  show ?thesis using run(1) t by auto
qed

end
