(* ===== verification/Json_Indent.thy ===== *)
theory Json_Indent imports Json begin

text \<open>
  \<open>json.MarshalIndent\<close>, in which \<open>volcli\<close> prints what it was answered, and the proof that the printed text is read back
  as the value that was printed.
\<close>

text \<open>\<open>json.MarshalIndent(v, "", "  ")\<close>\<close>

definition new_line :: "nat \<Rightarrow> string" where
  "new_line n = CHR 0x0A # concat (replicate n ''  '')"

fun indented :: "nat \<Rightarrow> json \<Rightarrow> string"
  and indented_elems :: "nat \<Rightarrow> json list \<Rightarrow> string"
  and indented_members :: "nat \<Rightarrow> (string \<times> json) list \<Rightarrow> string" where
  "indented n (JArr xs) = (if xs = [] then ''[]'' else ''['' @ indented_elems (n + 1) xs @ new_line n @ '']'')"
| "indented n (JObj ms) = (if ms = [] then ''{}'' else ''{'' @ indented_members (n + 1) ms @ new_line n @ ''}'')"
| "indented n j = render j"
| "indented_elems n [] = []"
| "indented_elems n [x] = new_line n @ indented n x"
| "indented_elems n (x # y # ys) = new_line n @ indented n x @ '','' @ indented_elems n (y # ys)"
| "indented_members n [] = []"
| "indented_members n [(k, v)] = new_line n @ render_str k @ '': '' @ indented n v"
| "indented_members n ((k, v) # m # ms) =
     new_line n @ render_str k @ '': '' @ indented n v @ '','' @ indented_members n (m # ms)"

definition ppJSON :: "json \<Rightarrow> string" where
  "ppJSON v = indented 0 v"

section \<open>Reading it back\<close>

lemma skip_ws_new_line: "skip_ws (new_line n @ s) = skip_ws s"
proof -
  have "skip_ws (concat (replicate n ''  '') @ s) = skip_ws s"
    by (induction n) (simp_all add: skip_ws_def is_ws_def)
  then show ?thesis by (simp add: new_line_def skip_ws_def is_ws_def)
qed

lemma token_ws:
  "token c (new_line n @ s) = token c s" "token c (CHR '' '' # s) = token c s"
  by (simp_all add: token_def skip_ws_new_line) (simp add: skip_ws_def is_ws_def)

lemma skip_ws_space: "skip_ws (CHR '' '' # s) = skip_ws s"
  by (simp add: skip_ws_def is_ws_def)

lemma parse_value_ws:
  "parse_value k (new_line n @ s) = parse_value k s" "parse_value k (CHR '' '' # s) = parse_value k s"
  by (cases k; simp only: parse_value.simps token_ws skip_ws_new_line skip_ws_space)+

lemma parse_ws:
  "parse_elems k (new_line n @ s) = parse_elems k s" "parse_members k (new_line n @ s) = parse_members k s"
  by (cases k; simp add: parse_value_ws token_ws del: parse_value.simps)+

lemma value_end_new_line [simp]: "value_end (new_line n @ s)"
  by (simp add: new_line_def value_end_def num_char_def is_digit_def)

lemma indented_scalar: "(\<And>xs. j \<noteq> JArr xs) \<Longrightarrow> (\<And>ms. j \<noteq> JObj ms) \<Longrightarrow> indented n j = render j"
  by (cases j) auto

lemma indented_start:
  assumes "wf_json j"
  shows "\<exists>c t. indented n j = c # t \<and> \<not> is_ws c \<and> c \<noteq> CHR '']'' \<and> c \<noteq> CHR ''}''"
  using render_start [OF assms] by (cases j) (auto simp: punctuation_not_ws)

lemma indented_elems_start:
  assumes "list_all wf_json xs" "xs \<noteq> []"
  shows "token CHR '']'' (indented_elems n xs @ rest) = None"
proof -
  obtain x ys where xs: "xs = x # ys" using assms(2) by (cases xs) auto
  obtain c t where "indented n x = c # t" "\<not> is_ws c" "c \<noteq> CHR '']''"
    using indented_start [of x n] assms(1) xs by auto
  then show ?thesis by (cases ys) (simp_all add: xs tokens token_ws)
qed

lemma indented_members_start:
  assumes "ms \<noteq> []"
  shows "token CHR ''}'' (indented_members n ms @ rest) = None"
proof -
  obtain k v ys where "ms = (k, v) # ys" using assms by (cases ms) auto
  then show ?thesis by (cases ys) (simp_all add: tokens token_ws render_str_def)
qed

lemma parse_indented_steps:
  "wf_json j \<Longrightarrow> need j \<le> k \<Longrightarrow> value_end rest \<Longrightarrow> parse_value k (indented n j @ rest) = Some (j, rest)"
  "list_all wf_json xs \<Longrightarrow> xs \<noteq> [] \<Longrightarrow> need_elems xs \<le> k \<Longrightarrow>
     parse_elems k (indented_elems n xs @ new_line l @ CHR '']'' # rest) = Some (xs, rest)"
  "list_all (\<lambda>p. wf_json (snd p)) ms \<Longrightarrow> ms \<noteq> [] \<Longrightarrow> need_members ms \<le> k \<Longrightarrow>
     parse_members k (indented_members n ms @ new_line l @ CHR ''}'' # rest) = Some (ms, rest)"
proof (induction n j and n xs and n ms arbitrary: k rest and k l rest and k l rest
    rule: indented_indented_elems_indented_members.induct)
  case (1 n xs)
  obtain m where k: "k = Suc m" using "1.prems"(2) by (cases k) auto
  show ?case
  proof (cases "xs = []")
    case False
    then have "parse_elems m (indented_elems (n + 1) xs @ new_line n @ CHR '']'' # rest) = Some (xs, rest)"
      using "1.IH" "1.prems" k by simp
    moreover have "token CHR '']'' (indented_elems (n + 1) xs @ new_line n @ CHR '']'' # rest) = None"
      using indented_elems_start False "1.prems"(1) by simp
    ultimately show ?thesis using False by (simp add: k tokens)
  qed (simp add: k tokens)
next
  case (2 n ms)
  obtain m where k: "k = Suc m" using "2.prems"(2) by (cases k) auto
  show ?case
  proof (cases "ms = []")
    case False
    then have "parse_members m (indented_members (n + 1) ms @ new_line n @ CHR ''}'' # rest) = Some (ms, rest)"
      using "2.IH" "2.prems" k by simp
    moreover have "token CHR ''}'' (indented_members (n + 1) ms @ new_line n @ CHR ''}'' # rest) = None"
      using indented_members_start False by simp
    ultimately show ?thesis using False by (simp add: k tokens)
  qed (simp add: k tokens)
next
  case (5 n x)
  obtain m where k: "k = Suc m" using "5.prems"(3) by (cases k) auto
  have "parse_value m (indented n x @ new_line l @ CHR '']'' # rest) = Some (x, new_line l @ CHR '']'' # rest)"
    using "5.IH" "5.prems" k by simp
  then show ?case by (simp add: k tokens token_ws parse_value_ws)
next
  case (6 n x y ys)
  obtain m where k: "k = Suc m" using "6.prems"(3) by (cases k) auto
  have "parse_value m (indented n x @ CHR '','' # indented_elems n (y # ys) @ new_line l @ CHR '']'' # rest)
      = Some (x, CHR '','' # indented_elems n (y # ys) @ new_line l @ CHR '']'' # rest)"
    using "6.IH"(1) "6.prems" k by (simp add: value_end_punct)
  moreover have "parse_elems m (indented_elems n (y # ys) @ new_line l @ CHR '']'' # rest) = Some (y # ys, rest)"
    using "6.IH"(2) "6.prems" k by simp
  ultimately show ?case by (simp add: k tokens parse_value_ws)
next
  case (8 n ky v)
  obtain m where k: "k = Suc m" using "8.prems"(3) by (cases k) auto
  have "parse_value m (indented n v @ new_line l @ CHR ''}'' # rest) = Some (v, new_line l @ CHR ''}'' # rest)"
    using "8.IH" "8.prems" k by simp
  then show ?case by (simp add: k tokens token_ws parse_value_ws render_str_def parse_str_render)
next
  case (9 n ky v m0 ms)
  obtain m where k: "k = Suc m" using "9.prems"(3) by (cases k) auto
  have "parse_value m (indented n v @ CHR '','' # indented_members n (m0 # ms) @ new_line l @ CHR ''}'' # rest)
      = Some (v, CHR '','' # indented_members n (m0 # ms) @ new_line l @ CHR ''}'' # rest)"
    using "9.IH"(1) "9.prems" k by (simp add: value_end_punct)
  moreover have "parse_members m (indented_members n (m0 # ms) @ new_line l @ CHR ''}'' # rest) = Some (m0 # ms, rest)"
    using "9.IH"(2) "9.prems" k by simp
  ultimately show ?case by (simp add: k tokens token_ws parse_value_ws render_str_def parse_str_render)
qed (simp_all add: parse_render_steps(1) del: parse_value.simps render.simps)

lemma indented_longer:
  "length (render j) \<le> length (indented n j)"
  "length (render_elems xs) \<le> length (indented_elems n xs)"
  "length (render_members ms) \<le> length (indented_members n ms)"
  by (induction n j and n xs and n ms rule: indented_indented_elems_indented_members.induct) auto

lemma parse_ppJSON:
  assumes "wf_json j"
  shows "parse (ppJSON j) = Some j"
proof -
  have "need j \<le> Suc (length (indented 0 j))"
    using need_bound(1) [OF assms] indented_longer(1) [of j 0] by linarith
  then have "parse_value (Suc (length (indented 0 j))) (indented 0 j @ []) = Some (j, [])"
    by (intro parse_indented_steps(1)) (simp_all add: assms value_end_def)
  then show ?thesis by (simp add: parse_def ppJSON_def skip_ws_def del: parse_value.simps)
qed

end
