(* ===== verification/Volcli.thy ===== *)
theory Volcli imports Control Lock Watch Net Json_Indent begin

text \<open>
  \<open>volcli\<close>: the command line client of the administrator. A command checks its arguments, sends one request to
  the API server (or works on etcd itself) and prints the answer.
\<close>

section \<open>The context of a command\<close>

text \<open>The flags, global and of the command, and the arguments (\<open>cli.Context\<close>).\<close>

record ctx =
  cx_args :: "string list"
  cx_apiserver :: string
  cx_prefix :: string
  cx_etcd :: "string list"
  cx_opt :: "string list"
  cx_timeout :: string
  cx_force :: bool
  cx_snapshots :: bool
  cx_snapshot :: bool

text \<open>
  What the commands reach beside the terminal: \<open>net/http\<close> (the check of a request's URL, and the exchange of a
  request for a response), the etcd client and a shell run in a pseudo terminal.
\<close>

record 'w remote =
  rm_new :: "http_method \<Rightarrow> string \<Rightarrow> goerr option"
  rm_do :: "http_method \<Rightarrow> string \<Rightarrow> string \<Rightarrow> ('w, goerr, response) io"
  rm_connect :: "string list \<Rightarrow> 'w client res"
  rm_shell :: "string \<Rightarrow> ('w, goerr, unit) io"

definition splitVolume :: "ctx \<Rightarrow> (string \<times> string) option" where
  "splitVolume x =
     (case split2 CHR ''/'' (hd (cx_args x)) of
        [policy, volume] \<Rightarrow> if policy = [] \<or> volume = [] then None else Some (policy, volume)
      | _ \<Rightarrow> None)"

definition bad_syntax :: goerr where "bad_syntax = Fresh ''Invalid syntax''"

text \<open>\<open>policy, volume, err := splitVolume(ctx)\<close> with the answer to an error; the number of arguments comes first.\<close>

definition with_args :: "nat \<Rightarrow> ctx \<Rightarrow> ('w, unit) action \<Rightarrow> ('w, unit) action" where
  "with_args n x k = (if length (cx_args x) \<noteq> n then bad_args else k)"

definition with_volume :: "ctx \<Rightarrow> (string \<Rightarrow> string \<Rightarrow> ('w, unit) action) \<Rightarrow> ('w, unit) action" where
  "with_volume x k = (case splitVolume x of None \<Rightarrow> fail (True, bad_syntax) | Some (policy, volume) \<Rightarrow> k policy volume)"

section \<open>Requests\<close>

text \<open>\<open>fmt.Sprintf("http://%s/...")\<close> over the address of the API server.\<close>

definition api_url :: "ctx \<Rightarrow> string list \<Rightarrow> string" where
  "api_url x ps = ''http://'' @ cx_apiserver x @ ''/'' @ join slash ps"

definition http_Get :: "'w remote \<Rightarrow> string \<Rightarrow> ('w, response) action" where
  "http_Get h url = failing (rm_do h GET url [])"

definition http_Post :: "'w remote \<Rightarrow> string \<Rightarrow> string \<Rightarrow> ('w, response) action" where
  "http_Post h url body = failing (rm_do h POST url body)"

definition deleteRequest :: "'w remote \<Rightarrow> string \<Rightarrow> string \<Rightarrow> ('w, response) action" where
  "deleteRequest h url body =
     (case rm_new h DELETE url of
        Some err \<Rightarrow> fail (False, Plain ''failed to prepare request'')
      | None \<Rightarrow> failing (rm_do h DELETE url body))"

text \<open>\<open>ioutil.ReadAll(resp.Body)\<close>, and a body that is copied to the standard error.\<close>

definition read_body :: "response \<Rightarrow> ('w, string) action" where
  "read_body resp = failing (lift (case rs_error resp of None \<Rightarrow> Ok (rs_body resp) | Some e \<Rightarrow> Err e))"

definition copy_body :: "'w console \<Rightarrow> response \<Rightarrow> ('w, goerr, unit) io" where
  "copy_body t resp =
     andThen (con_stderr t (rs_body resp)) (\<lambda>_. lift (case rs_error resp of None \<Rightarrow> Ok () | Some e \<Rightarrow> Err e))"

text \<open>The block that every command has for a status other than 200.\<close>

definition check_status :: "'w console \<Rightarrow> response \<Rightarrow> ('w, unit) action" where
  "check_status t resp =
     (if rs_status resp \<noteq> 200 then
        attempt (copy_body t resp) (\<lambda>err. fail (False, Fresh ''Error copying body''))
          (\<lambda>_. fail (False, Fresh ''Response Status Code was not 200''))
      else ret ())"

definition check_found :: "response \<Rightarrow> ('w, unit) action" where
  "check_found resp = (if rs_status resp = 404 then fail (False, Fresh ''Volume no longer exists.'') else ret ())"

definition decode :: "'a res \<Rightarrow> ('w, 'a) action" where
  "decode r = failing (lift r)"

section \<open>JSON\<close>

text \<open>\<open>json.Unmarshal\<close> into a slice of structs and into a slice of strings; \<open>null\<close> is the nil slice.\<close>

fun fill_all :: "(string \<times> 'r field_dec) list \<Rightarrow> 'r \<Rightarrow> json list \<Rightarrow> 'r list option" where
  "fill_all fs z [] = Some []"
| "fill_all fs z (j # js) =
     (case fill fs j z of None \<Rightarrow> None | Some r \<Rightarrow> map_option ((#) r) (fill_all fs z js))"

definition unmarshal_list :: "(string \<times> 'r field_dec) list \<Rightarrow> 'r \<Rightarrow> string \<Rightarrow> 'r list res" where
  "unmarshal_list fs z s =
     (case parse s of
        None \<Rightarrow> Err (Plain ''invalid JSON'')
      | Some JNull \<Rightarrow> Ok []
      | Some (JArr js) \<Rightarrow> (case fill_all fs z js of None \<Rightarrow> Err (Plain ''cannot unmarshal'') | Some rs \<Rightarrow> Ok rs)
      | Some _ \<Rightarrow> Err (Plain ''cannot unmarshal''))"

fun get_strings :: "json list \<Rightarrow> string list option" where
  "get_strings [] = Some []"
| "get_strings (j # js) =
     (case get_string j [] of None \<Rightarrow> None | Some s \<Rightarrow> map_option ((#) s) (get_strings js))"

definition unmarshal_strings :: "string \<Rightarrow> string list res" where
  "unmarshal_strings s =
     (case parse s of
        None \<Rightarrow> Err (Plain ''invalid JSON'')
      | Some JNull \<Rightarrow> Ok []
      | Some (JArr js) \<Rightarrow> (case get_strings js of None \<Rightarrow> Err (Plain ''cannot unmarshal'') | Some ss \<Rightarrow> Ok ss)
      | Some _ \<Rightarrow> Err (Plain ''cannot unmarshal''))"

definition request_json :: "VolumeRequest \<Rightarrow> json" where
  "request_json r = JObj (field ''name'' (JStr (vr_name r)) @ field ''policy'' (JStr (vr_policy r)) @
     field ''options'' (json_smap_opt (vr_options r)))"

section \<open>Global configuration\<close>

definition queryGlobalConfig :: "'w remote \<Rightarrow> ctx \<Rightarrow> ('w, Global) action" where
  "queryGlobalConfig h x =
     andThen (http_Get h (api_url x [''global''])) (\<lambda>resp.
     andThen (read_body resp) (\<lambda>content.
       if rs_status resp \<noteq> 200 then fail (False, Fresh ''Status code was not 200'')
       else decode (NewGlobalConfigFromJSON content)))"

definition globalGet :: "'w remote \<Rightarrow> 'w console \<Rightarrow> ctx \<Rightarrow> ('w, unit) action" where
  "globalGet h t x =
     with_args 0 x (andThen (queryGlobalConfig h x) (\<lambda>global. print t (ppJSON (global_json global))))"

definition globalUpload :: "'w remote \<Rightarrow> 'w console \<Rightarrow> ctx \<Rightarrow> ('w, unit) action" where
  "globalUpload h t x =
     with_args 0 x
       (andThen (failing (con_stdin t)) (\<lambda>content.
        andThen (decode (unmarshal global_fields content NewGlobalConfig)) (\<lambda>global.
        andThen (http_Post h (api_url x [''global'']) content) (\<lambda>resp. check_status t resp))))"

section \<open>Policies\<close>

definition policyUpload :: "'w remote \<Rightarrow> 'w console \<Rightarrow> ctx \<Rightarrow> ('w, unit) action" where
  "policyUpload h t x =
     with_args 1 x
       (andThen (failing (con_stdin t)) (\<lambda>content.
        andThen (decode (unmarshal policy_fields content NewPolicy)) (\<lambda>policy.
        andThen (http_Post h (api_url x [''policies'', cx_args x ! 0]) content) (\<lambda>resp. check_status t resp))))"

definition policyDelete :: "'w remote \<Rightarrow> 'w console \<Rightarrow> ctx \<Rightarrow> ('w, unit) action" where
  "policyDelete h t x =
     with_args 1 x
       (andThen (deleteRequest h (api_url x [''policies'', cx_args x ! 0]) []) (\<lambda>resp.
        andThen (check_status t resp) (\<lambda>_. print t ([CHR 0x22] @ cx_args x ! 0 @ [CHR 0x22] @ '' removed!''))))"

definition policyGet :: "'w remote \<Rightarrow> 'w console \<Rightarrow> ctx \<Rightarrow> ('w, unit) action" where
  "policyGet h t x =
     with_args 1 x
       (andThen (http_Get h (api_url x [''policies'', cx_args x ! 0])) (\<lambda>resp.
        andThen (check_status t resp) (\<lambda>_. andThen (read_body resp) (print t))))"

definition policyList :: "'w remote \<Rightarrow> 'w console \<Rightarrow> ctx \<Rightarrow> ('w, unit) action" where
  "policyList h t x =
     with_args 0 x
       (andThen (http_Get h (api_url x [''policies''])) (\<lambda>resp.
        andThen (check_status t resp) (\<lambda>_.
        andThen (read_body resp) (\<lambda>content.
        andThen (decode (unmarshal_list policy_fields NewPolicy content)) (\<lambda>policies. print_all t (map p_name policies))))))"

definition policyGetRevision :: "'w remote \<Rightarrow> 'w console \<Rightarrow> ctx \<Rightarrow> ('w, unit) action" where
  "policyGetRevision h t x =
     with_args 2 x
       (andThen (http_Get h (api_url x [''policy-archives'', cx_args x ! 0, cx_args x ! 1])) (\<lambda>resp.
        andThen (check_status t resp) (\<lambda>_. andThen (read_body resp) (print t))))"

definition policyListRevisions :: "'w remote \<Rightarrow> 'w console \<Rightarrow> ctx \<Rightarrow> ('w, unit) action" where
  "policyListRevisions h t x =
     with_args 1 x
       (andThen (http_Get h (api_url x [''policy-archives'', cx_args x ! 0])) (\<lambda>resp.
        andThen (check_status t resp) (\<lambda>_.
        andThen (read_body resp) (\<lambda>content.
        andThen (decode (unmarshal_strings content)) (print_all t)))))"

text \<open>
  \<open>policy watch\<close> prints the policy and the revision of every change it is sent; the changes sent are the argument.
  A value that is no pair makes the type assertion panic.
\<close>

fun print_changes :: "'w console \<Rightarrow> watch list \<Rightarrow> ('w, unit) action" where
  "print_changes t [] = ret ()"
| "print_changes t (w # ws) =
     (case wa_config w of
        RevisionConfig name revision \<Rightarrow>
          andThen (print t (name @ [CHR 0x09] @ revision)) (\<lambda>_. print_changes t ws)
      | _ \<Rightarrow> panic ''interface conversion'')"

definition policyWatch :: "'w remote \<Rightarrow> 'w console \<Rightarrow> ('w client \<Rightarrow> watch list) \<Rightarrow> ctx \<Rightarrow> ('w, unit) action" where
  "policyWatch h t activity x =
     with_args 0 x
       (andThen (failing (NewClient (rm_connect h) (cx_prefix x) (cx_etcd x))) (\<lambda>cfg. print_changes t (activity cfg)))"

section \<open>Volumes\<close>

fun parse_opts :: "string list \<Rightarrow> smap \<Rightarrow> smap option" where
  "parse_opts [] opts = Some opts"
| "parse_opts (str # strs) opts =
     (case split2 CHR ''='' str of
        [k, v] \<Rightarrow> parse_opts strs (smap_put k v opts)
      | _ \<Rightarrow> None)"

text \<open>An error of the request is formatted with \<open>resp.Status\<close>, of a response that is nil.\<close>

definition volumeCreate :: "'w remote \<Rightarrow> 'w console \<Rightarrow> ctx \<Rightarrow> ('w, unit) action" where
  "volumeCreate h t x =
     with_args 1 x (with_volume x (\<lambda>policy volume.
       case parse_opts (cx_opt x) [] of
         None \<Rightarrow> fail (False, Fresh ''Mismatched option pair'')
       | Some opts \<Rightarrow>
           attempt (rm_do h POST (api_url x [''volumes'', ''create''])
               (render (request_json \<lparr>vr_name = volume, vr_policy = policy, vr_options = Some opts\<rparr>)))
             (\<lambda>err. panic nil_deref) (\<lambda>resp. check_status t resp)))"

definition volumeGet :: "'w remote \<Rightarrow> 'w console \<Rightarrow> ctx \<Rightarrow> ('w, unit) action" where
  "volumeGet h t x =
     with_args 1 x (with_volume x (\<lambda>policy volume.
       andThen (http_Get h (api_url x [''volumes'', policy, volume])) (\<lambda>resp.
       andThen (check_found resp) (\<lambda>_.
       andThen (check_status t resp) (\<lambda>_.
       andThen (read_body resp) (\<lambda>content.
       andThen (decode (unmarshal volume_fields content zero_volume)) (\<lambda>vol.
         print t (ppJSON (volume_json vol)))))))))"

definition volumeForceRemove :: "'w remote \<Rightarrow> 'w console \<Rightarrow> ctx \<Rightarrow> ('w, unit) action" where
  "volumeForceRemove h t x =
     with_args 1 x (with_volume x (\<lambda>policy volume.
       andThen (deleteRequest h (api_url x [''volumes'', ''removeforce''])
           (render (request_json \<lparr>vr_name = volume, vr_policy = policy, vr_options = None\<rparr>))) (\<lambda>resp.
       andThen (check_found resp) (\<lambda>_. check_status t resp))))"

definition remove_options :: "ctx \<Rightarrow> smap" where
  "remove_options x =
     smap_put ''timeout'' (cx_timeout x) (smap_put ''force'' (if cx_force x then ''true'' else ''false'') [])"

definition volumeRemove :: "'w remote \<Rightarrow> 'w console \<Rightarrow> ctx \<Rightarrow> ('w, unit) action" where
  "volumeRemove h t x =
     with_args 1 x (with_volume x (\<lambda>policy volume.
       if ParseDuration (cx_timeout x) = None \<and> cx_timeout x \<noteq> []
       then fail (False, Fresh '' is not a valid timeout'')
       else
         andThen (deleteRequest h (api_url x [''volumes'', ''remove''])
             (render (request_json \<lparr>vr_name = volume, vr_policy = policy, vr_options = Some (remove_options x)\<rparr>))) (\<lambda>resp.
         andThen (check_found resp) (\<lambda>_. check_status t resp))))"

definition volumeList :: "'w remote \<Rightarrow> 'w console \<Rightarrow> ctx \<Rightarrow> ('w, unit) action" where
  "volumeList h t x =
     with_args 1 x
       (andThen (http_Get h (api_url x [''volumes'', cx_args x ! 0])) (\<lambda>resp.
        andThen (check_status t resp) (\<lambda>_.
        andThen (read_body resp) (\<lambda>content.
        andThen (decode (unmarshal_list volume_fields zero_volume content)) (\<lambda>volumes. print_all t (map v_name volumes))))))"

definition volumeSnapshotTake :: "'w remote \<Rightarrow> 'w console \<Rightarrow> ctx \<Rightarrow> ('w, unit) action" where
  "volumeSnapshotTake h t x =
     with_args 1 x (with_volume x (\<lambda>policy volume.
       andThen (http_Post h (api_url x [''snapshots'', ''take'', policy, volume]) []) (\<lambda>resp. check_status t resp)))"

definition copy_options :: "string \<Rightarrow> string \<Rightarrow> smap" where
  "copy_options volume2 snapName = smap_put ''target'' volume2 (smap_put ''snapshot'' snapName [])"

definition volumeSnapshotCopy :: "'w remote \<Rightarrow> 'w console \<Rightarrow> ctx \<Rightarrow> ('w, unit) action" where
  "volumeSnapshotCopy h t x =
     with_args 3 x (with_volume x (\<lambda>policy volume1.
       andThen (http_Post h (api_url x [''volumes'', ''copy''])
           (render (request_json \<lparr>vr_name = volume1, vr_policy = policy,
              vr_options = Some (copy_options (cx_args x ! 2) (cx_args x ! 1))\<rparr>))) (\<lambda>resp.
       andThen (check_status t resp) (\<lambda>_.
       attempt (read_body resp) (\<lambda>(help, e). fail (False, Combine (Fresh ''Reading body processing response'') e)) (\<lambda>content.
       attempt (lift (unmarshal volume_fields content zero_volume)) (\<lambda>e. fail (False, Combine UnmarshalVolume e)) (\<lambda>vol.
         print t (join slash [v_policy vol, v_name vol])))))))"

definition volumeSnapshotList :: "'w remote \<Rightarrow> 'w console \<Rightarrow> ctx \<Rightarrow> ('w, unit) action" where
  "volumeSnapshotList h t x =
     with_args 1 x (with_volume x (\<lambda>policy volume.
       andThen (http_Get h (api_url x [''snapshots'', policy, volume])) (\<lambda>resp.
       andThen (check_status t resp) (\<lambda>_.
       andThen (read_body resp) (\<lambda>content.
       andThen (decode (unmarshal_strings content)) (print_all t))))))"

definition volumeListAll :: "'w remote \<Rightarrow> 'w console \<Rightarrow> ctx \<Rightarrow> ('w, unit) action" where
  "volumeListAll h t x =
     with_args 0 x
       (andThen (http_Get h (api_url x [''volumes'', []])) (\<lambda>resp.
        andThen (check_status t resp) (\<lambda>_.
        andThen (read_body resp) (\<lambda>content.
        andThen (decode (unmarshal_list volume_fields zero_volume content)) (\<lambda>volumes.
          print_all t (map (\<lambda>v. v_policy v @ ''/'' @ v_name v) volumes))))))"

definition volumeRuntimeGet :: "'w remote \<Rightarrow> 'w console \<Rightarrow> ctx \<Rightarrow> ('w, unit) action" where
  "volumeRuntimeGet h t x =
     with_args 1 x (with_volume x (\<lambda>policy volume.
       andThen (http_Get h (api_url x [''runtime'', policy, volume])) (\<lambda>resp.
       andThen (check_status t resp) (\<lambda>_.
       andThen (read_body resp) (\<lambda>content.
       andThen (decode (unmarshal runtime_fields content zero_runtime)) (\<lambda>runtime.
         print t (ppJSON (runtime_json runtime))))))))"

definition volumeRuntimeUpload :: "'w remote \<Rightarrow> 'w console \<Rightarrow> ctx \<Rightarrow> ('w, unit) action" where
  "volumeRuntimeUpload h t x =
     with_args 1 x (with_volume x (\<lambda>policy volume.
       andThen (failing (con_stdin t)) (\<lambda>content.
       andThen (decode (unmarshal runtime_fields content zero_runtime)) (\<lambda>runtime.
       andThen (http_Post h (api_url x [''runtime'', policy, volume]) content) (\<lambda>resp. check_status t resp)))))"

section \<open>Uses\<close>

text \<open>A host whose etcd is the one of a client.\<close>

definition on_client :: "('w, 'z) host_scheme \<Rightarrow> 'w client \<Rightarrow> ('w, 'z) host_scheme" where
  "on_client c cfg = c\<lparr>kv_get := kv_get cfg, kv_set := kv_set cfg, kv_del := kv_del cfg, c_prefix := c_prefix cfg\<rparr>"

definition use_volume :: "string \<Rightarrow> string \<Rightarrow> Volume" where
  "use_volume policy volume = zero_volume\<lparr>v_policy := policy, v_name := volume\<rparr>"

definition connect :: "'w remote \<Rightarrow> ctx \<Rightarrow> ('w, 'w client) action" where
  "connect h x = failing (NewClient (rm_connect h) (cx_prefix x) (cx_etcd x))"

definition useList :: "'w remote \<Rightarrow> 'w console \<Rightarrow> ctx \<Rightarrow> ('w, unit) action" where
  "useList h t x =
     with_args 0 x
       (andThen (connect h x) (\<lambda>cfg.
        andThen (failing (ListUses cfg (if cx_snapshots x then ''snapshot'' else ''mount''))) (print_all t)))"

definition useGet :: "'w remote \<Rightarrow> 'w console \<Rightarrow> ctx \<Rightarrow> ('w, unit) action" where
  "useGet h t x =
     with_args 1 x (with_volume x (\<lambda>policy volume.
       andThen (connect h x) (\<lambda>cfg.
       andThen (failing (GetUse cfg (if cx_snapshot x then UseSnapshot [] [] else UseMount [] [] []) (use_volume policy volume)))
         (\<lambda>ul. print t (ppJSON (use_json ul))))))"

text \<open>The two locks are removed whatever they hold; what cannot be removed is reported and left.\<close>

definition force_use :: "'w console \<Rightarrow> 'w client \<Rightarrow> use \<Rightarrow> ('w, unit) action" where
  "force_use t cfg u =
     attempt (RemoveUse cfg u True) (\<lambda>err. regardless (con_stderr t ''Trouble removing lock (may be harmless)'') (ret ())) ret"

definition useTheForce :: "'w remote \<Rightarrow> 'w console \<Rightarrow> ctx \<Rightarrow> ('w, unit) action" where
  "useTheForce h t x =
     with_args 1 x (with_volume x (\<lambda>policy volume.
       andThen (connect h x) (\<lambda>cfg.
       andThen (force_use t cfg (UseMount (Volume_String (use_volume policy volume)) [] [])) (\<lambda>_.
         force_use t cfg (UseSnapshot (Volume_String (use_volume policy volume)) [])))))"

text \<open>The command to run: the arguments after the volume, without a leading \<open>--\<close>.\<close>

definition exec_words :: "string list \<Rightarrow> string list option" where
  "exec_words args =
     (if hd args = ''--'' then (if length args < 2 then None else Some (tl args)) else Some args)"

definition exec_locks :: "Volume \<Rightarrow> string \<Rightarrow> use list" where
  "exec_locks vc host =
     [UseMount (Volume_String vc) host ReasonMaintenance, UseSnapshot (Volume_String vc) ReasonMaintenance]"

definition useExec :: "('w, 'z) host_scheme \<Rightarrow> 'w remote \<Rightarrow> 'w console \<Rightarrow> ctx \<Rightarrow> ('w, unit) action" where
  "useExec c h t x =
     (if length (cx_args x) < 2 then bad_args
      else with_volume x (\<lambda>policy volume.
        andThen (connect h x) (\<lambda>cfg.
        andThen (failing (h_hostname c)) (\<lambda>host.
        case exec_words (tl (cx_args x)) of
          None \<Rightarrow> fail (True, Fresh ''You must supply a command to run'')
        | Some args \<Rightarrow>
            failing (ExecuteWithMultiUseLock (on_client c cfg) (exec_locks (use_volume policy volume) host) (-1)
              (rm_shell h (join '' '' args)))))))"

section \<open>The commands\<close>

text \<open>
  What an action of the table is run with; the changes \<open>policy watch\<close> is sent are a part of it. Each runs its
  function and ends the process at an error.
\<close>

record 'w setting =
  st_host :: "'w host"
  st_remote :: "'w remote"
  st_console :: "'w console"
  st_activity :: "'w client \<Rightarrow> watch list"

type_synonym 'w cli_action = "'w setting \<Rightarrow> ctx \<Rightarrow> ('w, goerr, unit) io"

definition GlobalGet :: "'w cli_action" where
  "GlobalGet s x = execCliAndExit (st_console s) (globalGet (st_remote s) (st_console s) x)"

definition GlobalUpload :: "'w cli_action" where
  "GlobalUpload s x = execCliAndExit (st_console s) (globalUpload (st_remote s) (st_console s) x)"

definition PolicyUpload :: "'w cli_action" where
  "PolicyUpload s x = execCliAndExit (st_console s) (policyUpload (st_remote s) (st_console s) x)"

definition PolicyDelete :: "'w cli_action" where
  "PolicyDelete s x = execCliAndExit (st_console s) (policyDelete (st_remote s) (st_console s) x)"

definition PolicyGet :: "'w cli_action" where
  "PolicyGet s x = execCliAndExit (st_console s) (policyGet (st_remote s) (st_console s) x)"

definition PolicyList :: "'w cli_action" where
  "PolicyList s x = execCliAndExit (st_console s) (policyList (st_remote s) (st_console s) x)"

definition PolicyGetRevision :: "'w cli_action" where
  "PolicyGetRevision s x = execCliAndExit (st_console s) (policyGetRevision (st_remote s) (st_console s) x)"

definition PolicyListRevisions :: "'w cli_action" where
  "PolicyListRevisions s x = execCliAndExit (st_console s) (policyListRevisions (st_remote s) (st_console s) x)"

definition PolicyWatch :: "'w cli_action" where
  "PolicyWatch s x = execCliAndExit (st_console s) (policyWatch (st_remote s) (st_console s) (st_activity s) x)"

definition VolumeCreate :: "'w cli_action" where
  "VolumeCreate s x = execCliAndExit (st_console s) (volumeCreate (st_remote s) (st_console s) x)"

definition VolumeGet :: "'w cli_action" where
  "VolumeGet s x = execCliAndExit (st_console s) (volumeGet (st_remote s) (st_console s) x)"

definition VolumeForceRemove :: "'w cli_action" where
  "VolumeForceRemove s x = execCliAndExit (st_console s) (volumeForceRemove (st_remote s) (st_console s) x)"

definition VolumeRemove :: "'w cli_action" where
  "VolumeRemove s x = execCliAndExit (st_console s) (volumeRemove (st_remote s) (st_console s) x)"

definition VolumeList :: "'w cli_action" where
  "VolumeList s x = execCliAndExit (st_console s) (volumeList (st_remote s) (st_console s) x)"

definition VolumeSnapshotTake :: "'w cli_action" where
  "VolumeSnapshotTake s x = execCliAndExit (st_console s) (volumeSnapshotTake (st_remote s) (st_console s) x)"

definition VolumeSnapshotCopy :: "'w cli_action" where
  "VolumeSnapshotCopy s x = execCliAndExit (st_console s) (volumeSnapshotCopy (st_remote s) (st_console s) x)"

definition VolumeSnapshotList :: "'w cli_action" where
  "VolumeSnapshotList s x = execCliAndExit (st_console s) (volumeSnapshotList (st_remote s) (st_console s) x)"

definition VolumeListAll :: "'w cli_action" where
  "VolumeListAll s x = execCliAndExit (st_console s) (volumeListAll (st_remote s) (st_console s) x)"

definition UseList :: "'w cli_action" where
  "UseList s x = execCliAndExit (st_console s) (useList (st_remote s) (st_console s) x)"

definition UseGet :: "'w cli_action" where
  "UseGet s x = execCliAndExit (st_console s) (useGet (st_remote s) (st_console s) x)"

definition UseTheForce :: "'w cli_action" where
  "UseTheForce s x = execCliAndExit (st_console s) (useTheForce (st_remote s) (st_console s) x)"

definition UseExec :: "'w cli_action" where
  "UseExec s x = execCliAndExit (st_console s) (useExec (st_host s) (st_remote s) (st_console s) x)"

definition VolumeRuntimeGet :: "'w cli_action" where
  "VolumeRuntimeGet s x = execCliAndExit (st_console s) (volumeRuntimeGet (st_remote s) (st_console s) x)"

definition VolumeRuntimeUpload :: "'w cli_action" where
  "VolumeRuntimeUpload s x = execCliAndExit (st_console s) (volumeRuntimeUpload (st_remote s) (st_console s) x)"

definition GlobalFlags :: "(string \<times> string) list" where
  "GlobalFlags = [(''prefix'', ''/volplugin''), (''etcd'', ''http://localhost:2379''), (''apiserver'', ''127.0.0.1:9005'')]"

definition global_commands :: "'w cli_action command" where
  "global_commands = Group ''global'' [Command ''upload'' [] GlobalUpload, Command ''get'' [] GlobalGet]"

definition policy_commands :: "'w cli_action command" where
  "policy_commands =
     Group ''policy''
       [Command ''upload'' [] PolicyUpload, Command ''delete'' [] PolicyDelete, Command ''get'' [] PolicyGet,
        Command ''list'' [] PolicyList,
        Group ''history'' [Command ''get'' [] PolicyGetRevision, Command ''list'' [] PolicyListRevisions],
        Command ''watch'' [] PolicyWatch]"

definition volume_commands :: "'w cli_action command" where
  "volume_commands =
     Group ''volume''
       [Command ''create'' [(''opt'', [])] VolumeCreate, Command ''get'' [] VolumeGet, Command ''list'' [] VolumeList,
        Command ''list-all'' [] VolumeListAll, Command ''force-remove'' [] VolumeForceRemove,
        Command ''remove'' [(''timeout, t'', []), (''force, f'', ''false'')] VolumeRemove,
        Group ''snapshot''
          [Command ''take'' [] VolumeSnapshotTake, Command ''list'' [] VolumeSnapshotList, Command ''copy'' [] VolumeSnapshotCopy],
        Group ''runtime'' [Command ''get'' [] VolumeRuntimeGet, Command ''upload'' [] VolumeRuntimeUpload]]"

definition use_commands :: "'w cli_action command" where
  "use_commands =
     Group ''use''
       [Command ''list'' [(''snapshots'', ''false'')] UseList, Command ''get'' [(''snapshot'', ''false'')] UseGet,
        Command ''force-remove'' [] UseTheForce, Command ''exec'' [] UseExec]"

definition Commands :: "'w cli_action command list" where
  "Commands = [global_commands, policy_commands, volume_commands, use_commands]"

end
