(* ===== verification/Migrate.thy ===== *)
theory Migrate imports Backend Cli begin

text \<open>
  \<open>volmigrate\<close>: the command that brings the keys of an installation from one schema version to the next. The
  registry of the migrations, the backend they run against as an interface, its implementation on etcd, and the
  loop that runs the pending ones and records each in the key of the schema version.
\<close>

section \<open>backend/backend.go\<close>

definition SchemaVersionKey :: string where "SchemaVersionKey = ''schema-version''"

record 'w backend =
  bk_name :: string
  bk_current :: "('w, goerr, int) io"
  bk_create_dir :: "string \<Rightarrow> ('w, goerr, unit) io"
  bk_create_key :: "string \<Rightarrow> string \<Rightarrow> ('w, goerr, unit) io"
  bk_delete_dir :: "string \<Rightarrow> ('w, goerr, unit) io"
  bk_delete_key :: "string \<Rightarrow> ('w, goerr, unit) io"
  bk_update :: "int \<Rightarrow> ('w, goerr, unit) io"

section \<open>backend/etcd2/etcd2.go\<close>

text \<open>\<open>logrus.Fatalf\<close> ends the process.\<close>

definition engine_key :: "('w, 'z) client_scheme \<Rightarrow> string \<Rightarrow> string" where
  "engine_key e target = path_join [c_prefix e, target]"

definition CurrentSchemaVersion :: "('w, 'z) client_scheme \<Rightarrow> ('w, goerr, int) io" where
  "CurrentSchemaVersion e =
     attempt (kv_get e (engine_key e SchemaVersionKey) get_nil)
       (\<lambda>err. if EtcdToErrored err = NotExists then ret 0 else panic ''Unexpected error when looking up schema version'')
       (\<lambda>n. case parse_int 64 (n_value n) of
          None \<Rightarrow> panic ''Got back unexpected schema version data''
        | Some i \<Rightarrow> ret i)"

definition engine_CreateDirectory :: "('w, 'z) client_scheme \<Rightarrow> string \<Rightarrow> ('w, goerr, unit) io" where
  "engine_CreateDirectory e target =
     attempt (kv_set e (engine_key e target) [] (set_nil\<lparr>so_dir := True\<rparr>))
       (\<lambda>err. fail (Fresh ''Failed to create directory'')) (\<lambda>_. ret ())"

text \<open>The error of \<open>CreateKey\<close> is made and dropped.\<close>

definition engine_CreateKey :: "('w, 'z) client_scheme \<Rightarrow> string \<Rightarrow> string \<Rightarrow> ('w, goerr, unit) io" where
  "engine_CreateKey e target contents = regardless (kv_set e (engine_key e target) contents set_nil) (ret ())"

definition engine_DeleteDirectory :: "('w, 'z) client_scheme \<Rightarrow> string \<Rightarrow> ('w, goerr, unit) io" where
  "engine_DeleteDirectory e target =
     attempt (kv_del e (engine_key e target) (del_nil\<lparr>do_dir := True, do_recursive := True\<rparr>))
       (\<lambda>err. fail (Fresh ''Failed to delete directory'')) (\<lambda>_. ret ())"

definition engine_DeleteKey :: "('w, 'z) client_scheme \<Rightarrow> string \<Rightarrow> ('w, goerr, unit) io" where
  "engine_DeleteKey e target =
     attempt (kv_del e (engine_key e target) del_nil) (\<lambda>err. fail (Fresh ''Failed to delete key'')) (\<lambda>_. ret ())"

definition UpdateSchemaVersion :: "('w, 'z) client_scheme \<Rightarrow> int \<Rightarrow> ('w, goerr, unit) io" where
  "UpdateSchemaVersion e newVersion =
     andThen (CurrentSchemaVersion e) (\<lambda>currentVersion.
       if newVersion \<le> currentVersion then panic ''Cowardly refusing to update schema version''
       else attempt (kv_set e (engine_key e SchemaVersionKey) (format_int newVersion) set_nil)
         (\<lambda>err. fail (Fresh ''Failed to update schema version key'')) (\<lambda>_. ret ()))"

definition etcd2_engine :: "('w, 'z) client_scheme \<Rightarrow> 'w backend" where
  "etcd2_engine e =
     \<lparr>bk_name = ''etcd2'', bk_current = CurrentSchemaVersion e, bk_create_dir = engine_CreateDirectory e,
      bk_create_key = engine_CreateKey e, bk_delete_dir = engine_DeleteDirectory e, bk_delete_key = engine_DeleteKey e,
      bk_update = UpdateSchemaVersion e\<rparr>"

section \<open>migration.go\<close>

record 'w migration =
  mg_version :: int
  mg_description :: string
  mg_runner :: "'w backend \<Rightarrow> ('w, goerr, unit) io"

definition Migration_Run :: "'w migration \<Rightarrow> 'w backend \<Rightarrow> ('w, goerr, unit) io" where
  "Migration_Run m b =
     attempt (mg_runner m b) (\<lambda>err. fail (Combine (Fresh ''Encountered error during migration'') err)) (\<lambda>_.
     attempt (bk_update b (mg_version m))
       (\<lambda>err. fail (Combine (Fresh ''Successfully applied migration but failed to update schema version key'') err)) ret)"

section \<open>schema_migrations.go\<close>

record 'w migrations =
  availableMigrations :: "int \<Rightarrow> 'w migration option"
  latestMigrationVersion :: int

definition no_migrations :: "'w migrations" where
  "no_migrations = \<lparr>availableMigrations = Map.empty, latestMigrationVersion = 0\<rparr>"

definition registerMigration ::
  "int \<Rightarrow> string \<Rightarrow> ('w backend \<Rightarrow> ('w, goerr, unit) io) \<Rightarrow> 'w migrations \<Rightarrow> 'w migrations res" where
  "registerMigration version description f reg =
     (if version < 1 then Panic ''Migration versions must be > 0''
      else if version \<noteq> latestMigrationVersion reg + 1 then Panic ''Expected another version''
      else if availableMigrations reg version \<noteq> None then Panic ''Version is already in use by another migration''
      else Ok \<lparr>availableMigrations = (availableMigrations reg)(version \<mapsto>
                 \<lparr>mg_version = version, mg_description = description, mg_runner = f\<rparr>),
               latestMigrationVersion = version\<rparr>)"

definition registerMigrations :: "'w migrations res" where
  "registerMigrations = registerMigration 1 ''Create initial schema version key'' (\<lambda>b. ret ()) no_migrations"

section \<open>volmigrate.go\<close>

text \<open>The versions from 1 to the latest one, with the number of migrations run; a missing one is a nil pointer.\<close>

fun run_pending :: "'w migrations \<Rightarrow> 'w backend \<Rightarrow> int \<Rightarrow> int \<Rightarrow> int list \<Rightarrow> nat \<Rightarrow> ('w, goerr, nat) io" where
  "run_pending reg b currentVersion targetVersion [] migrationsRun = ret migrationsRun"
| "run_pending reg b currentVersion targetVersion (i # is) migrationsRun =
     (case availableMigrations reg i of
        None \<Rightarrow> panic nil_deref
      | Some m \<Rightarrow>
          if currentVersion \<ge> mg_version m then run_pending reg b currentVersion targetVersion is migrationsRun
          else if mg_version m > targetVersion then ret migrationsRun
          else andThen (Migration_Run m b) (\<lambda>_. run_pending reg b currentVersion targetVersion is (migrationsRun + 1)))"

definition runMigrationsUpTo :: "'w migrations \<Rightarrow> 'w backend \<Rightarrow> int \<Rightarrow> ('w, goerr, nat) io" where
  "runMigrationsUpTo reg b targetVersion =
     andThen (bk_current b) (\<lambda>currentVersion.
       run_pending reg b currentVersion targetVersion [1..latestMigrationVersion reg] 0)"

definition runAllMigrations :: "'w migrations \<Rightarrow> 'w backend \<Rightarrow> ('w, goerr, nat) io" where
  "runAllMigrations reg b = runMigrationsUpTo reg b (latestMigrationVersion reg)"

text \<open>The answer is read from the terminal, with its newline; anything but yes ends the process.\<close>

definition promptBeforeRunning :: "'w console \<Rightarrow> bool \<Rightarrow> string \<Rightarrow> ('w, 'e, unit) io" where
  "promptBeforeRunning t silent msg =
     (if silent then ret ()
      else andThen (print t msg) (\<lambda>_. andThen (print t ''Are you sure you want to continue? y/n'') (\<lambda>_.
        attempt (con_line t) (\<lambda>err. panic ''Failed to read input from stdin'') (\<lambda>text.
          if butlast (map lower_char text) \<noteq> ''yes'' \<and> butlast (map lower_char text) \<noteq> ''y''
          then andThen (print t ''Aborting.'') (\<lambda>_. panic ''exit status 1'') else ret ()))))"

definition runMigrations ::
  "'w console \<Rightarrow> 'w migrations \<Rightarrow> 'w backend \<Rightarrow> bool \<Rightarrow> string list \<Rightarrow> ('w, nat) action" where
  "runMigrations t reg e silent args =
     (case args of
        [] \<Rightarrow> andThen (promptBeforeRunning t silent ''You have requested to run all pending migrations.'')
                (\<lambda>_. failing (runAllMigrations reg e))
      | a # _ \<Rightarrow>
          (case parse_int 64 a of
             None \<Rightarrow> fail (True, Fresh ''Invalid migration version'')
           | Some targetVersion \<Rightarrow>
               if targetVersion < 1 \<or> targetVersion > latestMigrationVersion reg
               then fail (False, Fresh ''outside valid migration range'')
               else andThen (promptBeforeRunning t silent
                        (''You have requested to run all pending migrations up to and including #'' @ format_int targetVersion @ ''.''))
                      (\<lambda>_. failing (runMigrationsUpTo reg e targetVersion))))"

fun list_lines :: "'w console \<Rightarrow> 'w migrations \<Rightarrow> int list \<Rightarrow> ('w, unit) action" where
  "list_lines t reg [] = ret ()"
| "list_lines t reg (i # is) =
     (case availableMigrations reg i of
        None \<Rightarrow> panic nil_deref
      | Some m \<Rightarrow> andThen (print t (format_int (mg_version m) @ '' - '' @ mg_description m)) (\<lambda>_. list_lines t reg is))"

definition listMigrations :: "'w console \<Rightarrow> 'w migrations \<Rightarrow> string list \<Rightarrow> ('w, unit) action" where
  "listMigrations t reg args = (if args \<noteq> [] then bad_args else list_lines t reg [1..latestMigrationVersion reg])"

definition showVersions :: "'w console \<Rightarrow> 'w migrations \<Rightarrow> 'w backend \<Rightarrow> string list \<Rightarrow> ('w, unit) action" where
  "showVersions t reg e args =
     (if args \<noteq> [] then bad_args
      else andThen (failing (bk_current e)) (\<lambda>v.
        andThen (print t (''Current local schema version: '' @ format_int v)) (\<lambda>_.
          print t (''Newest available schema version: '' @ format_int (latestMigrationVersion reg)))))"

section \<open>commands.go\<close>

text \<open>The actions of the commands, given the terminal, the registry, the engine, the flag \<open>silent\<close> and the arguments.\<close>

type_synonym 'w migrate_action =
  "'w console \<Rightarrow> 'w migrations \<Rightarrow> 'w backend \<Rightarrow> bool \<Rightarrow> string list \<Rightarrow> ('w, goerr, unit) io"

definition ListMigrations :: "'w migrate_action" where
  "ListMigrations t reg e silent args = execCliAndExit t (listMigrations t reg args)"

definition RunMigrations :: "'w migrate_action" where
  "RunMigrations t reg e silent args = execCliAndExit t (runMigrations t reg e silent args)"

definition ShowVersions :: "'w migrate_action" where
  "ShowVersions t reg e silent args = execCliAndExit t (showVersions t reg e args)"

definition migrate_GlobalFlags :: "(string \<times> string) list" where
  "migrate_GlobalFlags = [(''silent'', ''false''), (''prefix'', ''/volplugin''), (''etcd'', ''http://localhost:2379'')]"

definition migrate_Commands :: "'w migrate_action command list" where
  "migrate_Commands =
     [Command ''list'' [] ListMigrations, Command ''run'' [] RunMigrations, Command ''version'' [] ShowVersions]"

section \<open>The registry\<close>

text \<open>The versions registered are dense from 1, and each is filed under its own number.\<close>

definition dense :: "'w migrations \<Rightarrow> bool" where
  "dense reg \<longleftrightarrow> 0 \<le> latestMigrationVersion reg \<and>
     (\<forall>i. (availableMigrations reg i \<noteq> None \<longleftrightarrow> 1 \<le> i \<and> i \<le> latestMigrationVersion reg) \<and>
          (\<forall>m. availableMigrations reg i = Some m \<longrightarrow> mg_version m = i))"

lemma dense_register:
  assumes "dense reg" "registerMigration v d f reg = Ok reg'"
  shows "dense reg'" "latestMigrationVersion reg' = latestMigrationVersion reg + 1"
proof -
  have reg': "reg' = \<lparr>availableMigrations = (availableMigrations reg)(v \<mapsto> \<lparr>mg_version = v, mg_description = d, mg_runner = f\<rparr>),
      latestMigrationVersion = v\<rparr>" and v: "v = latestMigrationVersion reg + 1"
    using assms(2) by (simp_all add: registerMigration_def split: if_splits)
  show "latestMigrationVersion reg' = latestMigrationVersion reg + 1" by (simp add: reg' v)
  have old: "availableMigrations reg i \<noteq> None \<longleftrightarrow> 1 \<le> i \<and> i \<le> latestMigrationVersion reg" "0 \<le> latestMigrationVersion reg"
    "availableMigrations reg i = Some m \<Longrightarrow> mg_version m = i" for i m
    using assms(1) by (simp_all add: dense_def)
  have "availableMigrations reg' i \<noteq> None \<longleftrightarrow> 1 \<le> i \<and> i \<le> latestMigrationVersion reg'" for i
    unfolding reg' v using old(1) [of i] old(2) by (cases "i = latestMigrationVersion reg + 1") auto
  moreover have "mg_version m = i" if "availableMigrations reg' i = Some m" for i m
    using that old(3) [of i m] unfolding reg' v by (auto split: if_splits)
  ultimately show "dense reg'" using old(2) unfolding dense_def by (simp add: reg' v)
qed

lemma dense_registered: "registerMigrations = Ok reg \<Longrightarrow> dense reg"
  unfolding registerMigrations_def by (rule dense_register) (auto simp: dense_def no_migrations_def)

section \<open>What the loop relies on of its backend\<close>

text \<open>
  \<open>ver\<close> is the schema version of a world. Reading it changes it not; recording a version succeeds only
  upwards and may, when the reply is lost, have happened all the same.
\<close>

locale versioned =
  fixes b :: "'w backend"
    and ver :: "'w \<Rightarrow> int option"
  assumes current_ok: "bk_current b w = (Ok v, w') \<Longrightarrow> ver w = Some v \<and> ver w' = ver w"
    and current_keeps: "bk_current b w = (q, w') \<Longrightarrow> ver w' = ver w"
    and update_ok: "bk_update b n w = (Ok (), w') \<Longrightarrow> - (2 ^ 63) \<le> n \<Longrightarrow> n < 2 ^ 63 \<Longrightarrow> ver w' = Some n \<and> (\<exists>v < n. ver w = Some v)"
    and update_any: "bk_update b n w = (r, w') \<Longrightarrow> - (2 ^ 63) \<le> n \<Longrightarrow> n < 2 ^ 63 \<Longrightarrow> ver w' = ver w \<or> ver w' = Some n"
begin

lemma run_any:
  assumes "Migration_Run m b w = (r, w')" "\<And>w r w'. mg_runner m b w = (r, w') \<Longrightarrow> ver w' = ver w"
    and "- (2 ^ 63) \<le> mg_version m" "mg_version m < 2 ^ 63"
  shows "ver w' = ver w \<or> ver w' = Some (mg_version m)" "r = Ok u \<Longrightarrow> ver w' = Some (mg_version m)"
proof -
  obtain r1 w1 where m: "mg_runner m b w = (r1, w1)" by fastforce
  have k: "ver w1 = ver w" by (rule assms(2) [OF m])
  obtain r2 w2 where u: "bk_update b (mg_version m) w1 = (r2, w2)" by fastforce
  show "ver w' = ver w \<or> ver w' = Some (mg_version m)"
    using assms(1) m u k update_any [OF u assms(3,4)] by (cases r1; cases r2) (auto simp: Migration_Run_def)
  assume "r = Ok u"
  then show "ver w' = Some (mg_version m)"
    using assms(1) m u update_ok [of "mg_version m" w1 w2] assms(3,4) by (cases r1; cases r2) (auto simp: Migration_Run_def)
qed

text \<open>
  The loop from a version on, whatever happens: the version goes up by the migrations run and never past the
  target.
\<close>

lemma pending_result:
  assumes "dense reg" "latestMigrationVersion reg < 2 ^ 63" "0 \<le> cur"
    and runners: "\<And>i m w r w'. availableMigrations reg i = Some m \<Longrightarrow> mg_runner m b w = (r, w') \<Longrightarrow> ver w' = ver w"
  shows "run_pending reg b cur target [i..latestMigrationVersion reg] n w = (r, w') \<Longrightarrow> 1 \<le> i \<Longrightarrow>
     ver w = Some v \<Longrightarrow> v = max cur (i - 1) \<Longrightarrow> i \<le> latestMigrationVersion reg + 1 \<Longrightarrow> i - 1 \<le> max cur target \<Longrightarrow>
     (\<exists>v'. ver w' = Some v' \<and> v \<le> v' \<and> v' \<le> max cur (min target (latestMigrationVersion reg)) \<and>
        (\<forall>k. r = Ok k \<longrightarrow> v' = max cur (min target (latestMigrationVersion reg)) \<and> int k = int n + (v' - v)))"
proof (induction "nat (latestMigrationVersion reg + 1 - i)" arbitrary: i n w v)
  case 0
  then have "i = latestMigrationVersion reg + 1" by simp
  with 0 show ?case by auto
next
  case (Suc d)
  let ?last = "latestMigrationVersion reg"
  have i: "i \<le> ?last" using Suc.hyps(2) by simp
  obtain m where m: "availableMigrations reg i = Some m" "mg_version m = i"
    using assms(1) Suc.prems(2) i unfolding dense_def by blast
  have list: "[i..?last] = i # [i + 1..?last]" using i by (rule upto_rec1)
  have d: "d = nat (?last + 1 - (i + 1))" using Suc.hyps(2) by simp
  note IH = Suc.hyps(1) [OF d]
  consider (skip) "i \<le> cur" | (past) "cur < i" "target < i" | (run) "cur < i" "i \<le> target" by linarith
  then show ?case
  proof cases
    case skip
    then have "run_pending reg b cur target [i + 1..?last] n w = (r, w')" using Suc.prems(1) m by (simp add: list)
    from IH [OF this _ Suc.prems(3)] skip i Suc.prems(2,4) show ?thesis by simp
  next
    case past
    then have "r = Ok n" "w' = w" using Suc.prems(1) m by (simp_all add: list)
    then show ?thesis using past Suc.prems i by auto
  next
    case run
    obtain r1 w1 where mr: "Migration_Run m b w = (r1, w1)" by fastforce
    have bound: "- (2 ^ 63) \<le> mg_version m" "mg_version m < 2 ^ 63" using m(2) i assms(2) Suc.prems(2) by linarith+
    have any: "ver w1 = ver w \<or> ver w1 = Some i"
      using run_any(1) [OF mr _ bound] runners [OF m(1)] m(2) by blast
    have done': "ver w1 = Some i" if "r1 = Ok u" for u
      using run_any(2) [OF mr _ bound that] runners [OF m(1)] m(2) by blast
    have v: "v = i - 1" using Suc.prems(4) run by simp
    show ?thesis
    proof (cases r1)
      case (Ok u)
      then have "run_pending reg b cur target [i + 1..?last] (n + 1) w1 = (r, w')"
        using Suc.prems(1) m mr run by (simp add: list)
      moreover have "ver w1 = Some i" by (rule done' [OF Ok])
      ultimately obtain v' where v': "ver w' = Some v'" "i \<le> v'" "v' \<le> max cur (min target ?last)"
        "\<forall>k. r = Ok k \<longrightarrow> v' = max cur (min target ?last) \<and> int k = int (n + 1) + (v' - i)"
        using IH [of "n + 1" w1 i] run i Suc.prems(2) by auto
      then show ?thesis using v by auto
    qed (use Suc.prems(1,3) m mr run any v i in \<open>auto simp: list\<close>)
  qed
qed

end

section \<open>The engine on etcd\<close>

text \<open>The schema version of a store that can be read.\<close>

definition stored_version :: "string option \<Rightarrow> int option" where
  "stored_version t = (case t of None \<Rightarrow> Some 0 | Some s \<Rightarrow> parse_int 64 s)"

lemma current_version:
  assumes "etcd c fval" "CurrentSchemaVersion c w = (r, w')"
  shows "fval w' = fval w" "r = Ok v \<Longrightarrow> stored_version (fval w (engine_key c SchemaVersionKey)) = Some v"
proof -
  let ?k = "engine_key c SchemaVersionKey"
  obtain r1 w1 where g: "kv_get c ?k get_nil w = (r1, w1)" by fastforce
  have k: "fval w1 = fval w" by (rule etcd.get_keeps [OF assms(1) g])
  have "fval w' = fval w \<and> (r = Ok v \<longrightarrow> stored_version (fval w ?k) = Some v)"
  proof (cases rule: etcd.get_cases [OF assms(1) g])
    case (1 n)
    with g have n: "kv_get c ?k get_nil w = (Ok n, w1)" by simp
    note val = etcd.get_ok [OF assms(1) n] etcd.get_dir [OF assms(1) n]
    have "parse_int 64 [] = None" by code_simp
    show ?thesis
      using assms(2) n k val \<open>parse_int 64 [] = None\<close> by (cases "n_dir n") (auto simp: CurrentSchemaVersion_def stored_version_def split: option.splits)
  next
    case (2 e)
    with g have e: "kv_get c ?k get_nil w = (Err e, w1)" by simp
    have "fval w ?k = None" if "EtcdToErrored e = NotExists"
      using EtcdToErrored_NotExists [OF that] etcd.get_missing [OF assms(1)] etcd.get_foreign [OF assms(1) e] e by auto
    then show ?thesis
      using assms(2) e k by (auto simp: CurrentSchemaVersion_def stored_version_def split: if_splits)
  qed
  then show "fval w' = fval w" "r = Ok v \<Longrightarrow> stored_version (fval w ?k) = Some v" by simp_all
qed

lemma update_version:
  assumes "etcd c fval" "UpdateSchemaVersion c n w = (r, w')" "- (2 ^ 63) \<le> n" "n < 2 ^ 63"
  shows "stored_version (fval w' (engine_key c SchemaVersionKey)) = stored_version (fval w (engine_key c SchemaVersionKey)) \<or>
      stored_version (fval w' (engine_key c SchemaVersionKey)) = Some n"
    "r = Ok () \<Longrightarrow> stored_version (fval w' (engine_key c SchemaVersionKey)) = Some n \<and>
      (\<exists>v < n. stored_version (fval w (engine_key c SchemaVersionKey)) = Some v)"
proof -
  let ?k = "engine_key c SchemaVersionKey"
  let ?s = "\<lambda>w. stored_version (fval w ?k)"
  obtain r1 w1 where cur: "CurrentSchemaVersion c w = (r1, w1)" by fastforce
  have k: "fval w1 = fval w" by (rule current_version(1) [OF assms(1) cur])
  have "(?s w' = ?s w \<or> ?s w' = Some n) \<and> (r = Ok () \<longrightarrow> ?s w' = Some n \<and> (\<exists>v < n. ?s w = Some v))"
  proof (cases "\<exists>v. r1 = Ok v \<and> v < n")
    case True
    then obtain v where v: "r1 = Ok v" "v < n" by blast
    have old: "?s w = Some v" using current_version(2) [OF assms(1) cur v(1)] .
    obtain r2 w2 where s: "kv_set c ?k (format_int n) set_nil w1 = (r2, w2)" by fastforce
    have new: "stored_version (Some (format_int n)) = Some n"
      using parse_int_format [of 64 n] assms(3,4) by (simp add: stored_version_def)
    have nd: "\<not> so_dir set_nil" by (simp add: set_nil_def)
    have "fval w2 = (fval w1)(?k \<mapsto> format_int n)" if "r2 = Ok x" for x
      using etcd.set_ok [OF assms(1), of ?k "format_int n" set_nil w1 x w2] s that nd by simp
    moreover have "fval w2 = fval w1 \<or> fval w2 = (fval w1)(?k \<mapsto> format_int n)" if "r2 = Err e" for e
      using etcd.set_unknown [OF assms(1), of ?k "format_int n" set_nil w1 e w2] s that nd by auto
    moreover have "(\<exists>x. r2 = Ok x) \<or> (\<exists>e. r2 = Err e)" by (rule etcd.set_cases [OF assms(1) s]) auto
    ultimately show ?thesis
      using assms(2) cur v s k old new by (auto simp: UpdateSchemaVersion_def)
  next
    case False
    then show ?thesis using assms(2) cur k by (cases r1) (auto simp: UpdateSchemaVersion_def)
  qed
  then show "?s w' = ?s w \<or> ?s w' = Some n" "r = Ok () \<Longrightarrow> ?s w' = Some n \<and> (\<exists>v < n. ?s w = Some v)" by blast+
qed

lemma etcd2_versioned:
  assumes "etcd c fval"
  shows "versioned (etcd2_engine c) (\<lambda>w. stored_version (fval w (engine_key c SchemaVersionKey)))"
proof unfold_locales
qed (auto simp: etcd2_engine_def dest: current_version [OF assms] update_version [OF assms])

interpretation machine_engine: versioned "etcd2_engine (machine_host n)"
    "\<lambda>w. stored_version (mem_file w (engine_key (machine_host n) SchemaVersionKey))"
  by (rule etcd2_versioned [OF machine.etcd_axioms])

section \<open>Properties\<close>

text \<open>
  C7. A run of the migrations up to a target, however it ends (an error of a migration or of the store, the end of the process),
  leaves a schema version that is neither lowered nor past the target, and a run that reports success leaves exactly
  the target (or the newer version there was) and has run one migration for each version gained. So a run can always be repeated.
\<close>

theorem migrations_resume:
  assumes "etcd c fval" "dense reg" "latestMigrationVersion reg < 2 ^ 63"
    and "\<forall>i m w r w'. availableMigrations reg i = Some m \<longrightarrow> mg_runner m (etcd2_engine c) w = (r, w') \<longrightarrow>
          fval w' (engine_key c SchemaVersionKey) = fval w (engine_key c SchemaVersionKey)"
    and "stored_version (fval w (engine_key c SchemaVersionKey)) = Some v" "0 \<le> v"
    and "runMigrationsUpTo reg (etcd2_engine c) target w = (r, w')"
  shows "\<exists>v'. stored_version (fval w' (engine_key c SchemaVersionKey)) = Some v' \<and> v \<le> v' \<and>
    v' \<le> max v (min target (latestMigrationVersion reg)) \<and>
    (\<forall>k. r = Ok k \<longrightarrow> v' = max v (min target (latestMigrationVersion reg)) \<and> int k = v' - v)"
proof -
  let ?b = "etcd2_engine c"
  obtain r1 w1 where cur: "bk_current ?b w = (r1, w1)" by fastforce
  have k: "fval w1 = fval w" and v: "\<And>x. r1 = Ok x \<Longrightarrow> x = v"
    using current_version [OF assms(1)] cur assms(5) by (auto simp: etcd2_engine_def)
  show ?thesis
  proof (cases "r1 = Ok v")
    case True
    then have run: "run_pending reg ?b v target [1..latestMigrationVersion reg] 0 w1 = (r, w')"
      using assms(7) cur by (simp add: runMigrationsUpTo_def)
    have le: "1 \<le> latestMigrationVersion reg + 1" "1 - 1 \<le> max v target" using assms(2,6) by (simp_all add: dense_def)
    have m: "v = max v (1 - 1)" using assms(6) by simp
    have runners: "stored_version (fval w' (engine_key c SchemaVersionKey)) = stored_version (fval w (engine_key c SchemaVersionKey))"
      if "availableMigrations reg i = Some m" "mg_runner m ?b w = (r, w')" for i m w r w'
      using assms(4) that by fastforce
    from versioned.pending_result [OF etcd2_versioned [OF assms(1)] assms(2,3,6) runners run _ _ m le] assms(5) k
    show ?thesis by simp
  next
    case False
    then show ?thesis using assms(5-7) cur k v by (cases r1) (auto simp: runMigrationsUpTo_def)
  qed
qed

text \<open>The migrations of the program, on an installation that was never migrated.\<close>

theorem migrations_resume_witness:
  "\<exists>reg r w'. registerMigrations = Ok reg \<and> runAllMigrations reg (etcd2_engine (machine_host 1)) machine_start = (r, w') \<and>
     r = Ok 1 \<and> stored_version (mem_file w' ''/volplugin/schema-version'') = Some 1"
proof -
  let ?m = "\<lparr>mg_version = 1, mg_description = ''Create initial schema version key'', mg_runner = (\<lambda>b. ret ())\<rparr> :: machine migration"
  define reg where "reg = \<lparr>availableMigrations = [1 \<mapsto> ?m], latestMigrationVersion = 1\<rparr>"
  have reg: "registerMigrations = Ok reg" "latestMigrationVersion reg = 1" "availableMigrations reg = [1 \<mapsto> ?m]"
    by (simp_all add: reg_def registerMigrations_def registerMigration_def no_migrations_def)
  let ?k = "engine_key (machine_host 1) SchemaVersionKey"
  have key: "?k = ''/volplugin/schema-version''" by code_simp
  obtain r w' where run: "runMigrationsUpTo reg (etcd2_engine (machine_host 1)) 1 machine_start = (r, w')" by fastforce
  have "fst (case registerMigrations of Ok (g :: machine migrations) \<Rightarrow> runAllMigrations g (etcd2_engine (machine_host 1)) machine_start
      | _ \<Rightarrow> (Hang, machine_start)) = Ok 1" by code_simp
  then have r: "r = Ok 1" using run by (simp add: reg runAllMigrations_def)
  have start: "stored_version (mem_file machine_start ?k) = Some 0" by code_simp
  have runners: "\<forall>i m w r w'. availableMigrations reg i = Some m \<longrightarrow> mg_runner m (etcd2_engine (machine_host 1)) w = (r, w') \<longrightarrow>
      mem_file w' ?k = mem_file w ?k"
    by (auto simp: reg)
  have bound: "latestMigrationVersion reg < 2 ^ 63" by (simp add: reg)
  from migrations_resume [OF machine.etcd_axioms dense_registered [OF reg(1)] bound runners start _ run] r
  have "stored_version (mem_file w' ?k) = Some 1" by (simp add: reg)
  then have "registerMigrations = Ok reg \<and> runAllMigrations reg (etcd2_engine (machine_host 1)) machine_start = (r, w') \<and>
      r = Ok 1 \<and> stored_version (mem_file w' ''/volplugin/schema-version'') = Some 1"
    using reg(1) run r by (simp only: runAllMigrations_def reg(2) key simp_thms)
  then show ?thesis by blast
qed

end
