(* ===== verification/Mains.thy ===== *)
theory Mains imports Composition Volcli Migrate begin

text \<open>
  The \<open>main\<close> functions of the three daemons: \<open>apiserver/apiserver/cli.go\<close>, \<open>volplugin/volplugin/cli.go\<close> and
  \<open>volsupervisor/volsupervisor/main.go\<close>: the flags they declare, the host name they ask for, and what they start. The
  parsing of the command line is the vendored package \<open>cli\<close>, whose values are an argument.
\<close>

section \<open>Flags\<close>

text \<open>A flag has a name, an environment variable that may give its value, and a default.\<close>

record flag =
  fl_name :: string
  fl_env :: "string option"
  fl_value :: string

definition plain_flag :: "string \<Rightarrow> string \<Rightarrow> flag" where
  "plain_flag name v = \<lparr>fl_name = name, fl_env = None, fl_value = v\<rparr>"

definition apiserver_Flags :: "flag list" where
  "apiserver_Flags =
     [\<lparr>fl_name = ''listen'', fl_env = Some ''LISTEN'', fl_value = '':9005''\<rparr>, plain_flag ''prefix'' ''/volplugin'',
      plain_flag ''etcd'' ''http://localhost:2379'']"

definition volplugin_Flags :: "string \<Rightarrow> flag list" where
  "volplugin_Flags host =
     [plain_flag ''plugin-name'' ''volcontiv'', plain_flag ''prefix'' ''/volplugin'', plain_flag ''etcd'' ''http://localhost:2379'',
      \<lparr>fl_name = ''host-label'', fl_env = Some ''HOSTLABEL'', fl_value = host\<rparr>]"

definition volsupervisor_Flags :: "string \<Rightarrow> flag list" where
  "volsupervisor_Flags host =
     [plain_flag ''prefix'' ''/volplugin'', plain_flag ''etcd'' ''http://localhost:2379'',
      \<lparr>fl_name = ''host-label'', fl_env = Some ''HOSTLABEL'', fl_value = host\<rparr>]"

text \<open>What the daemons read of the context of their command.\<close>

record daemon_ctx =
  dx_prefix :: string
  dx_etcd :: "string list"
  dx_host_label :: string
  dx_plugin_name :: string

section \<open>The three programs\<close>

text \<open>\<open>init\<close> of volplugin and volsupervisor.\<close>

definition init_host :: "('w, 'z) host_scheme \<Rightarrow> ('w, goerr, string) io" where
  "init_host c = attempt (h_hostname c) (\<lambda>err. panic ''Could not retrieve hostname'') ret"

text \<open>
  \<open>start\<close> of the API server. The tables of its routes are ranged over in any order; \<open>logrus.Fatal\<close> ends the process.
\<close>

definition apiserver_start ::
  "(string list \<Rightarrow> 'w client res) \<Rightarrow> ('w, 'z) host_scheme \<Rightarrow> (('w, 'z) host_scheme \<Rightarrow> 'w routes) \<Rightarrow> daemon_ctx
    \<Rightarrow> ('w, goerr, 'w srv \<times> 'w routes) io" where
  "apiserver_start dial c routers x =
     attempt (NewClient dial (dx_prefix x) (dx_etcd x)) (\<lambda>err. panic ''fatal'')
       (\<lambda>cl. let c' = connected cl c in apiserver_Daemon c' (routers c'))"

text \<open>\<open>run\<close> of volplugin: an error of the daemon is printed and the process ends with status 1.\<close>

definition volplugin_run ::
  "(string list \<Rightarrow> 'w client res) \<Rightarrow> ('w, 'z) host_scheme \<Rightarrow> 'w docker \<Rightarrow> 'w unix_socket \<Rightarrow> daemon_ctx \<Rightarrow> 'w
    \<Rightarrow> (goerr, unit) outcome \<times> 'w api" where
  "volplugin_run dial c dk u x w =
     (case NewDaemonConfig dial c (dx_prefix x) (dx_etcd x) (dx_plugin_name x) w of
        (Ok c', w') \<Rightarrow>
          (case volplugin_Daemon c' dk u (dx_plugin_name x) (dx_host_label x) w' of
             (Err e, s) \<Rightarrow> (Panic ''exit status 1'', s)
           | (r, s) \<Rightarrow> (r, s))
      | (Hang, w') \<Rightarrow> (Hang, NewAPI (dx_host_label x) NewGlobalConfig w')
      | (_, w') \<Rightarrow> (Panic ''fatal'', NewAPI (dx_host_label x) NewGlobalConfig w'))"

definition volsupervisor_main ::
  "(string list \<Rightarrow> 'w client res) \<Rightarrow> ('w, 'z) host_scheme \<Rightarrow> daemon_ctx \<Rightarrow> 'w \<Rightarrow> (goerr, unit) outcome \<times> 'w supervisor" where
  "volsupervisor_main dial c x = sup_Daemon dial c (dx_prefix x) (dx_etcd x) (dx_host_label x)"

section \<open>Lemmas\<close>

definition default_of :: "flag list \<Rightarrow> string \<Rightarrow> string option" where
  "default_of fs name = map_option fl_value (find (\<lambda>f. fl_name f = name) fs)"

text \<open>Without flags all five programs use the same store under the same prefix.\<close>

lemma one_store:
  assumes "name = ''prefix'' \<or> name = ''etcd''"
  shows "default_of apiserver_Flags name = map_of GlobalFlags name" "default_of (volplugin_Flags h) name = map_of GlobalFlags name"
    "default_of (volsupervisor_Flags h) name = map_of GlobalFlags name" "map_of migrate_GlobalFlags name = map_of GlobalFlags name"
  using assms
  by (auto simp: default_of_def apiserver_Flags_def volplugin_Flags_def volsupervisor_Flags_def plain_flag_def GlobalFlags_def
      migrate_GlobalFlags_def)

text \<open>A plugin that returns to its \<open>main\<close> at all has ended in an orderly way: every error ends the process.\<close>

lemma volplugin_run_no_error: "fst (volplugin_run dial c dk u x w) \<noteq> Err e"
  by (auto simp: volplugin_run_def split: prod.split outcome.split)

text \<open>A socket that cannot be listened on, or a mount the start cannot restore, ends volplugin.\<close>

lemma volplugin_run_ends:
  assumes "NewDaemonConfig dial c (dx_prefix x) (dx_etcd x) (dx_plugin_name x) w = (Ok c', w')"
    and "volplugin_start c' dk (dx_plugin_name x) (dx_host_label x) w' = (Err e, s)"
  shows "volplugin_run dial c dk u x w = (Panic ''exit status 1'', s)"
  using assms by (simp add: volplugin_run_def volplugin_Daemon_def)

end
