(* ===== verification/Api_Inv.thy ===== *)
theory Api_Inv imports Api_Answers begin

text \<open>
  The invariant of the plugin's state over all requests, refreshes, configuration updates and changes of
  the world by others.
\<close>

declare NewVolplugin_fields [simp del]

section \<open>The invariant\<close>

text \<open>
  \<open>unl\<close> tells which volumes are unlocked. Live mounts are filed under their volume; a registered stop
  channel belongs to the goroutine that refreshes this host's lock on a mounted, locked volume; and
  every refreshing goroutine can be stopped.
\<close>

definition api_ok :: "(string \<Rightarrow> bool) \<Rightarrow> 'w api \<Rightarrow> bool" where
  "api_ok unl s \<longleftrightarrow>
     (\<forall>v mc. a_mounts s v = Some mc \<longrightarrow> sv_name (mt_volume mc) = v) \<and>
     (\<forall>v i. a_stops s v = Some i \<longrightarrow> i < length (a_gos s) \<and> a_gos s ! i = Refreshing (mount_use v (a_hostname s)) \<and>
        a_mounts s v \<noteq> None \<and> \<not> unl v) \<and>
     (\<forall>i < length (a_gos s). \<forall>u. a_gos s ! i = Refreshing u \<longrightarrow> (\<exists>v. a_stops s v = Some i))"

definition keeps_ok :: "(string \<Rightarrow> bool) \<Rightarrow> 'w api \<Rightarrow> 'w api \<Rightarrow> bool" where
  "keeps_ok unl s s' \<longleftrightarrow> (api_ok unl s \<longrightarrow> api_ok unl s')"

lemma ok_same: "same_rest s s' \<Longrightarrow> api_ok unl s' = api_ok unl s"
  by (simp add: same_rest_def api_ok_def)

interpretation ok: api_frame "NewVolplugin c" "keeps_ok unl"
  by unfold_locales (auto simp: keeps_ok_def ok_same)

lemma api_okI:
  assumes "\<And>v mc. a_mounts s v = Some mc \<Longrightarrow> sv_name (mt_volume mc) = v"
    and "\<And>v i. a_stops s v = Some i \<Longrightarrow> i < length (a_gos s) \<and> a_gos s ! i = Refreshing (mount_use v (a_hostname s)) \<and>
        a_mounts s v \<noteq> None \<and> \<not> unl v"
    and "\<And>i u. i < length (a_gos s) \<Longrightarrow> a_gos s ! i = Refreshing u \<Longrightarrow> \<exists>v. a_stops s v = Some i"
  shows "api_ok unl s"
  using assms unfolding api_ok_def by blast

lemma api_okD:
  assumes "api_ok unl s"
  shows "a_mounts s v = Some mc \<Longrightarrow> sv_name (mt_volume mc) = v"
    and "a_stops s v = Some i \<Longrightarrow> i < length (a_gos s)"
    and "a_stops s v = Some i \<Longrightarrow> a_gos s ! i = Refreshing (mount_use v (a_hostname s))"
    and "a_stops s v = Some i \<Longrightarrow> a_mounts s v \<noteq> None"
    and "a_stops s v = Some i \<Longrightarrow> \<not> unl v"
    and "i < length (a_gos s) \<Longrightarrow> a_gos s ! i = Refreshing u \<Longrightarrow> \<exists>v. a_stops s v = Some i"
  using assms unfolding api_ok_def by blast+

lemma mount_use_inj [simp]: "mount_use v h = mount_use v' h' \<longleftrightarrow> v = v' \<and> h = h'"
  by (auto simp: mount_use_def)

lemma ok_counts [simp]: "api_ok unl (s\<lparr>a_counts := f\<rparr>) = api_ok unl s"
  by (simp add: api_ok_def)

lemma ok_counter: "keeps (keeps_ok unl) (counter_Add v)" "keeps (keeps_ok unl) (counter_Sub v)"
  by (auto simp: keeps_def keeps_ok_def counter_Sub_def Let_def)

lemma ok_stop:
  assumes "api_ok unl s"
  shows "api_ok unl (snd (RemoveStopChan v s))" "a_stops (snd (RemoveStopChan v s)) v = None"
proof -
  show "a_stops (snd (RemoveStopChan v s)) v = None"
    by (auto simp: RemoveStopChan_def Let_def stop_signal_def split: option.splits)
  show "api_ok unl (snd (RemoveStopChan v s))"
  proof (cases "a_stops s v")
    case None
    then have "snd (RemoveStopChan v s) = s\<lparr>a_stops := (a_stops s)(v := None)\<rparr>" by (simp add: RemoveStopChan_def)
    also have "\<dots> = s" using None by (simp add: fun_upd_idem)
    finally show ?thesis using assms by simp
  next
    case (Some i)
    note d = api_okD [OF assms]
    have i: "i < length (a_gos s)" "a_gos s ! i = Refreshing (mount_use v (a_hostname s))"
      using d(2,3) Some by auto
    have s': "snd (RemoveStopChan v s) = s\<lparr>a_gos := (a_gos s)[i := Stopping (mount_use v (a_hostname s))],
        a_stops := (a_stops s)(v := None)\<rparr>"
      using Some i by (simp add: RemoveStopChan_def stop_signal_def)
    show ?thesis
      unfolding s'
    proof (rule api_okI, goal_cases)
      case (1 v' mc)
      then show ?case using d(1) by simp
    next
      case (2 v' j)
      then have j: "a_stops s v' = Some j" "v' \<noteq> v" by (auto split: if_splits)
      then have "j \<noteq> i" using d(3) [OF j(1)] i by auto
      then show ?case using d(2-5) [OF j(1)] by simp
    next
      case (3 j u)
      then have j: "j \<noteq> i" "j < length (a_gos s)" "a_gos s ! j = Refreshing u"
        using i by (auto simp: nth_list_update split: if_splits)
      from d(6) [OF j(2,3)] obtain v' where v': "a_stops s v' = Some j" by blast
      then have "v' \<noteq> v" using Some j(1) by auto
      then show ?case using v' by auto
    qed
  qed
qed

lemma ok_unfile: "api_ok unl s \<Longrightarrow> a_stops s v = None \<Longrightarrow> api_ok unl (s\<lparr>a_mounts := (a_mounts s)(v := None)\<rparr>)"
  unfolding api_ok_def by auto

lemma ok_file:
  "api_ok unl s \<Longrightarrow> sv_name (mt_volume mc) = v \<Longrightarrow> api_ok unl (s\<lparr>a_mounts := (a_mounts s)(v \<mapsto> mc)\<rparr>)"
  unfolding api_ok_def by auto

lemma ok_refresh:
  assumes "api_ok unl s" "a_stops s v = None" "a_mounts s v \<noteq> None" "\<not> unl v" "startTTLRefresh c v s = (r, s')"
  shows "api_ok unl s'"
proof -
  obtain q w where acq: "AcquireWithTTLRefresh c (mount_use v (a_hostname s)) (srv_world s) = (q, w)" by force
  note inn = inner_run [where m = "AcquireWithTTLRefresh c (mount_use v (a_hostname s))", OF acq]
  have "s' = s\<lparr>srv_world := w\<rparr> \<or>
      s' = s\<lparr>srv_world := w, a_gos := a_gos s @ [Refreshing (mount_use v (a_hostname s))], a_stops := (a_stops s)(v \<mapsto> length (a_gos s))\<rparr>"
    using assms(5) inn by (cases q) (auto simp: startTTLRefresh_def start_refresh_def AddStopChan_def io_defs)
  then show ?thesis
  proof
    assume "s' = s\<lparr>srv_world := w\<rparr>"
    then show ?thesis using assms(1) by (simp add: api_ok_def)
  next
    assume s': "s' = s\<lparr>srv_world := w, a_gos := a_gos s @ [Refreshing (mount_use v (a_hostname s))], a_stops := (a_stops s)(v \<mapsto> length (a_gos s))\<rparr>"
    note d = api_okD [OF assms(1)]
    show ?thesis
      unfolding s'
    proof (rule api_okI, goal_cases)
      case (1 v' mc)
      then show ?case using d(1) by simp
    next
      case (2 v' i)
      show ?case
      proof (cases "v' = v")
        case True
        then show ?thesis using 2 assms(3,4) by (auto simp: nth_append)
      next
        case False
        then have "a_stops s v' = Some i" using 2 by simp
        then show ?thesis using d(2-5) [of v' i] by (simp add: nth_append)
      qed
    next
      case (3 i u)
      show ?case
      proof (cases "i < length (a_gos s)")
        case True
        then obtain v' where v': "a_stops s v' = Some i" using 3 d(6) [of i u] by (auto simp: nth_append)
        then have "v' \<noteq> v" using assms(2) by auto
        then show ?thesis using v' by auto
      next
        case False
        then show ?thesis using 3 by (auto simp: less_Suc_eq)
      qed
    qed
  qed
qed

section \<open>The handlers keep it\<close>

lemma parameters_OkE:
  assumes "GetStorageParameters c uc s = (Ok (d, v, opts), s1)"
  shows "mount_driver_contract d" "sv_name (d_volume opts) = Volume_String v" "same_rest s s1"
proof -
  show "same_rest s s1" by (rule keepsD [OF rest.parameters assms])
  from assms obtain b mp t where d: "NewMountDriver c b mp = Ok d" and o: "ToDriverOptions c v t = Ok opts"
    unfolding GetStorageParameters_def
    by (auto elim!: andThen_OkE attempt_OkE split: option.splits)
  show "mount_driver_contract d" by (rule NewMountDriver_contract [OF d])
  show "sv_name (d_volume opts) = Volume_String v"
    using o by (auto simp: ToDriverOptions_def split: prod.splits option.splits)
qed

text \<open>The steps after the driver has mounted the volume.\<close>

lemma ok_filed:
  assumes "sv_name (mt_volume mc) = v" "locked = (\<not> unl v)"
    and undo: "\<And>e. keeps (keeps_ok unl) (undo e)" and k: "\<And>u. keeps (keeps_ok unl) (k u)"
  shows "keeps (keeps_ok unl)
    (andThen (collection_Add mc) (\<lambda>_. attempt (if locked then startTTLRefresh c v else ret ()) undo k))"
proof (rule keepsI)
  fix s r s'
  assume run: "andThen (collection_Add mc) (\<lambda>_. attempt (if locked then startTTLRefresh c v else ret ()) undo k) s = (r, s')"
  show "keeps_ok unl s s'"
    unfolding keeps_ok_def
  proof
    assume ok: "api_ok unl s"
    show "api_ok unl s'"
    proof (cases "a_mounts s v")
      case (Some m)
      then have "s' = s" using run assms(1) by (auto simp: collection_Add_def io_defs)
      then show ?thesis using ok by simp
    next
      case None
      let ?s1 = "s\<lparr>a_mounts := (a_mounts s)(v \<mapsto> mc)\<rparr>"
      have ok1: "api_ok unl ?s1" by (rule ok_file [OF ok assms(1)])
      have stops: "a_stops ?s1 v = None" using api_okD(4) [OF ok, of v] None by (cases "a_stops s v") auto
      have run1: "attempt (if locked then startTTLRefresh c v else ret ()) undo k ?s1 = (r, s')"
        using run None assms(1) by simp
      obtain q s2 where m: "(if locked then startTTLRefresh c v else ret ()) ?s1 = (q, s2)" by force
      have ok2: "api_ok unl s2"
      proof (cases locked)
        case True
        then show ?thesis using ok_refresh [OF ok1 stops, of c q s2] m assms(2) by simp
      next
        case False
        then show ?thesis using m ok1 by simp
      qed
      show ?thesis
      proof (cases q)
        case (Ok u)
        then have "k u s2 = (r, s')" using run1 m by simp
        then show ?thesis using keepsD [OF k] ok2 by (auto simp: keeps_ok_def)
      next
        case (Err e)
        then have "undo e s2 = (r, s')" using run1 m by simp
        then show ?thesis using keepsD [OF undo] ok2 by (auto simp: keeps_ok_def)
      qed (use run1 m ok2 in auto)
    qed
  qed
qed

lemma ok_remove_stop: "keeps (keeps_ok unl) (RemoveStopChan v)"
  by (auto simp: keeps_def keeps_ok_def ok_stop)

lemma ok_mount_first:
  assumes "mount_driver_contract d" "sv_name (d_volume opts) = Volume_String v" "v_unlocked v = unl (Volume_String v)"
  shows "keeps (keeps_ok unl) (mount_first c (NewVolplugin c') d v opts ut)"
proof -
  have name: "sv_name (mt_volume mc) = Volume_String v" if "md_mount d opts w = (Ok mc, w')" for w mc w'
    using mount_driver_contract.mounts_volume [OF assms(1) that] assms(2) by simp
  have flip: "(if v_unlocked v then ret () else m) = (if \<not> v_unlocked v then m else ret ())" for m :: "('a, unit) handler"
    by simp
  show ?thesis
  proof (rule keepsI)
    fix s r s'
    assume run: "mount_first c (NewVolplugin c') d v opts ut s = (r, s')"
    obtain q s1 where m: "inner (md_mount d opts) s = (q, s1)" by force
    have k1: "keeps_ok unl s s1" by (rule keepsD [OF ok.world m])
    have k2: "keeps_ok unl s1 s'"
    proof (cases q)
      case (Ok mc)
      have mc: "sv_name (mt_volume mc) = Volume_String v" using m Ok by (auto elim!: inner_cases dest: name)
      show ?thesis
        by (rule keepsD [OF ok_filed [OF mc] run [unfolded mount_first_def Let_def attempt_Ok [where m = "inner (md_mount d opts)", OF m [unfolded Ok]] flip]])
          (auto simp: assms(3) intro!: ok.steps ok.clear ok.protocol ok_remove_stop)
    next
      case (Err e)
      show ?thesis
        by (rule keepsD [OF ok.clear run [unfolded mount_first_def Let_def attempt_Err [where m = "inner (md_mount d opts)", OF m [unfolded Err]]]])
    qed (use run m ok.refl in \<open>auto simp: mount_first_def Let_def\<close>)
    show "keeps_ok unl s s'" by (rule ok.trans [OF k1 k2])
  qed
qed

lemma ok_mount_volume:
  assumes "mount_driver_contract d" "sv_name (d_volume opts) = Volume_String v" "v_unlocked v = unl (Volume_String v)"
  shows "keeps (keeps_ok unl) (mount_volume c (NewVolplugin c') d v opts)"
  unfolding mount_volume_def Let_def
  by (auto intro!: ok.steps ok.hold ok.protocol ok_counter ok_mount_first assms)

text \<open>The volume leaves the collection and its refresher is stopped; an unlocked volume has none.\<close>

lemma ok_unfiled:
  assumes "v_unlocked v = unl (Volume_String v)" "\<And>u. keeps (keeps_ok unl) (k u)"
  shows "keeps (keeps_ok unl) (andThen (collection_Remove (Volume_String v)) (\<lambda>_.
    andThen (if v_unlocked v then ret () else RemoveStopChan (Volume_String v)) k))"
proof (rule keepsI)
  fix s r s'
  let ?v = "Volume_String v" and ?gone = "\<lambda>s. s\<lparr>a_mounts := (a_mounts s)(Volume_String v := None)\<rparr>"
  assume run: "andThen (collection_Remove ?v) (\<lambda>_. andThen (if v_unlocked v then ret () else RemoveStopChan ?v) k) s = (r, s')"
  show "keeps_ok unl s s'"
    unfolding keeps_ok_def
  proof
    assume ok: "api_ok unl s"
    have "\<exists>s1. api_ok unl s1 \<and> k () s1 = (r, s')"
    proof (cases "v_unlocked v")
      case True
      then have "a_stops s ?v = None" using api_okD(5) [OF ok] assms(1) by (cases "a_stops s ?v") auto
      then show ?thesis using ok_unfile [OF ok] run True by auto
    next
      case False
      have "RemoveStopChan ?v (?gone s) = (Ok (), ?gone (snd (RemoveStopChan ?v s)))"
        by (auto simp: RemoveStopChan_def Let_def stop_signal_def split: option.splits)
      then show ?thesis using ok_unfile [OF ok_stop(1) [OF ok] ok_stop(2) [OF ok]] run False by auto
    qed
    then show "api_ok unl s'" using keepsD [OF assms(2)] by (auto simp: keeps_ok_def)
  qed
qed

lemma ok_unmount_volume:
  assumes "v_unlocked v = unl (Volume_String v)"
  shows "keeps (keeps_ok unl) (unmount_volume c (NewVolplugin c') d v opts)"
proof -
  have choice: "keeps R (if b then m else m')" if "keeps R m" "keeps R m'" for R b and m m' :: "('a, unit) handler"
    using that by simp
  have reply: "keeps (keeps_ok unl) (attempt (lift q) (\<lambda>e. vp_HTTPError (NewVolplugin c') (f e)) (reply_mount (NewVolplugin c')))"
    for q :: "string res" and f
    by (auto intro!: ok.steps ok.protocol)
  show ?thesis
    unfolding unmount_volume_def Let_def
    by (rule keeps_reading, rule ok.attempts, rule ok.hold, rule ok.protocol, rule ok.thens, rule ok_counter,
        rule choice, rule reply, rule ok.attempts, rule ok.world, rule ok.protocol, rule ok_unfiled, rule assms, rule reply)
qed

text \<open>The volumes of the store have the modes that \<open>unl\<close> tells.\<close>

definition modes :: "('w, 'z) host_scheme \<Rightarrow> (string \<Rightarrow> bool) \<Rightarrow> 'w api \<Rightarrow> bool" where
  "modes c unl s \<longleftrightarrow> (\<forall>uc d v opts s1. GetStorageParameters c uc s = (Ok (d, v, opts), s1) \<longrightarrow>
     v_unlocked v = unl (Volume_String v))"

lemma ok_with_parameters:
  assumes "modes c unl s"
    and "\<And>d v opts. mount_driver_contract d \<Longrightarrow> sv_name (d_volume opts) = Volume_String v \<Longrightarrow>
      v_unlocked v = unl (Volume_String v) \<Longrightarrow> keeps (keeps_ok unl) (k d v opts)"
    and "\<And>e. keeps (keeps_ok unl) (h e)"
  shows "keeps_ok unl s (snd (attempt (GetStorageParameters c uc) h (\<lambda>(d, v, opts). k d v opts) s))"
proof -
  obtain q s1 where m: "GetStorageParameters c uc s = (q, s1)" by force
  have k1: "keeps_ok unl s s1" by (rule keepsD [OF ok.parameters m])
  show ?thesis
  proof (cases q)
    case (Ok x)
    obtain d v opts where x: "x = (d, v, opts)" by (cases x)
    have u: "v_unlocked v = unl (Volume_String v)"
      using assms(1) m Ok x unfolding modes_def by blast
    note pars = parameters_OkE [OF m [unfolded Ok x]]
    have "keeps_ok unl s1 (snd (k d v opts s1))"
      using assms(2) [OF pars(1,2) u] by (simp add: keeps_def)
    then show ?thesis using m Ok x ok.trans [OF k1] by simp
  next
    case (Err e)
    then show ?thesis using m ok.trans [OF k1] assms(3) [of e] by (simp add: keeps_def)
  qed (use m k1 in simp_all)
qed

lemma ok_after_lift:
  assumes "\<And>e. keeps R (h e)" "\<And>x. R s (snd (k x s))" "\<And>a. R a a"
  shows "R s (snd (attempt (lift q) h k s))"
  using assms by (cases q) (auto simp: attempt_def keeps_def)

lemma ok_requests:
  assumes "modes c unl s" "(path, h) \<in> set (routeMap c)"
  shows "keeps_ok unl s (snd (h r s))"
proof -
  have m: "keeps_ok unl s (snd (api_Mount c (NewVolplugin c) r s))"
    unfolding api_Mount_def
    by (rule ok_after_lift, rule ok.protocol, rule ok_with_parameters [OF assms(1)])
      (simp_all add: ok_mount_volume ok.protocol ok.refl)
  have u: "keeps_ok unl s (snd (api_Unmount c (NewVolplugin c) r s))"
    unfolding api_Unmount_def
    by (rule ok_after_lift, rule ok.protocol, rule ok_with_parameters [OF assms(1)])
      (simp_all add: ok_unmount_volume ok.protocol ok.refl)
  have plain: "keeps (keeps_ok unl) (docker_Activate c r)" "keeps (keeps_ok unl) (docker_Deactivate r)"
    "keeps (keeps_ok unl) (docker_Capabilities c r)"
    by (auto simp: docker_Activate_def docker_Capabilities_def docker_Deactivate_def send_ignored_def
        intro!: ok.steps ok.replies [OF writes_send]) (simp add: keeps_def keeps_ok_def api_ok_def)
  have k: "keeps (keeps_ok unl) f \<Longrightarrow> keeps_ok unl s (snd (f s))" for f :: "('a, unit) handler"
    by (simp add: keeps_def)
  show ?thesis
    using assms(2) unfolding routeMap_def Let_def
    by (auto intro: m u k [OF plain(1)] k [OF plain(2)] k [OF plain(3)] k [OF ok.create] k [OF ok.lookups(1)]
        k [OF ok.lookups(2)] k [OF ok.lookups(3)])
qed

text \<open>A goroutine that ends was told to stop.\<close>

lemma ok_goroutine: "keeps_ok unl s (snd (goroutine_step c i s))"
proof (cases "i < length (a_gos s)")
  case False
  then show ?thesis by (simp add: goroutine_step_def ok.refl)
next
  case True
  show ?thesis
  proof (cases "a_gos s ! i")
    case (Refreshing u)
    have "keeps (keeps_ok unl) (regardless (inner (acquire c u t t')) (ret ()) :: ('a, unit) handler)" for t t'
      by (auto intro!: ok.steps)
    then show ?thesis using True Refreshing by (simp add: goroutine_step_def keeps_def)
  next
    case (Ended u)
    then show ?thesis using True by (simp add: goroutine_step_def ok.refl)
  next
    case (Stopping u)
    obtain q w where m: "RemoveUse c u False (srv_world s) = (q, w)" by force
    have "snd (goroutine_step c i s) = s\<lparr>srv_world := w, a_gos := (a_gos s)[i := Ended u]\<rparr> \<or>
        snd (goroutine_step c i s) = s\<lparr>srv_world := w\<rparr>"
      using True Stopping m by (cases q) (auto simp: goroutine_step_def regardless_def attempt_def inner_def)
    then show ?thesis
    proof
      assume s': "snd (goroutine_step c i s) = s\<lparr>srv_world := w, a_gos := (a_gos s)[i := Ended u]\<rparr>"
      show ?thesis
        unfolding keeps_ok_def s'
      proof
        assume ok: "api_ok unl s"
        show "api_ok unl (s\<lparr>srv_world := w, a_gos := (a_gos s)[i := Ended u]\<rparr>)"
        proof (rule api_okI, goal_cases)
          case (1 v mc)
          then show ?case using api_okD(1) [OF ok] by simp
        next
          case (2 v j)
          then have j: "a_stops s v = Some j" by simp
          then have "j \<noteq> i" using api_okD(3) [OF ok j] Stopping by auto
          then show ?case using api_okD(2-5) [OF ok j] by simp
        next
          case (3 j x)
          then have "j \<noteq> i" using True by auto
          then show ?case using 3 api_okD(6) [OF ok, of j x] by simp
        qed
      qed
    qed (simp add: keeps_ok_def api_ok_def)
  qed
qed

section \<open>The plugin as a system\<close>

text \<open>
  Requests to the routes, one at a time (their answers are sent before the next), events of the
  goroutines between them, updates of the configuration, and changes of the world by others.
\<close>

inductive api_reach :: "('w, 'z) host_scheme \<Rightarrow> (string \<Rightarrow> bool) \<Rightarrow> string \<Rightarrow> 'w api \<Rightarrow> bool"
  for c unl hostname where
  start: "api_reach c unl hostname (NewAPI hostname g w)"
| request: "api_reach c unl hostname s \<Longrightarrow> modes c unl s \<Longrightarrow> (path, h) \<in> set (routeMap c) \<Longrightarrow>
    api_reach c unl hostname ((snd (h r s))\<lparr>srv_answers := []\<rparr>)"
| goroutine: "api_reach c unl hostname s \<Longrightarrow> api_reach c unl hostname (snd (goroutine_step c i s))"
| config: "api_reach c unl hostname s \<Longrightarrow> api_reach c unl hostname (s\<lparr>srv_global := g\<rparr>)"
| others: "api_reach c unl hostname s \<Longrightarrow> api_reach c unl hostname (s\<lparr>srv_world := w\<rparr>)"

lemma reach_ok: "api_reach c unl hostname s \<Longrightarrow> api_ok unl s"
proof (induction rule: api_reach.induct)
  case (start g w)
  then show ?case by (simp add: api_ok_def NewAPI_def NewCollection_def)
next
  case (request s path h r)
  have "api_ok unl (snd (h r s))"
    using ok_requests [OF request.hyps(2,3), of r] request.IH by (simp add: keeps_ok_def)
  then show ?case by (simp add: api_ok_def)
next
  case (goroutine s i)
  then show ?case using ok_goroutine [of unl s c i] by (simp add: keeps_ok_def)
qed (simp_all add: api_ok_def)

end
