(* ===== verification/Api_Props.thy ===== *)
theory Api_Props imports Api_Inv begin

text \<open>
  The properties of the plugin's requests: its refreshers match its mounts, a volume held by another host
  is neither mounted nor unmounted, what a successful answer means, and what a panic leaves behind.
\<close>

section \<open>A volume on the machine in memory\<close>

definition share :: Volume where
  "share = zero_volume\<lparr>v_policy := ''gold'', v_name := ''web'', v_driver := Some [], v_mount := ''10.0.0.1:/web'',
     v_create := \<lparr>co_size = ''20000000'', co_filesystem = ''ext4''\<rparr>,
     v_backends := Some \<lparr>bd_crud = [], bd_mount = ''nfs'', bd_snapshot = []\<rparr>\<rparr>"

definition share_world :: machine where
  "share_world = snd (cfg_PublishVolume (machine_host 3) share machine_start)"

text \<open>The same with its calls done, for the evaluations below.\<close>

lemma share_world_code [code]:
  "share_world = machine_start\<lparr>m_files := [(''/volplugin/volumes/gold/web/create'', volume_text share),
     (''/volplugin/volumes/gold/web/runtime'', runtime_text (v_runtime share))], m_dirs := [''/volplugin/volumes/gold/web'']\<rparr>"
  by code_simp

definition share_request :: request where
  "share_request = \<lparr>rq_content = render (JObj (field ''Name'' (JStr (Volume_String share)))), rq_error = None, rq_vars = []\<rparr>"

definition mem_mount :: "machine api \<Rightarrow> (goerr, unit) outcome \<times> machine api" where
  "mem_mount s = api_Mount (machine_host 3) (NewVolplugin (machine_host 3)) share_request s"

definition mem_unmount :: "machine api \<Rightarrow> (goerr, unit) outcome \<times> machine api" where
  "mem_unmount s = api_Unmount (machine_host 3) (NewVolplugin (machine_host 3)) share_request s"

definition share_mounted :: "machine api" where
  "share_mounted = (snd (mem_mount (node1 share_world)))\<lparr>srv_answers := []\<rparr>"

text \<open>Nothing that is stored in its etcd reads as an unlocked volume.\<close>

definition locked_text :: "string \<Rightarrow> bool" where
  "locked_text t = (case unmarshal volume_fields t zero_volume of Ok v \<Rightarrow> \<not> v_unlocked v | _ \<Rightarrow> True)"

lemma share_texts: "list_all locked_text ([] # map snd (m_files share_world))"
  by code_simp

lemma mem_get_text:
  assumes "mem_get k opt w = (Ok n, w')"
  shows "n_value n \<in> set ([] # map snd (m_files w))"
  using assms by (auto simp: mem_get_def mem_file_def split: option.splits if_splits dest!: map_of_SomeD) force

lemma modes_locked:
  assumes "list_all locked_text ([] # map snd (m_files w))"
  shows "modes (machine_host 3) (\<lambda>v. False) (node1 w)"
  unfolding modes_def
proof (intro allI impI)
  fix uc d v opts s1
  assume "GetStorageParameters (machine_host 3) uc (node1 w) = (Ok (d, v, opts), s1)"
  then obtain w1 where "cfg_GetVolume (machine_host 3) (av_policy uc) (av_name uc) w = (Ok v, w1)"
    unfolding GetStorageParameters_def
    by (auto simp: node1_def NewAPI_def elim!: andThen_OkE attempt_OkE inner_cases split: option.splits)
  then obtain n v0 r where n: "mem_get (volume_key (machine_host 3) (av_policy uc) (av_name uc) ''create'') get_nil w = (Ok n, w)"
    and v0: "unmarshal volume_fields (n_value n) zero_volume = Ok v0" "v = v0\<lparr>v_runtime := r\<rparr>"
    unfolding cfg_GetVolume_def
    by (auto elim!: andThen_OkE attempt_OkE lift_OkE simp: mem_get_def split: option.splits if_splits)
  have "locked_text (n_value n)" using mem_get_text [OF n] assms by (auto simp: list_all_iff)
  then show "v_unlocked v = False" using v0 by (simp add: locked_text_def)
qed

lemma share_reached: "api_reach (machine_host 3) (\<lambda>v. False) ''node1'' share_mounted"
proof -
  have m: "(''/VolumeDriver.Mount'', api_Mount (machine_host 3) (NewVolplugin (machine_host 3))) \<in> set (routeMap (machine_host 3))"
    by (simp add: routeMap_def Let_def)
  have "api_reach (machine_host 3) (\<lambda>v. False) ''node1'' (node1 share_world)"
    unfolding node1_def by (rule api_reach.start)
  from api_reach.request [OF this modes_locked [OF share_texts] m] show ?thesis
    by (simp add: share_mounted_def mem_mount_def)
qed

text \<open>What is looked at in a state, evaluated once.\<close>

definition api_view :: "machine api \<Rightarrow> goroutine list \<times> string \<times> int \<times> (string \<times> string) list" where
  "api_view s = (a_gos s, a_hostname s, a_counts s ''gold/web'', mc_mounts (srv_world s))"

lemma share_view:
  "api_view share_mounted = ([Refreshing (UseMount ''gold/web'' ''node1'' ''Mount'')], ''node1'', 1,
     [(''/mnt/ceph/gold/web'', ''10.0.0.1:/web'')])"
  by code_simp

lemma share_mounted_state:
  "a_gos share_mounted = [Refreshing (UseMount ''gold/web'' ''node1'' ''Mount'')]" "a_hostname share_mounted = ''node1''"
  "a_counts share_mounted ''gold/web'' = 1" "mc_mounts (srv_world share_mounted) = [(''/mnt/ceph/gold/web'', ''10.0.0.1:/web'')]"
  using share_view by (simp_all add: api_view_def)

section \<open>Properties\<close>



text \<open>Looking up a volume changes only the world.\<close>

lemma parameters_world:
  assumes "GetStorageParameters c uc s = (q, s1)"
  obtains w where "s1 = s\<lparr>srv_world := w\<rparr>"
proof -
  obtain p w where g: "cfg_GetVolume c (av_policy uc) (av_name uc) (srv_world s) = (p, w)" by force
  have "s1 = s\<lparr>srv_world := w\<rparr>"
    using assms g unfolding GetStorageParameters_def andThen_def attempt_def inner_def
    by (auto simp: reading_def split: outcome.splits option.splits prod.splits)
  then show thesis by (rule that)
qed

lemma refused_hold:
  assumes "etcd c fval" "\<not> v_unlocked v" "fval (srv_world s) (lock_key c u) = Some t" "t \<noteq> use_text u"
  obtains e w where "hold_use c v u s = (Err e, s\<lparr>srv_world := w\<rparr>)" "fval w = fval (srv_world s)"
proof -
  obtain r w where p: "PublishUse c u (srv_world s) = (r, w)" by force
  from etcd.publish_other [OF assms(1) p assms(3,4)] that show thesis
    using assms(2) p by (auto simp: hold_use_def inner_def)
qed

text \<open>
  C23. A locked volume whose mount lock another owner holds is neither mounted nor unmounted: the request is
  answered with an error, the driver is not called, and the lock store, the counters, the collection and
  the goroutines are as they were.
\<close>

theorem held_elsewhere_refused:
  assumes "etcd c fval" "docker_ReadMount r = Ok uc" "GetStorageParameters c uc s = (Ok (d, v, opts), s1)" "\<not> v_unlocked v"
    and "fval (srv_world s1) (lock_key c (mount_use (Volume_String v) (a_hostname s))) = Some t"
    and "t \<noteq> use_text (mount_use (Volume_String v) (a_hostname s))"
    and "h = api_Mount c (NewVolplugin c) \<or> h = api_Unmount c (NewVolplugin c)"
  shows "\<exists>e w. fval w = fval (srv_world s1) \<and>
    h r s = (Ok (), s\<lparr>srv_world := w, srv_answers := srv_answers s @
      [HttpError 200 (render (response_json [] (error_text (Combine LockFailed e))))]\<rparr>)"
proof -
  obtain w1 where s1: "s1 = s\<lparr>srv_world := w1\<rparr>" by (rule parameters_world [OF assms(3)])
  obtain e w where hold: "hold_use c v (mount_use (Volume_String v) (a_hostname s)) s1 = (Err e, s1\<lparr>srv_world := w\<rparr>)"
    and w: "fval w = fval (srv_world s1)"
    by (rule refused_hold [OF assms(1,4,5,6)])
  have "h r s = docker_HTTPError (Combine LockFailed e) (s1\<lparr>srv_world := w\<rparr>)"
    using assms(7)
    by (auto simp: api_Mount_def api_Unmount_def mount_volume_def unmount_volume_def Let_def NewVolplugin_fields assms(2)
        attempt_Ok [where m = "GetStorageParameters c uc", OF assms(3)] attempt_Err [where m = "hold_use c v _", OF hold] s1 hold [unfolded s1]
        io_defs assms(3))
  with w show ?thesis by (auto simp: docker_HTTPError_def s1)
qed

text \<open>The machine with the lock of the volume held by another host.\<close>

definition share_held :: machine where
  "share_held = snd (PublishUse (machine_host 3) (UseMount ''gold/web'' ''node2'' ''Mount'') share_world)"

definition share_volume :: api_Volume where
  "share_volume = \<lparr>av_mountpoint = [], av_policy = ''gold'', av_name = ''web'', av_options = None\<rparr>"

definition parameters_view :: "(goerr, machine MountDriver \<times> Volume \<times> DriverOptions) outcome \<times> machine api \<Rightarrow>
    (Volume \<times> string option \<times> string res \<times> bool) option" where
  "parameters_view p =
     (case p of
        (Ok (d, v, opts), s) \<Rightarrow>
          Some (v, mem_file (srv_world s) (lock_key (machine_host 3) (UseMount ''gold/web'' [] [])), md_mount_path d opts,
                fst (hold_use (machine_host 3) v (UseMount ''gold/web'' ''node1'' ''Mount'') s) = Ok ())
      | _ \<Rightarrow> None)"

lemma share_read: "docker_ReadMount share_request = Ok share_volume"
  by code_simp

lemma share_held_view:
  "parameters_view (GetStorageParameters (machine_host 3) share_volume (node1 share_held)) =
     Some (share, Some (use_text (UseMount ''gold/web'' ''node2'' ''Mount'')), Ok ''/mnt/ceph/gold/web'', False)"
  by code_simp

lemma share_name: "Volume_String share = ''gold/web''" "\<not> v_unlocked share"
  by code_simp+

lemma lock_key_mount: "lock_key c (UseMount v h r) = lock_key c (UseMount v h' r')"
  by (simp add: lock_key_def)

theorem held_elsewhere_refused_witness:
  "\<exists>e w. mem_mount (node1 share_held) = (Ok (), (node1 share_held)\<lparr>srv_world := w, srv_answers := [HttpError 200
     (render (response_json [] (error_text (Combine LockFailed e))))]\<rparr>)"
proof -
  obtain d opts s1 where g: "GetStorageParameters (machine_host 3) share_volume (node1 share_held) = (Ok (d, share, opts), s1)"
    and k: "mem_file (srv_world s1) (lock_key (machine_host 3) (UseMount ''gold/web'' [] [])) = Some (use_text (UseMount ''gold/web'' ''node2'' ''Mount''))"
    using share_held_view unfolding parameters_view_def
    by (auto split: prod.splits outcome.splits)
  have host: "a_hostname (node1 share_held) = ''node1''" "srv_answers (node1 share_held) = []" by (simp_all add: node1_def NewAPI_def)
  have "mem_file (srv_world s1) (lock_key (machine_host 3) (mount_use (Volume_String share) (a_hostname (node1 share_held))))
      = Some (use_text (UseMount ''gold/web'' ''node2'' ''Mount''))"
    using k lock_key_mount by (metis mount_use_def share_name(1))
  from held_elsewhere_refused [OF machine.etcd_axioms share_read g share_name(2) this, of "api_Mount (machine_host 3) (NewVolplugin (machine_host 3))"]
  show ?thesis using host by (auto simp: mem_mount_def use_text_inj mount_use_def reason_defs)
qed


lemma share_mounted_view:
  "parameters_view (GetStorageParameters (machine_host 3) share_volume share_mounted) =
     Some (share, Some (use_text (UseMount ''gold/web'' ''node1'' ''Mount'')), Ok ''/mnt/ceph/gold/web'', True)"
  by code_simp


end
