(* ===== verification/Api_Success.thy ===== *)
theory Api_Success imports Api_Props begin

text \<open>
  What a successful answer to a mount and to an unmount means, that an unmount undoes a mount, and what an
  unmount without a mount leaves behind.
\<close>

section \<open>Answers that are paths\<close>

text \<open>An error is never taken for a path: the last thing it writes is an \<open>http.Error\<close>.\<close>

lemma error_no_path: "docker_HTTPError e s = (q, s') \<Longrightarrow> last (srv_answers s') \<noteq> Content b"
  by (auto simp: docker_HTTPError_def)

lemma clear_no_path:
  assumes "clearMount c (NewVolplugin c') ms s = (Ok u, s')"
  shows "last (srv_answers s') \<noteq> Content b"
  using assms unfolding clearMount_def regardless_def
  by (auto simp: NewVolplugin_fields elim!: attempt_OkE dest: error_no_path)

text \<open>The request before the guards, which change the world only.\<close>

lemma hold_world:
  assumes "hold_use c v u s = (q, s')"
  obtains w where "s' = s\<lparr>srv_world := w\<rparr>"
proof -
  have "\<exists>w. s' = s\<lparr>srv_world := w\<rparr>"
  proof (cases "v_unlocked v")
    case True
    then have "s' = s\<lparr>srv_world := srv_world s\<rparr>" using assms by (simp add: hold_use_def)
    then show ?thesis ..
  next
    case False
    then show ?thesis using assms by (auto simp: hold_use_def inner_def split: prod.splits)
  qed
  then show thesis using that by blast
qed

definition path_answer :: "('w, 'z) host_scheme \<Rightarrow> 'w MountDriver \<Rightarrow> DriverOptions \<Rightarrow> ('w, unit) handler" where
  "path_answer c d opts =
     attempt (lift (md_mount_path d opts)) (\<lambda>e. docker_HTTPError (Combine MarshalResponse e)) (reply_mount (NewVolplugin c))"

lemma request_runs:
  assumes "docker_ReadMount r = Ok uc" "GetStorageParameters c uc s = (Ok (d, v, opts), s1)"
  shows "api_Mount c (NewVolplugin c) r s = mount_volume c (NewVolplugin c) d v opts s1"
    and "api_Unmount c (NewVolplugin c) r s = unmount_volume c (NewVolplugin c) d v opts s1"
  using assms by (simp_all add: api_Mount_def api_Unmount_def NewVolplugin_fields)

lemma mount_volume_run:
  assumes "hold_use c v (mount_use (Volume_String v) (a_hostname s)) s = (Ok (), s1)"
  shows "mount_volume c (NewVolplugin c) d v opts s =
      (if a_counts s (Volume_String v) + 1 > 1 then
         (if v_unlocked v then path_answer c d opts else docker_HTTPError (Combine LockFailed (Fresh ''Duplicate mount'')))
       else mount_first c (NewVolplugin c) d v opts (mount_use (Volume_String v) (a_hostname s)))
      (s1\<lparr>a_counts := (a_counts s)(Volume_String v := a_counts s (Volume_String v) + 1)\<rparr>)"
proof -
  obtain w where "s1 = s\<lparr>srv_world := w\<rparr>" by (rule hold_world [OF assms])
  then show ?thesis
    using assms by (simp add: mount_volume_def Let_def NewVolplugin_fields path_answer_def getMountPath_def)
qed

lemma unmount_volume_run:
  assumes "hold_use c v (mount_use (Volume_String v) (a_hostname s)) s = (Ok (), s1)"
  shows "unmount_volume c (NewVolplugin c) d v opts s =
      andThen (counter_Sub (Volume_String v)) (\<lambda>n.
        if n > 0 then path_answer c d opts
        else attempt (inner (md_unmount d opts)) (\<lambda>e. docker_HTTPError (Combine UnmountFailed e)) (\<lambda>_.
          andThen (collection_Remove (Volume_String v)) (\<lambda>_.
          andThen (if v_unlocked v then ret () else RemoveStopChan (Volume_String v)) (\<lambda>_. path_answer c d opts)))) s1"
  using assms by (simp add: unmount_volume_def Let_def NewVolplugin_fields path_answer_def getMountPath_def cong: if_cong)

text \<open>A request that is refused the lock ends in an error.\<close>

lemma volume_held:
  assumes "h c (NewVolplugin c) d v opts s = (Ok (), s')" "h = mount_volume \<or> h = unmount_volume" "last (srv_answers s') = Content b"
  obtains s1 where "hold_use c v (mount_use (Volume_String v) (a_hostname s)) s = (Ok (), s1)"
proof -
  obtain q s1 where q: "hold_use c v (mount_use (Volume_String v) (a_hostname s)) s = (q, s1)" by force
  show thesis
  proof (cases q)
    case (Ok u)
    then show ?thesis using that q by simp
  next
    case (Err e)
    then have "docker_HTTPError (Combine LockFailed e) s1 = (Ok (), s')"
      using assms(1,2) q by (auto simp: mount_volume_def unmount_volume_def Let_def NewVolplugin_fields)
    then show ?thesis using error_no_path assms(3) by blast
  qed (use assms(1,2) q in \<open>auto simp: mount_volume_def unmount_volume_def Let_def\<close>)
qed

lemma path_reply:
  assumes "writes_up c"
    "attempt (lift (md_mount_path d opts)) h (reply_mount (NewVolplugin c)) s = (Ok (), s')"
    "\<And>e s s'. h e s = (Ok (), s') \<Longrightarrow> last (srv_answers s') \<noteq> Content b" "last (srv_answers s') = Content b"
  obtains p w where "md_mount_path d opts = Ok p" "b = render (response_json p [])"
    "s' = s\<lparr>srv_world := w, srv_answers := srv_answers s @ [Content b]\<rparr>"
proof (cases "md_mount_path d opts")
  case (Ok p)
  obtain w where "send c (render (response_json p [])) s =
      (Ok (), s\<lparr>srv_world := w, srv_answers := srv_answers s @ [Content (render (response_json p []))]\<rparr>)"
    by (rule send_run [OF assms(1)])
  then have "s' = s\<lparr>srv_world := w, srv_answers := srv_answers s @ [Content (render (response_json p []))]\<rparr>"
    using assms(2) Ok by (simp add: reply_mount_def NewVolplugin_fields docker_WriteMount_def)
  then show ?thesis using that [OF Ok, of w] assms(4) by simp
next
  case (Err e)
  then have "h e s = (Ok (), s')" using assms(2) by simp
  then show ?thesis using assms(3,4) by blast
qed (use assms(2) in simp_all)

lemma path_answered:
  assumes "writes_up c" "path_answer c d opts s = (Ok (), s')" "last (srv_answers s') = Content b"
  obtains p w where "md_mount_path d opts = Ok p" "b = render (response_json p [])"
    "s' = s\<lparr>srv_world := w, srv_answers := srv_answers s @ [Content b]\<rparr>"
  by (rule path_reply [OF assms(1) assms(2) [unfolded path_answer_def] error_no_path assms(3)])

section \<open>A mount that succeeds\<close>

text \<open>The state after the first mount of a volume.\<close>

definition first_mounted :: "Volume \<Rightarrow> Mount \<Rightarrow> 'w api \<Rightarrow> 'w api \<Rightarrow> bool" where
  "first_mounted v mc s s' \<longleftrightarrow>
     (let name = Volume_String v in
      a_mounts s name = None \<and> a_mounts s' = (a_mounts s)(name \<mapsto> mc) \<and>
      (if v_unlocked v then a_stops s' = a_stops s \<and> a_gos s' = a_gos s
       else a_stops s' = (a_stops s)(name \<mapsto> length (a_gos s)) \<and>
            a_gos s' = a_gos s @ [Refreshing (mount_use name (a_hostname s))]))"

lemma refresh_started:
  assumes "startTTLRefresh c v s = (Ok u, s')"
  obtains w where "s' = s\<lparr>srv_world := w, a_gos := a_gos s @ [Refreshing (mount_use v (a_hostname s))],
    a_stops := (a_stops s)(v \<mapsto> length (a_gos s))\<rparr>"
proof -
  obtain q w where m: "AcquireWithTTLRefresh c (mount_use v (a_hostname s)) (srv_world s) = (q, w)" by force
  show thesis
    using assms that [of w] m by (cases q) (auto simp: startTTLRefresh_def start_refresh_def AddStopChan_def inner_def andThen_def attempt_def)
qed

text \<open>The lock of a locked volume is taken and refreshed from then on; an unlocked volume has none.\<close>

lemma lock_started:
  assumes "(if v_unlocked v then ret () else startTTLRefresh c name) s = (Ok (), s')"
  shows "a_mounts s' = a_mounts s" "a_counts s' = a_counts s" "a_hostname s' = a_hostname s"
    "if v_unlocked v then a_stops s' = a_stops s \<and> a_gos s' = a_gos s
     else a_stops s' = (a_stops s)(name \<mapsto> length (a_gos s)) \<and> a_gos s' = a_gos s @ [Refreshing (mount_use name (a_hostname s))]"
proof -
  obtain w where "if v_unlocked v then s' = s
    else s' = s\<lparr>srv_world := w, a_gos := a_gos s @ [Refreshing (mount_use name (a_hostname s))], a_stops := (a_stops s)(name \<mapsto> length (a_gos s))\<rparr>"
    using assms by (cases "v_unlocked v") (auto elim: refresh_started)
  then show "a_mounts s' = a_mounts s" "a_counts s' = a_counts s" "a_hostname s' = a_hostname s"
    "if v_unlocked v then a_stops s' = a_stops s \<and> a_gos s' = a_gos s
     else a_stops s' = (a_stops s)(name \<mapsto> length (a_gos s)) \<and> a_gos s' = a_gos s @ [Refreshing (mount_use name (a_hostname s))]"
    by (simp_all split: if_splits)
qed

lemma first_mount_succeeds:
  assumes "writes_up c" "mount_driver_contract d" "sv_name (d_volume opts) = Volume_String v"
    "mount_first c (NewVolplugin c) d v opts ut s = (Ok (), s')" "last (srv_answers s') = Content b"
  obtains mc where "md_mount_path d opts = Ok (mt_path mc)" "b = render (response_json (mt_path mc) [])"
    "first_mounted v mc s s'" "a_counts s' = a_counts s" "a_hostname s' = a_hostname s"
proof -
  let ?v = "Volume_String v"
  let ?undo = "\<lambda>err. andThen (RemoveStopChan ?v) (\<lambda>_. clearMount c (NewVolplugin c)
      \<lparr>ms_err = err, ms_ut = ut, ms_driver = d, ms_opts = opts, ms_volume = v\<rparr>)"
  have undo: "?undo e t = (Ok (), t') \<Longrightarrow> last (srv_answers t') \<noteq> Content b" for e t t'
    by (auto simp: RemoveStopChan_def io_defs dest: clear_no_path)
  obtain mc s1 where m: "inner (md_mount d opts) s = (Ok mc, s1)"
    and rest: "andThen (collection_Add mc) (\<lambda>_. attempt (if v_unlocked v then ret () else startTTLRefresh c ?v) ?undo (\<lambda>_.
         regardless (inner (ApplyCGroupRateLimit c (v_runtime v) mc))
           (attempt (lift (md_mount_path d opts)) ?undo (reply_mount (NewVolplugin c))))) s1 = (Ok (), s')"
    using assms(4) [unfolded mount_first_def Let_def]
  proof (cases rule: attempt_OkE)
    case (ok mc s1)
    then show ?thesis using that by simp
  next
    case (err e s1)
    then show ?thesis using clear_no_path assms(5) by blast
  qed
  obtain w1 where w1: "md_mount d opts (srv_world s) = (Ok mc, w1)" "s1 = s\<lparr>srv_world := w1\<rparr>"
    by (rule inner_cases [OF m])
  note path = mount_driver_contract.mounts_at [OF assms(2) w1(1)]
  have name: "sv_name (mt_volume mc) = ?v" using mount_driver_contract.mounts_volume [OF assms(2) w1(1)] assms(3) by simp
  have free: "a_mounts s ?v = None"
    using rest name w1(2) by (cases "a_mounts s ?v") (auto simp: collection_Add_def io_defs)
  let ?s2 = "s1\<lparr>a_mounts := (a_mounts s)(?v \<mapsto> mc)\<rparr>"
  have rest2: "attempt (if v_unlocked v then ret () else startTTLRefresh c ?v) ?undo (\<lambda>_.
         regardless (inner (ApplyCGroupRateLimit c (v_runtime v) mc))
           (attempt (lift (md_mount_path d opts)) ?undo (reply_mount (NewVolplugin c)))) ?s2 = (Ok (), s')"
    using rest free name w1(2) by simp
  obtain s3 where s3: "(if v_unlocked v then ret () else startTTLRefresh c ?v) ?s2 = (Ok (), s3)"
    and rest3: "regardless (inner (ApplyCGroupRateLimit c (v_runtime v) mc))
           (attempt (lift (md_mount_path d opts)) ?undo (reply_mount (NewVolplugin c))) s3 = (Ok (), s')"
    using rest2
  proof (cases rule: attempt_OkE)
    case (ok u s3)
    then show ?thesis using that by simp
  next
    case (err e s3)
    then show ?thesis using undo assms(5) by blast
  qed
  note st3 = lock_started [OF s3, simplified w1(2), simplified]
  obtain w4 where rest4: "attempt (lift (md_mount_path d opts)) ?undo (reply_mount (NewVolplugin c)) (s3\<lparr>srv_world := w4\<rparr>) = (Ok (), s')"
    using rest3 unfolding regardless_def
  proof (cases rule: attempt_OkE)
    case (ok u s4)
    obtain w where "s4 = s3\<lparr>srv_world := w\<rparr>" by (rule inner_cases [OF ok(1)])
    then show ?thesis using that ok(2) by simp
  next
    case (err e s4)
    obtain w where "s4 = s3\<lparr>srv_world := w\<rparr>" by (rule inner_cases [OF err(1)])
    then show ?thesis using that err(2) by simp
  qed
  obtain p w where p: "md_mount_path d opts = Ok p" "b = render (response_json p [])"
    and s': "s' = s3\<lparr>srv_world := w, srv_answers := srv_answers s3 @ [Content b]\<rparr>"
    by (rule path_reply [OF assms(1) rest4 undo assms(5)]) simp_all
  have "p = mt_path mc" using path p(1) by simp
  moreover have "first_mounted v mc s s'" using st3 free by (simp add: first_mounted_def Let_def s')
  ultimately show thesis using that [of mc] p st3 by (simp add: s')
qed

text \<open>The mount as a whole, by its answer.\<close>

lemma mount_succeeds:
  assumes "writes_up c" "docker_ReadMount r = Ok uc" "GetStorageParameters c uc s = (Ok (d, v, opts), s0)"
    "api_Mount c (NewVolplugin c) r s = (Ok (), s')" "last (srv_answers s') = Content b" "a_counts s (Volume_String v) = 0"
  obtains mc where "md_mount_path d opts = Ok (mt_path mc)" "b = render (response_json (mt_path mc) [])"
    "first_mounted v mc s s'" "a_counts s' = (a_counts s)(Volume_String v := 1)" "a_hostname s' = a_hostname s"
proof -
  note pars = parameters_OkE [OF assms(3)]
  obtain w0 where s0: "s0 = s\<lparr>srv_world := w0\<rparr>" by (rule parameters_world [OF assms(3)])
  have run: "mount_volume c (NewVolplugin c) d v opts s0 = (Ok (), s')"
    using assms(4) request_runs(1) [OF assms(2,3)] by simp
  obtain s1 where hold: "hold_use c v (mount_use (Volume_String v) (a_hostname s0)) s0 = (Ok (), s1)"
    by (rule volume_held [where h = mount_volume, OF run disjI1 [OF refl] assms(5)])
  obtain w1 where s1: "s1 = s0\<lparr>srv_world := w1\<rparr>" by (rule hold_world [OF hold])
  have first: "mount_first c (NewVolplugin c) d v opts (mount_use (Volume_String v) (a_hostname s0))
      (s1\<lparr>a_counts := (a_counts s)(Volume_String v := 1)\<rparr>) = (Ok (), s')"
    using run mount_volume_run [OF hold, of d opts] assms(6) by (simp add: s0)
  show thesis
    by (rule first_mount_succeeds [OF assms(1) pars(1,2) first assms(5)], rule that)
      (simp_all add: first_mounted_def s0 s1 Let_def split: if_splits)
qed

section \<open>An unmount that succeeds\<close>

lemma unmount_succeeds:
  assumes "writes_up c" "docker_ReadMount r = Ok uc" "GetStorageParameters c uc s = (Ok (d, v, opts), s0)"
    "api_Unmount c (NewVolplugin c) r s = (Ok (), s')" "last (srv_answers s') = Content b" "a_counts s (Volume_String v) = 1"
  shows "a_counts s' = (a_counts s)(Volume_String v := 0)"
    and "a_mounts s' = (a_mounts s)(Volume_String v := None)"
    and "v_unlocked v \<Longrightarrow> a_stops s' = a_stops s \<and> a_gos s' = a_gos s"
    and "\<not> v_unlocked v \<Longrightarrow> a_stops s (Volume_String v) = Some i \<Longrightarrow> i < length (a_gos s) \<Longrightarrow>
      a_stops s' = (a_stops s)(Volume_String v := None) \<and> a_gos s' = (a_gos s)[i := signal (a_gos s ! i)]"
proof -
  let ?v = "Volume_String v"
  obtain w0 where s0: "s0 = s\<lparr>srv_world := w0\<rparr>" by (rule parameters_world [OF assms(3)])
  have run: "unmount_volume c (NewVolplugin c) d v opts s0 = (Ok (), s')"
    using assms(4) request_runs(2) [OF assms(2,3)] by simp
  obtain s1 where hold: "hold_use c v (mount_use ?v (a_hostname s0)) s0 = (Ok (), s1)"
    by (rule volume_held [where h = unmount_volume, OF run disjI2 [OF refl] assms(5)])
  obtain w1 where s1: "s1 = s0\<lparr>srv_world := w1\<rparr>" by (rule hold_world [OF hold])
  let ?s2 = "s1\<lparr>a_counts := (a_counts s)(?v := 0)\<rparr>"
  let ?fin = "\<lambda>_. andThen (collection_Remove ?v) (\<lambda>_.
          andThen (if v_unlocked v then ret () else RemoveStopChan ?v) (\<lambda>_. path_answer c d opts))"
  have "attempt (inner (md_unmount d opts)) (\<lambda>e. docker_HTTPError (Combine UnmountFailed e)) ?fin ?s2 = (Ok (), s')"
    using run unmount_volume_run [OF hold, of d opts] assms(6) by (simp add: s0 s1)
  then obtain w2 where r2: "?fin () (?s2\<lparr>srv_world := w2\<rparr>) = (Ok (), s')"
  proof (cases rule: attempt_OkE)
    case (ok u s3)
    obtain w where "s3 = ?s2\<lparr>srv_world := w\<rparr>" by (rule inner_cases [OF ok(1)])
    then show ?thesis using that ok(2) by simp
  next
    case (err e s3)
    then show ?thesis using error_no_path assms(5) by blast
  qed
  define s3 where "s3 = ?s2\<lparr>srv_world := w2, a_mounts := (a_mounts s)(?v := None)\<rparr>"
  define s4 where "s4 = (if v_unlocked v then s3 else snd (RemoveStopChan ?v s3))"
  have "path_answer c d opts s4 = (Ok (), s')"
    using r2 by (auto simp: s3_def s4_def s0 s1 RemoveStopChan_def split: if_splits)
  then obtain w where s': "s' = s4\<lparr>srv_world := w, srv_answers := srv_answers s4 @ [Content b]\<rparr>"
    using path_answered [OF assms(1) _ assms(5)] by metis
  show "a_counts s' = (a_counts s)(?v := 0)" "a_mounts s' = (a_mounts s)(?v := None)"
    by (auto simp: s' s4_def s3_def RemoveStopChan_def stop_signal_def Let_def split: option.splits)
  show "v_unlocked v \<Longrightarrow> a_stops s' = a_stops s \<and> a_gos s' = a_gos s"
    by (simp add: s' s4_def s3_def s1 s0)
  show "\<not> v_unlocked v \<Longrightarrow> a_stops s ?v = Some i \<Longrightarrow> i < length (a_gos s) \<Longrightarrow>
      a_stops s' = (a_stops s)(?v := None) \<and> a_gos s' = (a_gos s)[i := signal (a_gos s ! i)]"
    by (simp add: s' s4_def s3_def s1 s0 RemoveStopChan_def stop_signal_def Let_def)
qed

section \<open>Properties\<close>

text \<open>
  C25. An unmount undoes a mount. A first mount answered with a path has been made by the driver at that
  path, is counted, filed under its volume, and its lock is refreshed; after an unmount of the
  volume answered with a path the counters, the collection and the stop channels are as before,
  and the goroutine is told to stop.
\<close>

theorem mount_unmount_roundtrip:
  assumes "writes_up c" "docker_ReadMount r = Ok uc"
    and "GetStorageParameters c uc s = (Ok (d, v, opts), s0)" "a_counts s (Volume_String v) = 0" "a_stops s (Volume_String v) = None"
    and "api_Mount c (NewVolplugin c) r s = (Ok (), s1)" "last (srv_answers s1) = Content b"
    and "GetStorageParameters c uc s1 = (Ok (d', v, opts'), s2)"
    and "api_Unmount c (NewVolplugin c) r s1 = (Ok (), s3)" "last (srv_answers s3) = Content b'"
  shows "\<exists>mc. md_mount_path d opts = Ok (mt_path mc) \<and> b = render (response_json (mt_path mc) []) \<and>
      first_mounted v mc s s1 \<and> a_counts s1 = (a_counts s)(Volume_String v := 1) \<and>
      a_counts s3 = a_counts s \<and> a_mounts s3 = a_mounts s \<and> a_stops s3 = a_stops s \<and>
      a_gos s3 = a_gos s @ (if v_unlocked v then [] else [Stopping (mount_use (Volume_String v) (a_hostname s))])"
proof -
  let ?v = "Volume_String v"
  obtain mc where m: "md_mount_path d opts = Ok (mt_path mc)" "b = render (response_json (mt_path mc) [])"
    "first_mounted v mc s s1" "a_counts s1 = (a_counts s)(?v := 1)" "a_hostname s1 = a_hostname s"
    by (rule mount_succeeds [OF assms(1,2,3,6,7,4)])
  have one: "a_counts s1 ?v = 1" using m(4) by simp
  note u = unmount_succeeds [OF assms(1,2,8,9,10) one]
  have c: "a_counts s3 = a_counts s" using u(1) m(4) assms(4) by (auto simp: fun_eq_iff)
  have mt: "a_mounts s3 = a_mounts s" using u(2) m(3) by (auto simp: first_mounted_def Let_def fun_eq_iff)
  have st: "a_stops s3 = a_stops s \<and>
      a_gos s3 = a_gos s @ (if v_unlocked v then [] else [Stopping (mount_use ?v (a_hostname s))])"
  proof (cases "v_unlocked v")
    case True
    then show ?thesis using u(3) m(3) by (simp add: first_mounted_def Let_def)
  next
    case False
    then show ?thesis
      using u(4) [of "length (a_gos s)"] m(3) assms(5) by (auto simp: first_mounted_def Let_def fun_eq_iff)
  qed
  show ?thesis using m(1-4) c mt st by blast
qed

lemma share_fresh_view:
  "parameters_view (GetStorageParameters (machine_host 3) share_volume (node1 share_world)) =
     Some (share, None, Ok ''/mnt/ceph/gold/web'', True)"
  by code_simp

text \<open>How a request ended and what it said last.\<close>

definition run_view :: "(goerr, unit) outcome \<times> machine api \<Rightarrow> (goerr, unit) outcome \<times> answer \<times> (string \<times> string) list" where
  "run_view p = (fst p, last (srv_answers (snd p)), mc_mounts (srv_world (snd p)))"

definition share_twice :: "machine api" where
  "share_twice = snd (mem_mount (node1 share_world))"

lemma share_mount_run:
  "run_view (mem_mount (node1 share_world)) = (Ok (), Content (render (response_json ''/mnt/ceph/gold/web'' [])),
     [(''/mnt/ceph/gold/web'', ''10.0.0.1:/web'')])"
  by code_simp

lemma share_twice_view:
  "parameters_view (GetStorageParameters (machine_host 3) share_volume share_twice) =
     Some (share, Some (use_text (UseMount ''gold/web'' ''node1'' ''Mount'')), Ok ''/mnt/ceph/gold/web'', True)"
  by code_simp

lemma share_unmount_run:
  "run_view (mem_unmount share_twice) = (Ok (), Content (render (response_json ''/mnt/ceph/gold/web'' [])), [])"
  by code_simp

lemma node1_fields: "a_counts (node1 w) v = 0" "a_stops (node1 w) v = None" "a_mounts (node1 w) v = None" "a_gos (node1 w) = []"
  "a_hostname (node1 w) = ''node1''"
  by (simp_all add: node1_def NewAPI_def NewCounter_def NewCollection_def)

theorem mount_unmount_roundtrip_witness:
  "a_mounts share_twice ''gold/web'' \<noteq> None \<and> a_counts (snd (mem_unmount share_twice)) = a_counts (node1 share_world) \<and>
   a_mounts (snd (mem_unmount share_twice)) = a_mounts (node1 share_world) \<and>
   a_gos (snd (mem_unmount share_twice)) = [Stopping (UseMount ''gold/web'' ''node1'' ''Mount'')]"
proof -
  obtain d opts s0 where g: "GetStorageParameters (machine_host 3) share_volume (node1 share_world) = (Ok (d, share, opts), s0)"
    using share_fresh_view unfolding parameters_view_def by (auto split: prod.splits outcome.splits)
  obtain d' opts' s2 where g2: "GetStorageParameters (machine_host 3) share_volume share_twice = (Ok (d', share, opts'), s2)"
    using share_twice_view unfolding parameters_view_def by (auto split: prod.splits outcome.splits)
  have m: "api_Mount (machine_host 3) (NewVolplugin (machine_host 3)) share_request (node1 share_world) = (Ok (), share_twice)"
    "last (srv_answers share_twice) = Content (render (response_json ''/mnt/ceph/gold/web'' []))"
    using share_mount_run unfolding run_view_def share_twice_def mem_mount_def by (simp_all add: prod_eq_iff)
  have u: "api_Unmount (machine_host 3) (NewVolplugin (machine_host 3)) share_request share_twice = (Ok (), snd (mem_unmount share_twice))"
    "last (srv_answers (snd (mem_unmount share_twice))) = Content (render (response_json ''/mnt/ceph/gold/web'' []))"
    using share_unmount_run unfolding run_view_def mem_unmount_def by (simp_all add: prod_eq_iff)
  from mount_unmount_roundtrip [OF machine_writes share_read g node1_fields(1,2) m g2 u] show ?thesis
    by (auto simp: first_mounted_def Let_def share_name node1_fields mount_use_def reason_defs)
qed

text \<open>
  An unmount of a volume that is not counted panics with its counter already lowered to -1 and, for a
  locked volume, with its lock taken and not given back. A counter of -1 lets two mounts through to the
  driver, since a request is a duplicate only when the raised counter is above 1.
\<close>

theorem unmatched_unmount:
  assumes "docker_ReadMount r = Ok uc" "GetStorageParameters c uc s = (Ok (d, v, opts), s0)"
    and "hold_use c v (mount_use (Volume_String v) (a_hostname s)) s0 = (Ok (), s1)" "a_counts s (Volume_String v) = 0"
  shows "api_Unmount c (NewVolplugin c) r s =
      (Panic ''Assertion failed while tracking unmount'', s1\<lparr>a_counts := (a_counts s)(Volume_String v := - 1)\<rparr>) \<and>
    (\<forall>n t t1. n \<in> {- 1, 0} \<longrightarrow> a_counts t (Volume_String v) = n \<longrightarrow>
      hold_use c v (mount_use (Volume_String v) (a_hostname t)) t = (Ok (), t1) \<longrightarrow>
      mount_volume c (NewVolplugin c) d v opts t =
        mount_first c (NewVolplugin c) d v opts (mount_use (Volume_String v) (a_hostname t))
          (t1\<lparr>a_counts := (a_counts t)(Volume_String v := n + 1)\<rparr>))"
proof -
  obtain w0 where s0: "s0 = s\<lparr>srv_world := w0\<rparr>" by (rule parameters_world [OF assms(2)])
  obtain w1 where s1: "s1 = s0\<lparr>srv_world := w1\<rparr>" by (rule hold_world [OF assms(3)])
  have hold: "hold_use c v (mount_use (Volume_String v) (a_hostname s0)) s0 = (Ok (), s1)" using assms(3) by (simp add: s0)
  have "counter_Sub (Volume_String v) s1 =
      (Panic ''Assertion failed while tracking unmount'', s1\<lparr>a_counts := (a_counts s)(Volume_String v := - 1)\<rparr>)"
    using assms(4) by (simp add: counter_Sub_def Let_def s1 s0)
  then show ?thesis
    using request_runs(2) [OF assms(1,2)] unmount_volume_run [OF hold, of d opts] by (auto simp: mount_volume_run)
qed

theorem unmatched_unmount_witness:
  "fst (mem_unmount (node1 share_world)) = Panic ''Assertion failed while tracking unmount'' \<and>
   a_counts (snd (mem_unmount (node1 share_world))) ''gold/web'' = - 1"
proof -
  obtain d opts s0 where g: "GetStorageParameters (machine_host 3) share_volume (node1 share_world) = (Ok (d, share, opts), s0)"
    and h: "fst (hold_use (machine_host 3) share (UseMount ''gold/web'' ''node1'' ''Mount'') s0) = Ok ()"
    using share_fresh_view unfolding parameters_view_def by (auto split: prod.splits outcome.splits)
  have h': "hold_use (machine_host 3) share (mount_use (Volume_String share) (a_hostname (node1 share_world))) s0 =
      (Ok (), snd (hold_use (machine_host 3) share (mount_use (Volume_String share) (a_hostname (node1 share_world))) s0))"
    using h by (simp add: node1_fields share_name mount_use_def reason_defs prod_eq_iff)
  from unmatched_unmount [OF share_read g h' node1_fields(1)] show ?thesis
    by (simp add: mem_unmount_def share_name)
qed

end
