(* ===== verification/Volplugin_Props.thy ===== *)
theory Volplugin_Props imports Volplugin_Daemon Api_Success begin

text \<open>
  What the start of the plugin rebuilds: the counters of the mounts from docker's running containers.
\<close>

section \<open>The table of mounts\<close>

lemma mount_put_keys: "distinct (map fst t) \<Longrightarrow> distinct (map fst (mount_put k m t))"
  "fst ` set (mount_put k m t) = insert k (fst ` set t)"
  by (auto simp: mount_put_def distinct_map inj_on_def)

lemma docker_table_keys: "distinct (map fst (docker_table names))" "fst ` set (docker_table names) = set names"
proof -
  have "distinct (map fst t) \<Longrightarrow> distinct (map fst (fold (\<lambda>n. mount_put n None) ns t)) \<and>
      fst ` set (fold (\<lambda>n. mount_put n None) ns t) = fst ` set t \<union> set ns" for ns and t :: mount_table
    by (induction ns arbitrary: t) (auto simp: mount_put_keys)
  from this [of "[]" names] show "distinct (map fst (docker_table names))" "fst ` set (docker_table names) = set names"
    by (simp_all add: docker_table_def)
qed

lemma add_mounted_keys:
  "distinct (map fst t) \<Longrightarrow> distinct (map fst (add_mounted ms t)) \<and> fst ` set t \<subseteq> fst ` set (add_mounted ms t)"
  unfolding add_mounted_def
proof (induction ms arbitrary: t)
  case (Cons m ms)
  from Cons.IH [OF mount_put_keys(1) [OF Cons.prems], of "sv_name (mt_volume m)" "Some m"] mount_put_keys(2) [of "sv_name (mt_volume m)" "Some m" t]
  show ?case by auto
qed simp

lemma scan_drivers_keys:
  "scan_drivers c global names t w = (Ok t', w') \<Longrightarrow> distinct (map fst t) \<Longrightarrow>
     distinct (map fst t') \<and> fst ` set t \<subseteq> fst ` set t'"
proof (induction names arbitrary: t w)
  case (Cons name names)
  from Cons.prems(1) obtain cd w1 mounted w2 where "scan_drivers c global names (add_mounted mounted t) w2 = (Ok t', w')"
    by (auto elim!: andThen_OkE)
  from Cons.IH [OF this] add_mounted_keys [OF Cons.prems(2), of mounted] show ?case by (blast intro: subset_trans)
qed simp

lemma getMounted_keys:
  assumes "getMounted c dk plugin global w = (Ok (t, counts), w')"
  shows "distinct (map fst t)" "n \<notin> fst ` set t \<Longrightarrow> counts n = 0"
proof -
  obtain containers w1 where s: "scan_drivers c global (h_order c (map fst (MountDrivers c)))
      (docker_table (plugin_mounts plugin containers)) w1 = (Ok t, w')"
    and counts: "counts = docker_counts (plugin_mounts plugin containers)"
    using assms by (auto simp: getMounted_def Let_def elim!: andThen_OkE)
  note k = scan_drivers_keys [OF s docker_table_keys(1)]
  show "distinct (map fst t)" using k by simp
  assume "n \<notin> fst ` set t"
  then have "n \<notin> set (plugin_mounts plugin containers)" using k docker_table_keys(2) by auto
  then show "counts n = 0" by (simp add: counts docker_counts_def count_notin)
qed

section \<open>The counters\<close>

lemma counts_adopt: "keeps same_counts (mounted_volume c p n)" "keeps same_counts (adopt_mount c name m v)"
proof -
  have "keeps same_counts (collection_Get v)" for v
    unfolding collection_Get_def by (auto intro!: counts.steps split: option.splits)
  moreover have "keeps same_counts (start_refresh c u)" for u
    unfolding start_refresh_def by (auto intro!: counts.steps) (simp add: keeps_def same_counts_def)
  ultimately show "keeps same_counts (mounted_volume c p n)" "keeps same_counts (adopt_mount c name m v)"
    unfolding mounted_volume_def adopt_mount_def by (auto intro!: counts.steps counts_state)
qed

lemma update_mount_counts:
  assumes "update_mount c counts name mount s = (Ok (), s')"
  shows "mount \<noteq> None" "a_counts s' = (a_counts s)(name := a_counts s name + counts name)"
proof -
  obtain m where m: "mount = Some m" using assms by (auto simp: update_mount_def split: option.splits)
  then show "mount \<noteq> None" by simp
  let ?s = "s\<lparr>a_counts := (a_counts s)(name := a_counts s name + counts name)\<rparr>"
  let ?k = "case split_on CHR ''/'' name of
            [policy, vol] \<Rightarrow>
              andThen (mounted_volume c policy vol) (\<lambda>v. case v of None \<Rightarrow> ret () | Some volume \<Rightarrow> adopt_mount c name m volume)
          | _ \<Rightarrow> ret ()"
  have "?k ?s = (Ok (), s')"
    using assms m by (simp add: update_mount_def counter_AddCount_def andThen_def attempt_def)
  moreover have "keeps same_counts ?k"
    by (auto intro!: counts.steps counts_adopt split: list.splits option.splits)
  ultimately have "same_counts ?s s'" by (rule keepsD [rotated])
  then show "a_counts s' = (a_counts s)(name := a_counts s name + counts name)" by (simp add: same_counts_def)
qed

lemma update_entries_counts:
  "update_entries c counts t names s = (Ok (), s') \<Longrightarrow> distinct names \<Longrightarrow>
     (\<forall>n \<in> set names. map_of t n \<noteq> Some None) \<and>
     a_counts s' = (\<lambda>n. if n \<in> set names then a_counts s n + counts n else a_counts s n)"
proof (induction names arbitrary: s)
  case (Cons name names)
  from Cons.prems(1) obtain s1 where u: "update_mount c counts name (case map_of t name of None \<Rightarrow> None | Some m \<Rightarrow> m) s = (Ok (), s1)"
    and rest: "update_entries c counts t names s1 = (Ok (), s')"
    by (auto elim!: andThen_OkE)
  from Cons.IH [OF rest] Cons.prems(2) update_mount_counts [OF u] show ?case by (auto simp: fun_eq_iff)
qed simp


definition busy_world :: machine where
  "busy_world = share_world\<lparr>mc_files :=
     [(deviceInfoFile, []), (mountInfoFile, mountinfo_text [(root_mount, []), (nfs_mount\<lparr>mi_point := ''/mnt/ceph/gold/web''\<rparr>, [''rw''])])]\<rparr>"

definition busy_docker :: "(string \<times> string) list \<Rightarrow> machine docker" where
  "busy_docker mounts = \<lparr>dk_new = ret (), dk_list = ret
     [\<lparr>ct_state = ''running'', ct_mounts = mounts\<rparr>, \<lparr>ct_state = ''running'', ct_mounts = [(''volplugin'', ''gold/web'')]\<rparr>,
      \<lparr>ct_state = ''exited'', ct_mounts = mounts\<rparr>]\<rparr>"

definition count_view :: "(string \<times> string) list \<Rightarrow> bool \<times> int" where
  "count_view mounts =
     (case updateMounts (machine_host 3) (busy_docker mounts) ''volplugin'' (node1 busy_world) of
        (r, s) \<Rightarrow> (r = Ok (), a_counts s ''gold/web''))"


end
