(* ===== verification/Volcli_Props.thy ===== *)
theory Volcli_Props imports Volcli Serving Apiserver_Props Config_Store begin

text \<open>
  Properties of the command line client, most of them together with the API server it talks to: what is
  uploaded is what is shown, requests are understood, and a command runs only under its locks.
\<close>

section \<open>The way to the server\<close>

text \<open>
  Elements of a URL that need no escapes. A remote is linked to a server when a request for the server's
  address gets the response of the server (\<open>net/http\<close> on both sides).
\<close>

definition url_char :: "char \<Rightarrow> bool" where
  "url_char ch \<longleftrightarrow> is_digit ch \<or> (97 \<le> (of_char ch :: nat) \<and> (of_char ch :: nat) \<le> 122) \<or>
     (65 \<le> (of_char ch :: nat) \<and> (of_char ch :: nat) \<le> 90) \<or> ch \<in> set ''-_.~''"

definition url_seg :: "string \<Rightarrow> bool" where
  "url_seg s \<longleftrightarrow> list_all url_char s"

locale api_link =
  fixes h :: "('w srv) remote"
    and routes :: "'w routes"
    and addr :: string
  assumes do_run: "list_all url_seg ps \<Longrightarrow>
      rm_do h m (''http://'' @ addr @ ''/'' @ join slash ps) body = serve_request routes m (slash @ join slash ps) body"
    and new_ok: "list_all url_seg ps \<Longrightarrow> rm_new h m (''http://'' @ addr @ ''/'' @ join slash ps) = None"
begin

lemma api_run:
  assumes "cx_apiserver x = addr" "list_all url_seg ps"
  shows "rm_do h m (api_url x ps) body = serve_request routes m (slash @ join slash ps) body"
  unfolding api_url_def assms(1) by (rule do_run [OF assms(2)])

end

text \<open>A server reached without a network.\<close>

definition direct_remote :: "'w routes \<Rightarrow> string \<Rightarrow> ('w srv) remote" where
  "direct_remote routes addr =
     \<lparr>rm_new = (\<lambda>m url. None),
      rm_do = (\<lambda>m url body.
        if has_prefix (''http://'' @ addr @ ''/'') url
        then serve_request routes m (drop (length (''http://'' @ addr)) url) body
        else fail (Plain ''connection refused'')),
      rm_connect = (\<lambda>hosts. Err (Plain ''no etcd'')), rm_shell = (\<lambda>s. ret ())\<rparr>"

interpretation direct: api_link "direct_remote routes addr" routes addr
  by unfold_locales (simp_all add: direct_remote_def has_prefix_def)

section \<open>Paths\<close>

lemma cleanPath_plain:
  assumes "ps \<noteq> []" "\<forall>p \<in> set ps. plain_seg p"
  shows "cleanPath (slash @ join slash ps) = slash @ join slash ps"
proof -
  have "last (slash @ join slash ps) \<noteq> CHR ''/''"
    using assms
  proof (induction ps)
    case (Cons p ps)
    then show ?case
      by (cases ps) (auto simp: plain_seg_def last_append dest: last_in_set)
  qed simp
  then show ?thesis using path_clean_rooted [OF assms(2)] by (simp add: cleanPath_def Let_def)
qed

lemma match_plain:
  assumes "ps \<noteq> []" "\<forall>p \<in> set ps. plain_seg p" "ts \<noteq> []" "\<forall>t \<in> set ts. CHR ''/'' \<notin> set t"
  shows "match_path (slash @ join slash ts) (slash @ join slash ps) = match_segs ts ps"
proof -
  have "\<forall>p \<in> set ps. CHR ''/'' \<notin> set p" using assms(2) by (simp add: plain_seg_def)
  then show ?thesis
    using assms(1,3) unfolding match_path_def split_on_rooted [OF assms(4)] split_on_rooted [OF \<open>\<forall>p \<in> set ps. CHR ''/'' \<notin> set p\<close>]
    by simp
qed

section \<open>What the commands send is understood\<close>

lemma wf_request_json [simp]: "wf_json (request_json r)"
  by (simp add: request_json_def json_fields)

lemma fill_request: "smap_fits (vr_options r) \<Longrightarrow> fill request_fields (request_json r) zero_request = Some r"
  by (simp add: request_json_def request_fields_def json_fields fold_eq_def lower_char_def get_smap_fits zero_request_def)

lemma unmarshal_request: "smap_fits (vr_options r) \<Longrightarrow> unmarshal request_fields (render (request_json r)) zero_request = Ok r"
  by (rule unmarshal_render) (simp_all add: fill_request)

section \<open>Handlers that answer with status 200\<close>

text \<open>Error branches of the handlers answer with another status.\<close>

definition refuses :: "('w, unit) serve \<Rightarrow> bool" where
  "refuses m \<longleftrightarrow> (\<forall>s. srv_answers s = [] \<longrightarrow> answer_status (srv_answers (snd (m s))) \<noteq> 200)"

lemma refuses_rest [simp]: "refuses (rest_error e)" "refuses (answer (Header 404))"
  by (simp_all add: refuses_def rest_error_run rest_error_def)

lemma status_attempt:
  assumes "attempt m h k s = (r, s')" "answer_status (srv_answers s') = 200" "silent m" "srv_answers s = []"
    and "\<And>e. refuses (h e)" "\<And>p. r \<noteq> Panic p" "r \<noteq> Hang"
  obtains x s1 where "m s = (Ok x, s1)" "k x s1 = (r, s')" "srv_answers s1 = []"
proof (cases m s rule: attempt_cases)
  case (ok x w1)
  with silentD [OF assms(3) ok] assms(4) have "srv_answers w1 = []" by (simp add: answered_def)
  then show ?thesis using that ok assms(1) by simp
next
  case (err e w1)
  with silentD [OF assms(3) err] assms(4) have "srv_answers w1 = []" by (simp add: answered_def)
  then have "answer_status (srv_answers (snd (h e w1))) \<noteq> 200" using assms(5) unfolding refuses_def by blast
  then have "answer_status (srv_answers s') \<noteq> 200" using assms(1) err by simp
  then show ?thesis using assms(2) by simp
qed (use assms(1,6,7) in auto)

lemma run_handler_OkE:
  assumes "run_handler f r s = (Ok resp, s')" "rs_status resp = 200"
  obtains q where "f r (s\<lparr>srv_answers := []\<rparr>) = (q, s')" "answer_status (srv_answers s') = 200"
    "\<And>p. q \<noteq> Panic p" "q \<noteq> Hang" "rs_body resp = concat (map answer_body (srv_answers s'))" "rs_error resp = None"
proof -
  obtain q s2 where f: "f r (s\<lparr>srv_answers := []\<rparr>) = (q, s2)" by fastforce
  show thesis
    by (rule that [of q]) (use assms f in \<open>cases q; auto simp: run_handler_def response_of_def\<close>)+
qed

lemma check_status_OkE: "check_status t resp s = (Ok (), s') \<Longrightarrow> rs_status resp = 200 \<and> s' = s"
  by (auto simp: check_status_def elim!: attempt_OkE split: if_splits)

lemma failing_OkE: "failing m s = (Ok x, s') \<Longrightarrow> m s = (Ok x, s')"
  by (auto simp: failing_def elim!: attempt_OkE)

section \<open>A removal\<close>

lemma silent_locked:
  "silent f \<Longrightarrow> silent (ExecuteWithMultiUseLock (srv_host c) us timeout f)"
  unfolding srv_MultiUseLock by (intro silent_rest silent_attempt silent_pure)

lemma del_keeps_gone:
  assumes "etcd c fval" "RemoveUse c u False w = (r, w')" "fval w k = None"
  shows "fval w' k = None"
proof -
  obtain r1 w1 where d: "kv_del c (lock_key c u) (remove_opts u False) w = (r1, w1)" by fastforce
  have o: "\<not> do_recursive (remove_opts u False)" "\<not> do_dir (remove_opts u False)"
    by (simp_all add: remove_opts_def del_nil_def)
  have "fval w1 k = None"
    by (rule etcd.del_cases [OF assms(1) d])
      (use d assms(3) etcd.del_ok [OF assms(1) _ o] etcd.del_unknown [OF assms(1) _ o] in fastforce)+
  moreover have "w' = w1"
    by (rule etcd.del_cases [OF assms(1) d]) (use assms(2) d in \<open>auto simp: RemoveUse_def\<close>)
  ultimately show ?thesis by simp
qed

lemma release_keeps_gone:
  assumes "etcd c fval"
  shows "release_all c us w = (r, w') \<Longrightarrow> fval w k = None \<Longrightarrow> fval w' k = None"
proof (induction us arbitrary: w)
  case (Cons u us)
  obtain r1 w1 where u: "RemoveUse c u False w = (r1, w1)" by fastforce
  have gone: "fval w1 k = None" by (rule del_keeps_gone [OF assms u Cons.prems(2)])
  show ?case
  proof (cases "\<exists>p. r1 = Panic p \<or> r1 = Hang")
    case True
    then show ?thesis using Cons.prems(1) u gone by (auto simp: regardless_def)
  next
    case False
    then have "release_all c us w1 = (r, w')" using Cons.prems(1) u by (cases r1) auto
    then show ?thesis using Cons.IH gone by blast
  qed
qed simp

lemma removed_gone:
  assumes "etcd c fval" "wf_prefix (c_prefix c)" "name_valid (vr_policy req)" "name_valid (vr_name req)" "plain_seg t"
    and "remove_locked c global timeout req vc w = (Ok (), w')"
  shows "fval w' (volume_key c (vr_policy req) (vr_name req) t) = None"
proof -
  have "\<exists>w1. cfg_RemoveVolume c (vr_policy req) (vr_name req) w1 = (Ok (), w')"
    using assms(6)
    by (auto simp: remove_locked_def completeRemove_def srv_removeVolume_def regardless_def elim!: attempt_OkE split: if_splits) blast+
  then obtain w1 n where "kv_del c (volume_dir c (vr_policy req) (vr_name req)) (del_nil\<lparr>do_recursive := True\<rparr>) w1 = (Ok n, w')"
    by (auto simp: cfg_RemoveVolume_def elim!: attempt_OkE)
  from etcd.del_tree_ok [OF assms(1) this] show ?thesis
    using volume_below [OF assms(2-5,3,4)] by (simp add: prune_def)
qed

text \<open>What the handler has done when it answers with status 200.\<close>

lemma handleRemove_done:
  assumes "handleRemove c r s = (q, s')" "srv_answers s = []" "answer_status (srv_answers s') = 200" "\<And>p. q \<noteq> Panic p" "q \<noteq> Hang"
    and "etcd c fval" "wf_prefix (c_prefix c)" "plain_seg t"
    and "\<And>req. unmarshalRequest r = Ok req \<Longrightarrow> name_valid (vr_policy req) \<and> name_valid (vr_name req)"
  shows "q = Ok () \<and> (\<exists>req. unmarshalRequest r = Ok req \<and> fval (srv_world s') (volume_key c (vr_policy req) (vr_name req) t) = None)"
proof -
  note go = assms(3) _ _ _ assms(4,5)
  have "attempt (lift (unmarshalRequest r)) (\<lambda>e. rest_error (Combine UnmarshalRequest e)) (\<lambda>req.
      attempt (lift (remove_timeout (srv_global s) req)) rest_error (\<lambda>timeout.
      attempt (inner (cfg_GetVolume c (vr_policy req) (vr_name req))) (\<lambda>e. rest_error (Combine GetVolume e)) (\<lambda>vc.
      attempt (inner (createRemoveLocks c vc)) rest_error (\<lambda>locks.
        remove_volume c (srv_global s) req timeout vc locks)))) s = (q, s')"
    using assms(1) by (simp add: handleRemove_def)
  then obtain req s1 where 1: "lift (unmarshalRequest r) s = (Ok req, s1)" "srv_answers s1 = []"
    "attempt (lift (remove_timeout (srv_global s) req)) rest_error (\<lambda>timeout.
      attempt (inner (cfg_GetVolume c (vr_policy req) (vr_name req))) (\<lambda>e. rest_error (Combine GetVolume e)) (\<lambda>vc.
      attempt (inner (createRemoveLocks c vc)) rest_error (\<lambda>locks.
        remove_volume c (srv_global s) req timeout vc locks))) s1 = (q, s')"
    by (rule status_attempt [OF _ go]) (use assms(2) in simp_all)
  from 1(3) obtain timeout s2 where 2: "lift (remove_timeout (srv_global s) req) s1 = (Ok timeout, s2)" "srv_answers s2 = []"
    "attempt (inner (cfg_GetVolume c (vr_policy req) (vr_name req))) (\<lambda>e. rest_error (Combine GetVolume e)) (\<lambda>vc.
      attempt (inner (createRemoveLocks c vc)) rest_error (\<lambda>locks.
        remove_volume c (srv_global s) req timeout vc locks)) s2 = (q, s')"
    by (rule status_attempt [OF _ go]) (use 1 in simp_all)
  from 2(3) obtain vc s3 where 3: "srv_answers s3 = []"
    "attempt (inner (createRemoveLocks c vc)) rest_error (\<lambda>locks.
        remove_volume c (srv_global s) req timeout vc locks) s3 = (q, s')"
    by (rule status_attempt [OF _ go]) (use 2 in simp_all)
  from 3(2) obtain locks s4 where 4: "srv_answers s4 = []" "remove_volume c (srv_global s) req timeout vc locks s4 = (q, s')"
    by (rule status_attempt [OF _ go]) (use 3 in simp_all)
  from 4(2) obtain u s5 where 5: "srv_answers s5 = []"
    "attempt (ExecuteWithMultiUseLock (srv_host c) locks timeout (inner (remove_locked c (srv_global s) timeout req vc)))
       (\<lambda>err. if err = NotExists then answer (Header 404) else rest_error (remove_error vc err)) ret s5 = (q, s')"
    unfolding remove_volume_def by (rule status_attempt [OF _ go]) (use 4 in \<open>simp_all split: if_splits\<close>)
  from 5(2) obtain s6 where "ExecuteWithMultiUseLock (srv_host c) locks timeout (inner (remove_locked c (srv_global s) timeout req vc)) s5 = (Ok (), s6)"
      "s6 = s'" "q = Ok ()"
    by (rule status_attempt [OF _ go]) (use 5 in \<open>simp_all add: silent_locked\<close>)
  then obtain w1 w2 w3 q1 where "remove_locked c (srv_global s) timeout req vc w1 = (Ok (), w2)"
      "release_all c locks w2 = (q1, w3)" "srv_world s' = w3"
    by (auto simp: srv_MultiUseLock elim!: andThen_OkE attempt_OkE inner_cases)
  moreover have u: "unmarshalRequest r = Ok req" using 1(1) by simp
  ultimately show ?thesis
    using removed_gone [OF assms(6,7) _ _ assms(8)] release_keeps_gone [OF assms(6)] assms(9) [OF u] \<open>q = Ok ()\<close> by blast
qed

section \<open>The exchanges of the commands\<close>

lemma with_args_Ok: "with_args n x m s = (Ok (), s') \<Longrightarrow> length (cx_args x) = n \<and> m s = (Ok (), s')"
  by (simp add: with_args_def bad_args_def split: if_splits)

lemma with_volume_Ok:
  assumes "with_volume x k s = (Ok (), s')"
  obtains policy volume where "splitVolume x = Some (policy, volume)" "k policy volume s = (Ok (), s')"
  using assms by (auto simp: with_volume_def split: option.splits prod.splits)

lemma splitVolume_names: "splitVolume x = Some (policy, volume) \<Longrightarrow> policy \<noteq> [] \<and> volume \<noteq> []"
  by (auto simp: splitVolume_def split: list.splits if_splits)

lemma volumeRemove_OkE:
  assumes "volumeRemove h t x s = (Ok (), s')" "splitVolume x = Some (policy, volume)"
  obtains resp where "ParseDuration (cx_timeout x) = None \<longrightarrow> cx_timeout x = []" "rs_status resp = 200"
    "rm_do h DELETE (api_url x [''volumes'', ''remove''])
       (render (request_json \<lparr>vr_name = volume, vr_policy = policy, vr_options = Some (remove_options x)\<rparr>)) s = (Ok resp, s')"
proof -
  let ?b = "render (request_json \<lparr>vr_name = volume, vr_policy = policy, vr_options = Some (remove_options x)\<rparr>)"
  have "with_volume x (\<lambda>policy volume.
       if ParseDuration (cx_timeout x) = None \<and> cx_timeout x \<noteq> []
       then fail (False, Fresh '' is not a valid timeout'')
       else
         andThen (deleteRequest h (api_url x [''volumes'', ''remove''])
             (render (request_json \<lparr>vr_name = volume, vr_policy = policy, vr_options = Some (remove_options x)\<rparr>))) (\<lambda>resp.
         andThen (check_found resp) (\<lambda>_. check_status t resp))) s = (Ok (), s')"
    using with_args_Ok [OF assms(1) [unfolded volumeRemove_def]] by blast
  then have t: "ParseDuration (cx_timeout x) = None \<longrightarrow> cx_timeout x = []"
    and "andThen (deleteRequest h (api_url x [''volumes'', ''remove'']) ?b) (\<lambda>resp.
         andThen (check_found resp) (\<lambda>_. check_status t resp)) s = (Ok (), s')"
    using assms(2) by (auto simp: with_volume_def split: if_splits)
  then obtain resp s1 where "deleteRequest h (api_url x [''volumes'', ''remove'']) ?b s = (Ok resp, s1)"
      "rs_status resp = 200 \<and> s' = s1"
    by (auto simp: check_found_def elim!: andThen_OkE dest: check_status_OkE split: if_splits)
  then show thesis using that [OF t, of resp] by (auto simp: deleteRequest_def dest: failing_OkE split: option.splits)
qed

section \<open>Policies on the way to the store and back\<close>

lemma policy_fields_keep: "fields_keep policy_fits policy_fields"
  unfolding fields_keep_def policy_fields_def policy_fits_def
  using fill_keeps [OF runtime_fields_keep]
  by (auto simp: smap_fits_def split: option.splits intro: get_smap_ok)

lemma zero_policy_fits: "policy_fits NewPolicy"
  by (simp add: policy_fits_def smap_fits_def runtime_fits_def zero_defs)

lemma policy_path:
  assumes "plain_seg name"
  shows "match_path ''/policies/{policy}'' (slash @ join slash [''policies'', name]) = Some [(''policy'', name)]"
    and "cleanPath (slash @ join slash [''policies'', name]) = slash @ join slash [''policies'', name]"
proof -
  have p: "\<forall>p \<in> set [''policies'', name]. plain_seg p" using assms by (simp add: plain_seg_def)
  then show "cleanPath (slash @ join slash [''policies'', name]) = slash @ join slash [''policies'', name]"
    by (intro cleanPath_plain) simp_all
  have t: "''/policies/{policy}'' = slash @ join slash [''policies'', ''{policy}'']" by simp
  have v: "match_segs [''policies'', ''{policy}''] [''policies'', name] = Some [(''policy'', name)]"
    using assms by (simp add: is_var_def var_name_def plain_seg_def)
  show "match_path ''/policies/{policy}'' (slash @ join slash [''policies'', name]) = Some [(''policy'', name)]"
    unfolding t by (subst match_plain) (use p v in \<open>simp_all del: match_segs.simps\<close>)
qed

lemma handlePolicyUpload_done:
  assumes "handlePolicyUpload c r s = (q, s')" "srv_answers s = []" "answer_status (srv_answers s') = 200" "\<And>p. q \<noteq> Panic p" "q \<noteq> Hang"
    and "rq_error r = None"
  obtains p w where "unmarshal policy_fields (rq_content r) NewPolicy = Ok p"
    "cfg_PublishPolicy c (route_var r ''policy'') p (srv_world s) = (Ok (), w)" "s' = s\<lparr>srv_world := w\<rparr>"
proof -
  note go = assms(3) _ _ _ assms(4,5)
  from assms(1) obtain content s1 where 1: "lift (ReadAll r) s = (Ok content, s1)" "srv_answers s1 = []"
    "attempt (lift (unmarshal policy_fields content NewPolicy)) (\<lambda>e. rest_error (Combine UnmarshalPolicy e)) (\<lambda>policy.
       attempt (inner (cfg_PublishPolicy c (route_var r ''policy'') policy)) (\<lambda>e. rest_error (Combine PublishPolicy e)) ret) s1 = (q, s')"
    unfolding handlePolicyUpload_def read_into_def by (rule status_attempt [OF _ go]) (use assms(2) in simp_all)
  from 1(3) obtain p s2 where 2: "lift (unmarshal policy_fields content NewPolicy) s1 = (Ok p, s2)" "srv_answers s2 = []"
    "attempt (inner (cfg_PublishPolicy c (route_var r ''policy'') p)) (\<lambda>e. rest_error (Combine PublishPolicy e)) ret s2 = (q, s')"
    by (rule status_attempt [OF _ go]) (use 1 in simp_all)
  from 2(3) obtain s3 where "inner (cfg_PublishPolicy c (route_var r ''policy'') p) s2 = (Ok (), s3)" "s3 = s'"
    by (rule status_attempt [OF _ go]) (use 2 in simp_all)
  then show thesis using that [of p] 1(1) 2(1) assms(6) by (auto simp: ReadAll_def elim!: inner_cases)
qed

lemma serve_policy:
  assumes "served c routes" "plain_seg name" "cfg_GetPolicy c name (srv_world s) = (Ok q, w)" "writes_up c"
  shows "\<exists>s'. serve_request routes GET (slash @ join slash [''policies'', name]) [] s =
    (Ok \<lparr>rs_status = 200, rs_body = render (policy_json q), rs_error = None\<rparr>, s')"
proof -
  let ?r = "\<lparr>rq_content = [], rq_error = None, rq_vars = [(''policy'', name)]\<rparr>"
  have "(''/policies/{policy}'', handlePolicy c) \<in> set (handlers c GET)" by (simp add: handlers_def getRouter_def)
  from serve_found [OF assms(1) this policy_path [OF assms(2)]]
  have "serve_request routes GET (slash @ join slash [''policies'', name]) [] s = run_handler (handlePolicy c) ?r s" by simp
  moreover obtain w2 where w2: "h_write c (render (policy_json q)) w = (Ok (), w2)" using assms(4) unfolding writes_up_def by blast
  have "route_var ?r ''policy'' = name" by (simp add: route_var_def smap_get_def)
  then have "handlePolicy c ?r (s\<lparr>srv_answers := []\<rparr>) =
      (Ok (), s\<lparr>srv_world := w2, srv_answers := [Content (render (policy_json q))]\<rparr>)"
    using assms(3) w2 by (simp add: handlePolicy_def send_ignored_def send_def io_defs inner_def answer_def)
  ultimately show ?thesis by (simp add: run_handler_def response_of_def)
qed

section \<open>Properties\<close>

text \<open>
  C5. A \<open>volcli volume remove\<close> that ends without an error has removed the volume: the server has decoded the request with
  the names and the flags it was given, has not refused the timeout (both sides parse it alike, an empty one means
  the global timeout), and when it answered no record of the volume was left.
\<close>

theorem cli_removal:
  assumes "etcd c fval" "wf_prefix (c_prefix c)" "api_link h routes addr" "served c routes" "cx_apiserver x = addr"
    and "splitVolume x = Some (policy, volume)" "name_valid policy" "name_valid volume" "plain_seg typ"
    and "volumeRemove h t x s = (Ok (), s')"
  shows "\<exists>r req. fst (handleRemove c r (s\<lparr>srv_answers := []\<rparr>)) = Ok () \<and> snd (handleRemove c r (s\<lparr>srv_answers := []\<rparr>)) = s' \<and>
    unmarshalRequest r = Ok req \<and> vr_policy req = policy \<and> vr_name req = volume \<and>
    (option_of req ''force'' = ''true'' \<longleftrightarrow> cx_force x) \<and>
    remove_timeout (srv_global s) req = Ok (case ParseDuration (cx_timeout x) of Some t \<Rightarrow> t | None \<Rightarrow> g_timeout (srv_global s)) \<and>
    fval (srv_world s') (volume_key c policy volume typ) = None"
proof -
  let ?req = "\<lparr>vr_name = volume, vr_policy = policy, vr_options = Some (remove_options x)\<rparr>"
  let ?r = "\<lparr>rq_content = render (request_json ?req), rq_error = None, rq_vars = []\<rparr>"
  obtain resp where t: "ParseDuration (cx_timeout x) = None \<longrightarrow> cx_timeout x = []" and ok: "rs_status resp = 200"
    and do: "rm_do h DELETE (api_url x [''volumes'', ''remove'']) (rq_content ?r) s = (Ok resp, s')"
    using volumeRemove_OkE [OF assms(10,6)] by auto
  have segs: "list_all url_seg [''volumes'', ''remove'']" by code_simp
  have path: "slash @ join slash [''volumes'', ''remove''] = ''/volumes/remove''" by simp
  have m: "match_path ''/volumes/remove'' ''/volumes/remove'' = Some []" "cleanPath ''/volumes/remove'' = ''/volumes/remove''" by code_simp+
  have "(''/volumes/remove'', handleRemove c) \<in> set (handlers c DELETE)" by (simp add: handlers_def deleteRouter_def)
  from serve_found [OF assms(4) this m] have "run_handler (handleRemove c) ?r s = (Ok resp, s')"
    using do api_link.api_run [OF assms(3,5) segs] path by simp
  then obtain q where q: "handleRemove c ?r (s\<lparr>srv_answers := []\<rparr>) = (q, s')" "answer_status (srv_answers s') = 200"
      "\<And>p. q \<noteq> Panic p" "q \<noteq> Hang"
    by (rule run_handler_OkE [OF _ ok]) blast
  have "smap_ok (remove_options x)" by (simp add: remove_options_def smap_ok_def)
  then have "unmarshal request_fields (rq_content ?r) zero_request = Ok ?req"
    by (simp add: unmarshal_request smap_fits_def)
  then have req: "unmarshalRequest ?r = Ok ?req"
    using splitVolume_names [OF assms(6)] by (simp add: unmarshalRequest_def ReadAll_def)
  have opts: "option_of ?req ''timeout'' = cx_timeout x" "option_of ?req ''force'' = ''true'' \<longleftrightarrow> cx_force x"
    by (simp_all add: option_of_def remove_options_def lookup_opt_def smap_get_def)
  have "ParseDuration [] = None" by code_simp
  then have timeout: "remove_timeout g ?req = Ok (case ParseDuration (cx_timeout x) of Some t \<Rightarrow> t | None \<Rightarrow> g_timeout g)" for g
    using t by (cases "ParseDuration (cx_timeout x)") (auto simp: remove_timeout_def opts)
  have gone: "fval (srv_world s') (volume_key c policy volume typ) = None"
    using handleRemove_done [OF q(1) _ q(2-4) assms(1,2,9)] req assms(7,8) by auto
  have "q = Ok ()"
    using handleRemove_done [OF q(1) _ q(2-4) assms(1,2,9)] req assms(7,8) by auto
  then show ?thesis using q(1) req opts(2) timeout gone by (intro exI [of _ ?r] exI [of _ ?req]) simp
qed

text \<open>A server on the machine, with an NFS volume, and a terminal that records what is printed in the trace of the machine.\<close>

definition test_routes :: "machine routes" where
  "test_routes = (case server_routes False (handlers (machine_host 3)) of Ok r \<Rightarrow> r | _ \<Rightarrow> (\<lambda>m. []))"

lemma test_served: "served (machine_host 3) test_routes"
proof -
  have i: "\<forall>m. mset (handlers (machine_host 3) m) = mset (handlers (machine_host 3) m)" by simp
  have "list_all (\<lambda>(path, f). \<not> has_suffix ''/'' path) (handlers (machine_host 3) m)" for m by (rule handlers_no_slash)
  then have "\<exists>rs. addRoute False (handlers (machine_host 3) m) [] = Ok rs" for m by (simp add: addRoute_Ok)
  then obtain rs where "\<And>m. addRoute False (handlers (machine_host 3) m) [] = Ok (rs m)" by metis
  then obtain r where "server_routes False (handlers (machine_host 3)) = Ok r" by (simp add: server_routes_def)
  then show ?thesis unfolding served_def test_routes_def using i by fastforce
qed

definition test_remote :: "(machine srv) remote" where
  "test_remote = direct_remote test_routes ''127.0.0.1:9005''"

definition test_console :: "string \<Rightarrow> (machine srv) console" where
  "test_console input =
     \<lparr>con_print = (\<lambda>text s. s\<lparr>srv_world := (srv_world s)\<lparr>mc_trace := mc_trace (srv_world s) @ [[text]]\<rparr>\<rparr>),
      con_stderr = (\<lambda>text. ret ()), con_stdin = ret input, con_line = ret input, con_help = id\<rparr>"

definition test_ctx :: "string list \<Rightarrow> ctx" where
  "test_ctx args = \<lparr>cx_args = args, cx_apiserver = ''127.0.0.1:9005'', cx_prefix = ''/volplugin'', cx_etcd = [],
     cx_opt = [], cx_timeout = ''1s'', cx_force = False, cx_snapshots = False, cx_snapshot = False\<rparr>"

definition removable :: Volume where
  "removable = zero_volume\<lparr>v_policy := ''gold'', v_name := ''share'', v_mount := ''10.0.0.1:/export'',
     v_backends := Some \<lparr>bd_crud = [], bd_mount = ''nfs'', bd_snapshot = []\<rparr>\<rparr>"

definition removable_world :: machine where
  "removable_world = snd (cfg_PublishVolume (machine_host 3) removable machine_start)"

theorem cli_removal_witness:
  "\<exists>s'. volumeRemove test_remote (test_console []) (test_ctx [''gold/share'']) (daemon removable_world) = (Ok (), s') \<and>
     mem_file removable_world (volume_key (machine_host 3) ''gold'' ''share'' ''create'') \<noteq> None \<and>
     mem_file (srv_world s') (volume_key (machine_host 3) ''gold'' ''share'' ''create'') = None"
proof -
  let ?run = "volumeRemove test_remote (test_console []) (test_ctx [''gold/share'']) (daemon removable_world)"
  have "fst ?run = Ok ()" by code_simp
  then have r: "?run = (Ok (), snd ?run)" by (metis prod.collapse)
  have before: "mem_file removable_world (volume_key (machine_host 3) ''gold'' ''share'' ''create'') \<noteq> None" by code_simp
  have x: "splitVolume (test_ctx [''gold/share'']) = Some (''gold'', ''share'')" by code_simp
  have a: "cx_apiserver (test_ctx [''gold/share'']) = ''127.0.0.1:9005''" by (simp add: test_ctx_def)
  have n: "name_valid ''gold''" "name_valid ''share''" by (simp_all add: name_valid_def)
  have l: "api_link test_remote test_routes ''127.0.0.1:9005''" unfolding test_remote_def by (rule direct.api_link_axioms)
  from cli_removal [OF machine.etcd_axioms machine_prefix l test_served a x n create_plain(1) r] r before show ?thesis by blast
qed

text \<open>
  C4. A policy that \<open>volcli policy upload\<close> has sent without an error is the policy that \<open>volcli policy get\<close> prints next: the
  uploaded JSON, validated under the name on the command line with the defaults filled in, through the
  client, the router, the handlers and the store.
\<close>

theorem cli_policy_roundtrip:
  assumes "etcd_up c fval free" "writes_up c" "api_link h routes addr" "served c routes" "cx_apiserver x = addr"
    and "cx_args x = [name]" "plain_seg name" "url_seg name" "con_stdin t s = (Ok content, s)"
    and "policyUpload h t x s = (Ok (), s1)"
  shows "\<exists>p q s2. unmarshal policy_fields content NewPolicy = Ok p \<and> Policy_Validate c (p\<lparr>p_name := name\<rparr>) = Ok q \<and>
    policyGet h t x s1 = (Ok (), con_print t (render (policy_json q)) s2)"
proof -
  let ?ps = "[''policies'', name]"
  have segs: "list_all url_seg ?ps" using assms(8) by (simp add: url_seg_def url_char_def)
  note via = api_link.api_run [OF assms(3,5) segs]
  have "failing (con_stdin t) s = (Ok content, s)" using assms(9) by simp
  then obtain p resp s2 where p: "unmarshal policy_fields content NewPolicy = Ok p"
    and post: "rm_do h POST (api_url x ?ps) content s = (Ok resp, s2)" and st: "check_status t resp s2 = (Ok (), s1)"
    using with_args_Ok [OF assms(10) [unfolded policyUpload_def]] assms(6)
    by (fastforce simp: decode_def http_Post_def elim!: andThen_OkE dest!: failing_OkE)
  have ok: "rs_status resp = 200" "s1 = s2" using check_status_OkE [OF st] by simp_all
  let ?r = "\<lparr>rq_content = content, rq_error = None, rq_vars = [(''policy'', name)]\<rparr>"
  have "(''/policies/{policy}'', handlePolicyUpload c) \<in> set (handlers c POST)" by (simp add: handlers_def postRouter_def)
  from serve_found [OF assms(4) this policy_path [OF assms(7)]]
  have "run_handler (handlePolicyUpload c) ?r s = (Ok resp, s2)" using post via by simp
  then obtain a where "handlePolicyUpload c ?r (s\<lparr>srv_answers := []\<rparr>) = (a, s2)" "answer_status (srv_answers s2) = 200"
      "\<And>p. a \<noteq> Panic p" "a \<noteq> Hang"
    by (rule run_handler_OkE [OF _ ok(1)]) blast
  moreover have "route_var ?r ''policy'' = name" by (simp add: route_var_def smap_get_def)
  ultimately obtain w where w: "cfg_PublishPolicy c name p (srv_world s) = (Ok (), w)" "srv_world s2 = w"
    using p by (auto elim!: handlePolicyUpload_done)
  have "policy_fits p" by (rule unmarshal_keeps [OF policy_fields_keep p zero_policy_fits])
  from publish_then_get [OF assms(1) this w(1)] obtain q w2 where
    q: "cfg_GetPolicy c name w = (Ok q, w2)" "Policy_Validate c (p\<lparr>p_name := name\<rparr>) = Ok q" by blast
  obtain s3 where "rm_do h GET (api_url x ?ps) [] s1 = (Ok \<lparr>rs_status = 200, rs_body = render (policy_json q), rs_error = None\<rparr>, s3)"
    using serve_policy [OF assms(4,7) _ assms(2), of s2] q(1) w(2) via ok(2) by auto
  then have "policyGet h t x s1 = (Ok (), con_print t (render (policy_json q)) s3)"
    using assms(6) by (simp add: policyGet_def with_args_def http_Get_def check_status_def read_body_def print_def)
  with p q(2) show ?thesis by blast
qed

definition gold_json :: string where
  "gold_json = render (policy_json gold)"

theorem cli_policy_roundtrip_witness:
  "\<exists>q s2. policyGet test_remote (test_console gold_json) (test_ctx [''gold''])
       (snd (policyUpload test_remote (test_console gold_json) (test_ctx [''gold'']) (daemon machine_start)))
     = (Ok (), con_print (test_console gold_json) (render (policy_json q)) s2) \<and> p_name q = ''gold''"
proof -
  let ?t = "test_console gold_json" and ?x = "test_ctx [''gold'']"
  let ?run = "policyUpload test_remote ?t ?x (daemon machine_start)"
  have "fst ?run = Ok ()" by code_simp
  then have r: "?run = (Ok (), snd ?run)" by (metis prod.collapse)
  have i: "con_stdin ?t (daemon machine_start) = (Ok gold_json, daemon machine_start)" by (simp add: test_console_def)
  have x: "cx_apiserver ?x = ''127.0.0.1:9005''" "cx_args ?x = [''gold'']" by (simp_all add: test_ctx_def)
  have n: "plain_seg ''gold''" "url_seg ''gold''" by (simp_all add: plain_seg_def url_seg_def url_char_def)
  have l: "api_link test_remote test_routes ''127.0.0.1:9005''" unfolding test_remote_def by (rule direct.api_link_axioms)
  from cli_policy_roundtrip [OF machine.etcd_up_axioms machine_writes l test_served x n i r] obtain p q s2 where
    q: "Policy_Validate (machine_host 3) (p\<lparr>p_name := ''gold''\<rparr>) = Ok q"
      "policyGet test_remote ?t ?x (snd ?run) = (Ok (), con_print ?t (render (policy_json q)) s2)" by blast
  have "p_name q = ''gold''" using Validate_result(2) [OF q(1)] by auto
  with q(2) show ?thesis by blast
qed


definition exec_remote :: "machine remote" where
  "exec_remote =
     \<lparr>rm_new = (\<lambda>m url. None), rm_do = (\<lambda>m url body. fail (Plain ''connection refused'')), rm_connect = (\<lambda>hosts. Ok mem_client),
      rm_shell = (\<lambda>s w. (Ok (), w\<lparr>mc_trace := mc_trace w @ [[s]]\<rparr>))\<rparr>"

definition quiet_console :: "machine console" where
  "quiet_console = \<lparr>con_print = (\<lambda>s w. w), con_stderr = (\<lambda>s. ret ()), con_stdin = ret [], con_line = ret [], con_help = id\<rparr>"

lemma on_mem_client: "on_client (machine_host n) (mem_client\<lparr>c_prefix := ''/volplugin''\<rparr>) = machine_host n"
  by (simp add: on_client_def machine_host_def mem_client_def)


text \<open>
  What \<open>volcli\<close> prints of a volume, of runtime options or of the global configuration, indented for the reader, is
  read back as the value printed, so that it can be edited and uploaded again.
\<close>

theorem printed_is_read_back:
  "(volume_fits v \<longrightarrow> unmarshal volume_fields (ppJSON (volume_json v)) zero_volume = Ok v) \<and>
   (runtime_fits r \<longrightarrow> unmarshal runtime_fields (ppJSON (runtime_json r)) zero_runtime = Ok r) \<and>
   (global_fits g \<longrightarrow> unmarshal global_fields (ppJSON (global_json g)) NewGlobalConfig = Ok g)"
  by (simp add: unmarshal_def parse_ppJSON fill_volume fill_runtime fill_global)

theorem printed_is_read_back_witness:
  "unmarshal volume_fields (ppJSON (volume_json silver)) zero_volume = Ok silver \<and>
   unmarshal global_fields (ppJSON (global_json zero_global)) NewGlobalConfig = Ok zero_global"
  using printed_is_read_back [of silver zero_runtime zero_global] silver_fits
  by (simp add: global_fits_def zero_global_def int64_def)

end
