(* ===== verification/Db_Types.thy ===== *)
theory Db_Types imports Config_Volume Config_Global begin

text \<open>
  Package \<open>db\<close>, the successor of package \<open>config\<close> that other packages are to move to: its entities (volumes,
  policies, runtime options, the global configuration), each with its place in the store, its JSON text, its
  validation. The structs are those of \<open>config\<close> but for the runtime options, which are behind a pointer and carry
  the names of the volume they belong to. An entity is a pointer to its struct; an operation that changes the
  struct yields the entity as it leaves it, with its error if it fails.
\<close>

section \<open>structs.go\<close>

record db_RuntimeOptions = RuntimeOptions +
  ro_policyName :: string
  ro_volumeName :: string

record db_Volume =
  dv_policy :: string
  dv_name :: string
  dv_unlocked :: bool
  dv_driver :: "smap option"
  dv_mount :: string
  dv_create :: CreateOptions
  dv_runtime :: "db_RuntimeOptions option"
  dv_backends :: "BackendDrivers option"

record db_Policy =
  dp_name :: string
  dp_unlocked :: bool
  dp_create :: CreateOptions
  dp_runtime :: "db_RuntimeOptions option"
  dp_driver :: "smap option"
  dp_filesystems :: "smap option"
  dp_backends :: "BackendDrivers option"
  dp_backend :: string

record db_VolumeRequest =
  dr_name :: string
  dr_policy :: "db_Policy option"
  dr_options :: "smap option"

text \<open>\<open>VolumeRequest.Policy\<close> is a pointer. \<open>Global\<close> has the fields of \<open>config.Global\<close>.\<close>

datatype entity = EPolicy db_Policy | EVolume db_Volume | ERuntime db_RuntimeOptions | EGlobal Global

text \<open>The exported fields of runtime options, and the options with others in their place.\<close>

definition exported :: "db_RuntimeOptions \<Rightarrow> RuntimeOptions" where
  "exported r = RuntimeOptions.truncate r"

definition ro_named :: "string \<Rightarrow> string \<Rightarrow> RuntimeOptions \<Rightarrow> db_RuntimeOptions" where
  "ro_named policy volume r = RuntimeOptions.extend r (db_RuntimeOptions.fields policy volume)"

definition NewRuntimeOptions :: "string \<Rightarrow> string \<Rightarrow> db_RuntimeOptions" where
  "NewRuntimeOptions policy volume = ro_named policy volume zero_runtime"

definition NewVolume :: "string \<Rightarrow> string \<Rightarrow> db_Volume" where
  "NewVolume policy volume =
     \<lparr>dv_policy = policy, dv_name = volume, dv_unlocked = False, dv_driver = None, dv_mount = [],
      dv_create = zero_create, dv_runtime = None, dv_backends = None\<rparr>"

definition db_NewPolicy :: "string \<Rightarrow> db_Policy" where
  "db_NewPolicy name =
     \<lparr>dp_name = name, dp_unlocked = False, dp_create = zero_create, dp_runtime = None,
      dp_driver = None, dp_filesystems = None, dp_backends = None, dp_backend = []\<rparr>"

definition NewGlobal :: Global where
  "NewGlobal = zero_global"

section \<open>constants.go\<close>

definition DefaultDrivers :: "(string \<times> BackendDrivers) list" where
  "DefaultDrivers =
     [(''ceph'', \<lparr>bd_crud = ''ceph'', bd_mount = ''ceph'', bd_snapshot = ''ceph''\<rparr>),
      (''nfs'', \<lparr>bd_crud = [], bd_mount = ''nfs'', bd_snapshot = []\<rparr>)]"

definition DefaultFilesystems :: smap where
  "DefaultFilesystems = [(''ext4'', ''mkfs.ext4 -m0 %'')]"

definition DefaultFilesystem :: string where "DefaultFilesystem = ''ext4''"
definition DefaultMountPath :: string where "DefaultMountPath = ''/mnt''"
definition rootGlobal :: string where "rootGlobal = ''global-config''"
definition db_rootVolume :: string where "db_rootVolume = ''volumes''"
definition rootRuntimeOptions :: string where "rootRuntimeOptions = ''runtime-policies''"
definition db_rootPolicy :: string where "db_rootPolicy = ''policies''"

lemmas db_roots = rootGlobal_def db_rootVolume_def rootRuntimeOptions_def db_rootPolicy_def

section \<open>JSON\<close>

text \<open>Unexported fields are not written, and stay as they are when the others are read.\<close>

definition db_runtime_json :: "db_RuntimeOptions \<Rightarrow> json" where
  "db_runtime_json r = runtime_json (exported r)"

definition db_volume_json :: "db_Volume \<Rightarrow> json" where
  "db_volume_json v = JObj (field ''policy'' (JStr (dv_policy v)) @ field ''name'' (JStr (dv_name v)) @
     field_unless (\<not> dv_unlocked v) ''unlocked'' (JBool (dv_unlocked v)) @
     field ''driver'' (json_smap_opt (dv_driver v)) @
     field ''mount'' (JStr (dv_mount v)) @
     field ''create'' (create_json (dv_create v)) @
     field ''runtime'' (ptr_json db_runtime_json (dv_runtime v)) @
     field_unless (dv_backends v = None) ''backends'' (ptr_json backends_json (dv_backends v)))"

definition db_policy_json :: "db_Policy \<Rightarrow> json" where
  "db_policy_json p = JObj (field ''name'' (JStr (dp_name p)) @
     field_unless (\<not> dp_unlocked p) ''unlocked'' (JBool (dp_unlocked p)) @
     field ''create'' (create_json (dp_create p)) @
     field ''runtime'' (ptr_json db_runtime_json (dp_runtime p)) @
     field ''driver'' (json_smap_opt (dp_driver p)) @
     field ''filesystems'' (json_smap_opt (dp_filesystems p)) @
     field_unless (dp_backends p = None) ''backends'' (ptr_json backends_json (dp_backends p)) @
     field_unless (dp_backend p = []) ''backend'' (JStr (dp_backend p)))"

fun entity_json :: "entity \<Rightarrow> json" where
  "entity_json (EPolicy p) = db_policy_json p"
| "entity_json (EVolume v) = db_volume_json v"
| "entity_json (ERuntime r) = db_runtime_json r"
| "entity_json (EGlobal g) = global_json g"

definition set_exported :: "RuntimeOptions \<Rightarrow> db_RuntimeOptions \<Rightarrow> db_RuntimeOptions" where
  "set_exported x r = ro_named (ro_policyName r) (ro_volumeName r) x"

definition db_runtime_fields :: "(string \<times> db_RuntimeOptions field_dec) list" where
  "db_runtime_fields =
     map (\<lambda>(n, d). (n, \<lambda>j r. map_option (\<lambda>x. set_exported x r) (d j (exported r)))) runtime_fields"

definition db_volume_fields :: "(string \<times> db_Volume field_dec) list" where
  "db_volume_fields =
     [(''policy'', \<lambda>j r. map_option (\<lambda>x. r\<lparr>dv_policy := x\<rparr>) (get_string j (dv_policy r))),
      (''name'', \<lambda>j r. map_option (\<lambda>x. r\<lparr>dv_name := x\<rparr>) (get_string j (dv_name r))),
      (''unlocked'', \<lambda>j r. map_option (\<lambda>x. r\<lparr>dv_unlocked := x\<rparr>) (get_bool j (dv_unlocked r))),
      (''driver'', \<lambda>j r. map_option (\<lambda>x. r\<lparr>dv_driver := x\<rparr>) (get_smap j (dv_driver r))),
      (''mount'', \<lambda>j r. map_option (\<lambda>x. r\<lparr>dv_mount := x\<rparr>) (get_string j (dv_mount r))),
      (''create'', \<lambda>j r. map_option (\<lambda>x. r\<lparr>dv_create := x\<rparr>) (fill create_fields j (dv_create r))),
      (''runtime'', \<lambda>j r. map_option (\<lambda>x. r\<lparr>dv_runtime := x\<rparr>)
         (get_ptr db_runtime_fields (NewRuntimeOptions [] []) j (dv_runtime r))),
      (''backends'', \<lambda>j r. map_option (\<lambda>x. r\<lparr>dv_backends := x\<rparr>) (get_ptr backends_fields zero_backends j (dv_backends r)))]"

definition db_policy_fields :: "(string \<times> db_Policy field_dec) list" where
  "db_policy_fields =
     [(''name'', \<lambda>j r. map_option (\<lambda>x. r\<lparr>dp_name := x\<rparr>) (get_string j (dp_name r))),
      (''unlocked'', \<lambda>j r. map_option (\<lambda>x. r\<lparr>dp_unlocked := x\<rparr>) (get_bool j (dp_unlocked r))),
      (''create'', \<lambda>j r. map_option (\<lambda>x. r\<lparr>dp_create := x\<rparr>) (fill create_fields j (dp_create r))),
      (''runtime'', \<lambda>j r. map_option (\<lambda>x. r\<lparr>dp_runtime := x\<rparr>)
         (get_ptr db_runtime_fields (NewRuntimeOptions [] []) j (dp_runtime r))),
      (''driver'', \<lambda>j r. map_option (\<lambda>x. r\<lparr>dp_driver := x\<rparr>) (get_smap j (dp_driver r))),
      (''filesystems'', \<lambda>j r. map_option (\<lambda>x. r\<lparr>dp_filesystems := x\<rparr>) (get_smap j (dp_filesystems r))),
      (''backends'', \<lambda>j r. map_option (\<lambda>x. r\<lparr>dp_backends := x\<rparr>) (get_ptr backends_fields zero_backends j (dp_backends r))),
      (''backend'', \<lambda>j r. map_option (\<lambda>x. r\<lparr>dp_backend := x\<rparr>) (get_string j (dp_backend r)))]"

text \<open>\<open>jsonio\<close>: a text is read into the entity it is given, fields that are missing keep their values.\<close>

fun jsonio_Read :: "entity \<Rightarrow> string \<Rightarrow> entity res" where
  "jsonio_Read (EPolicy p) b = bind_res (unmarshal db_policy_fields b p) (\<lambda>p. Ok (EPolicy p))"
| "jsonio_Read (EVolume v) b = bind_res (unmarshal db_volume_fields b v) (\<lambda>v. Ok (EVolume v))"
| "jsonio_Read (ERuntime r) b = bind_res (unmarshal db_runtime_fields b r) (\<lambda>r. Ok (ERuntime r))"
| "jsonio_Read (EGlobal g) b = bind_res (unmarshal global_fields b g) (\<lambda>g. Ok (EGlobal g))"

definition Read :: "entity \<Rightarrow> string \<Rightarrow> entity res" where
  "Read obj b = (case jsonio_Read obj b of Err e \<Rightarrow> Err (Combine UnmarshalPolicy e) | r \<Rightarrow> r)"

definition Write :: "entity \<Rightarrow> string" where
  "Write obj = render (entity_json obj)"

end
