(* ===== verification/Db_Entities.thy ===== *)
theory Db_Entities imports Db_Types begin

text \<open>
  The entities of package \<open>db\<close>: keys and paths, validation, the hooks a client runs around its operations, and the
  making of a volume from a request. Entities are values here: a pointer two entities share after \<open>Copy\<close> or after
  a default was filled in is a copy of its own, except for the map of driver options that the check before a set
  shares with the volume, where sharing changes what is stored.
\<close>

section \<open>Keys and paths\<close>

text \<open>\<open>with_obj\<close> attaches the entity to an error, as its holder sees it when the call returns.\<close>

definition with_obj :: "entity \<Rightarrow> 'a res \<Rightarrow> (goerr \<times> entity, 'a) outcome" where
  "with_obj obj r = (case r of Ok x \<Rightarrow> Ok x | Err e \<Rightarrow> Err (e, obj) | Panic m \<Rightarrow> Panic m | Hang \<Rightarrow> Hang)"

definition trim_slashes :: "string \<Rightarrow> string" where
  "trim_slashes s = trim_char CHR ''/'' s"

definition db_Policy_SetKey :: "db_Policy \<Rightarrow> string \<Rightarrow> db_Policy res" where
  "db_Policy_SetKey p key =
     (let suffix = trim_slashes (trim_prefix db_rootPolicy key) in
      if contains slash suffix then Err (Combine InvalidDBPath (Fresh ''Policy name contains invalid characters''))
      else if suffix = [] then Err (Combine InvalidDBPath (Fresh ''Policy name is empty''))
      else Ok (p\<lparr>dp_name := suffix\<rparr>))"

text \<open>A policy and a volume name.\<close>

definition two_parts :: "string \<Rightarrow> (string \<times> string) res" where
  "two_parts suffix =
     (case split_on CHR ''/'' suffix of
        [a, b] \<Rightarrow>
          if a = [] \<or> b = [] then Err (Combine InvalidDBPath (Fresh ''One part of key was empty'')) else Ok (a, b)
      | _ \<Rightarrow> Err (Combine InvalidDBPath (Fresh ''Args to SetKey were invalid'')))"

definition runtime_parts :: "string \<Rightarrow> (string \<times> string) res" where
  "runtime_parts key = two_parts (trim_slashes (trim_prefix rootRuntimeOptions key))"

definition Runtime_SetKey :: "db_RuntimeOptions \<Rightarrow> string \<Rightarrow> db_RuntimeOptions res" where
  "Runtime_SetKey ro key =
     bind_res (runtime_parts key) (\<lambda>(a, b). Ok (ro\<lparr>ro_policyName := a, ro_volumeName := b\<rparr>))"

text \<open>
  The key of a volume without its root is handed on to its runtime options; if these are nil, \<open>SetKey\<close> panics
  once the parts are known to be right.
\<close>

definition db_Volume_SetKey :: "db_Volume \<Rightarrow> string \<Rightarrow> (goerr \<times> db_Volume, db_Volume) outcome" where
  "db_Volume_SetKey v key =
     (let suffix = trim_slashes (trim_prefix db_rootVolume (trim_slashes key)) in
      case two_parts suffix of
        Ok (a, b) \<Rightarrow>
          let v' = v\<lparr>dv_policy := a, dv_name := b\<rparr> in
          (case runtime_parts suffix of
             Ok _ \<Rightarrow>
               (case dv_runtime v' of
                  None \<Rightarrow> Panic nil_deref
                | Some ro \<Rightarrow>
                    (case Runtime_SetKey ro suffix of
                       Ok ro' \<Rightarrow> Ok (v'\<lparr>dv_runtime := Some ro'\<rparr>)
                     | Err e \<Rightarrow> Err (e, v') | Panic m \<Rightarrow> Panic m | Hang \<Rightarrow> Hang))
           | Err e \<Rightarrow> Err (e, v') | Panic m \<Rightarrow> Panic m | Hang \<Rightarrow> Hang)
      | Err e \<Rightarrow> Err (e, v) | Panic m \<Rightarrow> Panic m | Hang \<Rightarrow> Hang)"

fun db_SetKey :: "entity \<Rightarrow> string \<Rightarrow> (goerr \<times> entity, entity) outcome" where
  "db_SetKey (EPolicy p) key = with_obj (EPolicy p) (bind_res (db_Policy_SetKey p key) (\<lambda>p'. Ok (EPolicy p')))"
| "db_SetKey (EVolume v) key =
     (case db_Volume_SetKey v key of
        Ok v' \<Rightarrow> Ok (EVolume v') | Err (e, v') \<Rightarrow> Err (e, EVolume v') | Panic m \<Rightarrow> Panic m | Hang \<Rightarrow> Hang)"
| "db_SetKey (ERuntime r) key = with_obj (ERuntime r) (bind_res (Runtime_SetKey r key) (\<lambda>r'. Ok (ERuntime r')))"
| "db_SetKey (EGlobal g) key = Ok (EGlobal g)"

fun db_Prefix :: "entity \<Rightarrow> string" where
  "db_Prefix (EPolicy p) = db_rootPolicy"
| "db_Prefix (EVolume v) = db_rootVolume"
| "db_Prefix (ERuntime r) = rootRuntimeOptions"
| "db_Prefix (EGlobal g) = []"

definition db_Policy_Path :: "db_Policy \<Rightarrow> string res" where
  "db_Policy_Path p =
     (if dp_name p = [] then Err (Combine (Fresh ''Name is blank for this policy'') InvalidDBPath)
      else Ok (join slash [db_rootPolicy, dp_name p]))"

definition db_Volume_Path :: "db_Volume \<Rightarrow> string res" where
  "db_Volume_Path v =
     (if dv_policy v = [] \<or> dv_name v = [] then Err (Combine InvalidVolume (Fresh ''Volume or policy name is missing''))
      else Ok (join slash [db_rootVolume, dv_policy v, dv_name v]))"

definition Runtime_Path :: "db_RuntimeOptions \<Rightarrow> string res" where
  "Runtime_Path r =
     (if ro_policyName r = [] \<or> ro_volumeName r = []
      then Err (Combine InvalidDBPath (Fresh ''empty policy or volume name for runtime options''))
      else Ok (join slash [rootRuntimeOptions, ro_policyName r, ro_volumeName r]))"

fun db_Path :: "entity \<Rightarrow> string res" where
  "db_Path (EPolicy p) = db_Policy_Path p"
| "db_Path (EVolume v) = db_Volume_Path v"
| "db_Path (ERuntime r) = Runtime_Path r"
| "db_Path (EGlobal g) = Ok rootGlobal"

definition db_Volume_String :: "db_Volume \<Rightarrow> string" where
  "db_Volume_String v = path_join [dv_policy v, dv_name v]"

definition Runtime_String :: "db_RuntimeOptions \<Rightarrow> string" where
  "Runtime_String r = path_join [ro_policyName r, ro_volumeName r]"

section \<open>Validation\<close>

text \<open>The schemas are those of package \<open>config\<close>, text for text.\<close>

definition db_RuntimeSchema :: "keyword list" where "db_RuntimeSchema = RuntimeSchema"
definition db_PolicySchema :: "keyword list" where "db_PolicySchema = PolicySchema"
definition db_VolumeSchema :: "keyword list" where "db_VolumeSchema = VolumeSchema"

definition validateJSON :: "keyword list \<Rightarrow> json \<Rightarrow> unit res" where
  "validateJSON schema doc = (case against schema doc of Err e \<Rightarrow> Err (Combine ErrJSONValidation e) | r \<Rightarrow> r)"

definition db_ActualSize :: "('w, 'z) host_scheme \<Rightarrow> CreateOptions \<Rightarrow> nat \<times> goerr option" where
  "db_ActualSize c co =
     (let sizeStr = (if trim_space (co_size co) = [] then ''0'' else co_size co);
          r = h_human_size c sizeStr
      in (nat (fst r mod 2 ^ 64) div 1000000, snd r))"

definition db_Policy_Validate :: "('w, 'z) host_scheme \<Rightarrow> db_Policy \<Rightarrow> (goerr \<times> db_Policy, db_Policy) outcome" where
  "db_Policy_Validate c p0 =
     (let p = (if dp_filesystems p0 = None then p0\<lparr>dp_filesystems := Some DefaultFilesystems\<rparr> else p0) in
      case validateJSON db_RuntimeSchema (ptr_json db_runtime_json (dp_runtime p)) of
        Err e \<Rightarrow> Err (e, p) | Panic m \<Rightarrow> Panic m | Hang \<Rightarrow> Hang
      | Ok _ \<Rightarrow>
      (case validateJSON db_PolicySchema (db_policy_json p) of
        Err e \<Rightarrow> Err (e, p) | Panic m \<Rightarrow> Panic m | Hang \<Rightarrow> Hang
      | Ok _ \<Rightarrow>
      (case (case dp_backends p of Some b \<Rightarrow> Some b | None \<Rightarrow> map_of DefaultDrivers (dp_backend p)) of
        None \<Rightarrow> Err (Fresh ''Invalid backend'', p)
      | Some b \<Rightarrow>
          let p' = p\<lparr>dp_backends := Some b\<rparr>; (size, err) = db_ActualSize c (dp_create p') in
          if bd_crud b \<noteq> [] \<and> (size = 0 \<or> err \<noteq> None)
          then Err (Combine_opt (Fresh ''Size set to zero for non-empty CRUD backend'') err, p')
          else Ok p')))"

text \<open>\<open>ToDriverOptions\<close> and \<open>validateBackends\<close> are the code of package \<open>config\<close> on the fields of the same names.\<close>

definition as_config :: "db_Volume \<Rightarrow> Volume" where
  "as_config v =
     \<lparr>v_policy = dv_policy v, v_name = dv_name v, v_unlocked = dv_unlocked v, v_driver = dv_driver v,
      v_mount = dv_mount v, v_create = dv_create v,
      v_runtime = (case dv_runtime v of None \<Rightarrow> zero_runtime | Some r \<Rightarrow> exported r), v_backends = dv_backends v\<rparr>"

definition db_ToDriverOptions :: "('w, 'z) host_scheme \<Rightarrow> db_Volume \<Rightarrow> int \<Rightarrow> DriverOptions res" where
  "db_ToDriverOptions c v timeout =
     (let (actualSize, err) = db_ActualSize c (dv_create v) in
      case err of
        Some e \<Rightarrow> Err e
      | None \<Rightarrow>
          Ok \<lparr>d_source = dv_mount v,
              d_volume = \<lparr>sv_name = db_Volume_String v, sv_size = actualSize, sv_params = dv_driver v\<rparr>,
              d_fs = \<lparr>fs_type = co_filesystem (dv_create v), fs_create_command = []\<rparr>,
              d_timeout = timeout, d_options = None\<rparr>)"

definition db_validateBackends :: "('w, 'z) host_scheme \<Rightarrow> db_Volume \<Rightarrow> unit res" where
  "db_validateBackends c v =
     bind_res (db_ToDriverOptions c v second) (\<lambda>opts.
     case dv_backends v of
       None \<Rightarrow> Panic nil_deref
     | Some b \<Rightarrow>
         bind_res (if bd_crud b \<noteq> [] then bind_res (NewCRUDDriver c (bd_crud b)) (\<lambda>d. cd_validate d opts) else Ok ()) (\<lambda>_.
         bind_res (NewMountDriver c (bd_mount b) backend_MountPath) (\<lambda>d.
         bind_res (md_validate d opts) (\<lambda>_.
         if bd_snapshot b \<noteq> [] then bind_res (NewSnapshotDriver c (bd_snapshot b)) (\<lambda>d. sd_validate d opts) else Ok ()))))"

definition db_Volume_Validate :: "('w, 'z) host_scheme \<Rightarrow> db_Volume \<Rightarrow> unit res" where
  "db_Volume_Validate c v =
     bind_res (validateJSON db_VolumeSchema (db_volume_json v)) (\<lambda>_. db_validateBackends c v)"

definition Runtime_Validate :: "db_RuntimeOptions \<Rightarrow> unit res" where
  "Runtime_Validate r = validateJSON db_RuntimeSchema (db_runtime_json r)"

definition db_Global_Validate :: "Global \<Rightarrow> Global" where
  "db_Global_Validate g =
     g\<lparr>g_mount_path := (if g_mount_path g = [] then DefaultMountPath else g_mount_path g),
       g_ttl := (if g_ttl g < ttlFixBase then DefaultGlobalTTL else g_ttl g),
       g_timeout := (if g_timeout g < timeoutFixBase then DefaultTimeout else g_timeout g)\<rparr>"

definition db_Published :: "Global \<Rightarrow> Global" where
  "db_Published g = g\<lparr>g_ttl := go_div (g_ttl g) ttlFixBase, g_timeout := go_div (g_timeout g) timeoutFixBase\<rparr>"

definition db_Canonical :: "Global \<Rightarrow> Global" where
  "db_Canonical g =
     g\<lparr>g_ttl := (if g_ttl g < ttlFixBase then wrap64 (g_ttl g * ttlFixBase) else g_ttl g),
       g_timeout := (if g_timeout g < timeoutFixBase then wrap64 (g_timeout g * timeoutFixBase) else g_timeout g)\<rparr>"

fun db_Validate :: "('w, 'z) host_scheme \<Rightarrow> entity \<Rightarrow> (goerr \<times> entity, entity) outcome" where
  "db_Validate c (EPolicy p) =
     (case db_Policy_Validate c p of
        Ok p' \<Rightarrow> Ok (EPolicy p') | Err (e, p') \<Rightarrow> Err (e, EPolicy p') | Panic m \<Rightarrow> Panic m | Hang \<Rightarrow> Hang)"
| "db_Validate c (EVolume v) = with_obj (EVolume v) (bind_res (db_Volume_Validate c v) (\<lambda>_. Ok (EVolume v)))"
| "db_Validate c (ERuntime r) = with_obj (ERuntime r) (bind_res (Runtime_Validate r) (\<lambda>_. Ok (ERuntime r)))"
| "db_Validate c (EGlobal g) = Ok (EGlobal (db_Global_Validate g))"

section \<open>Clients and hooks\<close>

text \<open>
  The interface of \<open>db.go\<close>, without the watches. An operation yields the entity as it leaves it; the error of an
  operation carries it as well.
\<close>

type_synonym 'w entity_op = "entity \<Rightarrow> ('w, goerr \<times> entity, entity) io"

record 'w db_Client =
  cl_Get :: "'w entity_op"
  cl_Set :: "'w entity_op"
  cl_Delete :: "'w entity_op"

type_synonym 'w hook = "'w db_Client \<Rightarrow> 'w entity_op"

record 'w db_Hooks =
  PreSet :: "'w hook option"
  PostSet :: "'w hook option"
  PreGet :: "'w hook option"
  PostGet :: "'w hook option"
  PreDelete :: "'w hook option"
  PostDelete :: "'w hook option"
  PreValidate :: "'w hook option"
  PostValidate :: "'w hook option"

definition no_hooks :: "'w db_Hooks" where
  "no_hooks =
     \<lparr>PreSet = None, PostSet = None, PreGet = None, PostGet = None, PreDelete = None, PostDelete = None,
      PreValidate = None, PostValidate = None\<rparr>"

definition named_for :: "db_Volume \<Rightarrow> db_RuntimeOptions \<Rightarrow> db_RuntimeOptions" where
  "named_for vol ro = ro\<lparr>ro_policyName := dv_policy vol, ro_volumeName := dv_name vol\<rparr>"

fun with_runtime :: "db_Volume \<Rightarrow> entity \<Rightarrow> entity" where
  "with_runtime vol (ERuntime r) = EVolume (vol\<lparr>dv_runtime := Some r\<rparr>)"
| "with_runtime vol e = EVolume vol"

text \<open>The runtime options of a volume, named after it, get or set on their own.\<close>

definition on_runtime :: "'w entity_op \<Rightarrow> db_Volume \<Rightarrow> ('w, goerr \<times> entity, entity) io" where
  "on_runtime f vol =
     (case dv_runtime vol of
        None \<Rightarrow> panic nil_deref
      | Some ro \<Rightarrow>
          attempt (f (ERuntime (named_for vol ro))) (\<lambda>(e, x). fail (e, with_runtime vol x)) (\<lambda>x. ret (with_runtime vol x)))"

fun postGetHook :: "'w hook" where
  "postGetHook k (EVolume vol) = on_runtime (cl_Get k) vol"
| "postGetHook k _ = panic ''interface conversion''"

definition db_Copy :: "entity \<Rightarrow> entity" where
  "db_Copy obj = obj"

text \<open>
  The copy the check reads into has the map of driver options in common with the volume, so what is stored
  is added to the volume's options, unless either map is nil.
\<close>

fun share_driver :: "db_Volume \<Rightarrow> entity \<Rightarrow> db_Volume" where
  "share_driver vol (EVolume copy) =
     (if dv_driver vol = None \<or> dv_driver copy = None then vol else vol\<lparr>dv_driver := dv_driver copy\<rparr>)"
| "share_driver vol _ = vol"

fun preSetHook :: "'w hook" where
  "preSetHook k (EVolume vol) =
     attempt (cl_Get k (db_Copy (EVolume vol)))
       (\<lambda>(e, copy). on_runtime (cl_Set k) (share_driver vol copy))
       (\<lambda>copy. fail (Combine (Fresh (db_Volume_String vol)) Exists, EVolume (share_driver vol copy)))"
| "preSetHook k _ = panic ''interface conversion''"

fun db_Hooks_of :: "entity \<Rightarrow> 'w db_Hooks" where
  "db_Hooks_of (EVolume v) = no_hooks\<lparr>PostGet := Some postGetHook, PreSet := Some preSetHook\<rparr>"
| "db_Hooks_of _ = no_hooks"

section \<open>CreateVolume\<close>

text \<open>
  The policy as \<open>merge\<close> sees it. The runtime options are behind a pointer and have no tag of their own.
\<close>

definition db_policy_tree :: "db_Policy \<Rightarrow> (string \<times> rval) list" where
  "db_policy_tree p =
     [([], RString (dp_name p)), (''unlocked'', RBool (dp_unlocked p)), ([], create_tree (dp_create p)),
      ([], RPtr (map_option (\<lambda>r. runtime_tree (exported r)) (dp_runtime p))), ([], ROther), ([], ROther),
      ([], RPtr None), ([], RString (dp_backend p))]"

definition db_policy_of_tree :: "db_Policy \<Rightarrow> (string \<times> rval) list \<Rightarrow> db_Policy" where
  "db_policy_of_tree p t =
     (let c = r_fields (r_at t 2)
      in p\<lparr>dp_name := r_string (r_at t 0), dp_unlocked := r_bool (r_at t 1),
           dp_create := \<lparr>co_size = r_string (r_at c 0), co_filesystem = r_string (r_at c 1)\<rparr>,
           dp_backend := r_string (r_at t 7)\<rparr>)"

definition db_merge :: "db_Policy \<Rightarrow> (string \<times> string) list \<Rightarrow> db_Policy res" where
  "db_merge p kvs = bind_res (Opts (db_policy_tree p) kvs) (\<lambda>t. Ok (db_policy_of_tree p t))"

definition db_volume_of :: "db_Policy \<Rightarrow> db_VolumeRequest \<Rightarrow> db_Volume" where
  "db_volume_of p vr =
     \<lparr>dv_policy = dp_name p, dv_name = dr_name vr, dv_unlocked = dp_unlocked p, dv_driver = dp_driver p,
      dv_mount = lookup_opt (dr_options vr) ''mount'', dv_create = dp_create p, dv_runtime = dp_runtime p,
      dv_backends = dp_backends p\<rparr>"

definition db_CreateVolume :: "('w, 'z) host_scheme \<Rightarrow> db_VolumeRequest \<Rightarrow> db_Volume res" where
  "db_CreateVolume c vr =
     (if dr_name vr = [] then Err (Combine (Fresh ''Volume name was empty'') InvalidVolume)
      else (case dr_policy vr of
        None \<Rightarrow> Err (Combine (Fresh ''Policy for volume was nil'') InvalidVolume)
      | Some policy \<Rightarrow>
          bind_res (db_merge policy (case dr_options vr of None \<Rightarrow> [] | Some m \<Rightarrow> ordered c (smap_del ''mount'' m))) (\<lambda>p1.
          (case db_Policy_Validate c (if dp_driver p1 = None then p1\<lparr>dp_driver := Some []\<rparr> else p1) of
             Err (e, _) \<Rightarrow> Err e | Panic m \<Rightarrow> Panic m | Hang \<Rightarrow> Hang
           | Ok p \<Rightarrow>
               bind_res (db_Volume_Validate c (db_volume_of p vr)) (\<lambda>_.
                 Ok (let vc = db_volume_of p vr in
                     if co_filesystem (dv_create vc) = []
                     then vc\<lparr>dv_create := (dv_create vc)\<lparr>co_filesystem := DefaultFilesystem\<rparr>\<rparr> else vc))))))"

end
