(* ===== verification/Db_Client.thy ===== *)
theory Db_Client imports Db_Entities Watch begin

text \<open>
  \<open>db/impl/etcd\<close>: the client that keeps the entities in etcd, one key for each, and its watches. The connection
  (\<open>client.New\<close>), the tar writer and the files are parameters as for package \<open>config\<close>.
\<close>

section \<open>client.go: keys\<close>

definition db_qualified :: "('w, 'z) client_scheme \<Rightarrow> string \<Rightarrow> string" where
  "db_qualified c p = join slash [c_prefix c, p]"

text \<open>The prefix is taken off a key that has lost its leading slash.\<close>

definition trimPath :: "('w, 'z) client_scheme \<Rightarrow> string \<Rightarrow> string" where
  "trimPath c key = trim_slashes (trim_prefix (c_prefix c) (trim_slashes key))"

definition db_NewClient :: "(string list \<Rightarrow> 'w client res) \<Rightarrow> string list \<Rightarrow> string \<Rightarrow> ('w, goerr, 'w client) io" where
  "db_NewClient connect hosts prefix =
     andThen (lift (connect hosts)) (\<lambda>api.
       let c = api\<lparr>c_prefix := prefix\<rparr> in
       attempt (kv_set c (c_prefix c) [] (set_nil\<lparr>so_dir := True, so_exist := PrevNoExist\<rparr>))
         (\<lambda>err. if is_errored (EtcdToErrored err) \<and> Contains (EtcdToErrored err) Exists then ret c
                 else fail (Combine (Fresh ''Initial setup'') err))
         (\<lambda>_. ret c))"

section \<open>Get, Set and Delete\<close>

text \<open>\<open>k\<close> is the client the hooks are given.\<close>

definition run_hook :: "'w hook option \<Rightarrow> 'w hook" where
  "run_hook h k obj =
     (case h of None \<Rightarrow> ret obj | Some f \<Rightarrow> attempt (f k obj) (\<lambda>(e, x). fail (EtcdToErrored e, x)) ret)"

definition entity_get :: "('w, 'z) host_scheme \<Rightarrow> 'w db_Client \<Rightarrow> 'w entity_op" where
  "entity_get c k obj0 =
     andThen (run_hook (PreGet (db_Hooks_of obj0)) k obj0) (\<lambda>obj.
     andThen (lift (with_obj obj (db_Path obj))) (\<lambda>p.
     attempt (kv_get c (db_qualified c p) get_nil) (\<lambda>e. fail (EtcdToErrored e, obj)) (\<lambda>n.
     andThen (lift (with_obj obj (Read obj (n_value n)))) (\<lambda>obj1.
     andThen (lift (db_SetKey obj1 (trimPath c (n_key n)))) (\<lambda>obj2.
     andThen (run_hook (PostGet (db_Hooks_of obj2)) k obj2) (\<lambda>obj3.
       lift (db_Validate c obj3)))))))"

definition entity_set :: "('w, 'z) host_scheme \<Rightarrow> 'w db_Client \<Rightarrow> 'w entity_op" where
  "entity_set c k obj0 =
     andThen (lift (db_Validate c obj0)) (\<lambda>obj1.
     andThen (run_hook (PreSet (db_Hooks_of obj1)) k obj1) (\<lambda>obj.
     andThen (lift (with_obj obj (db_Path obj))) (\<lambda>p.
     attempt (kv_set c (db_qualified c p) (Write obj) set_nil) (\<lambda>e. fail (EtcdToErrored e, obj)) (\<lambda>_.
       run_hook (PostSet (db_Hooks_of obj)) k obj))))"

definition entity_delete :: "('w, 'z) host_scheme \<Rightarrow> 'w db_Client \<Rightarrow> 'w entity_op" where
  "entity_delete c k obj0 =
     andThen (run_hook (PreDelete (db_Hooks_of obj0)) k obj0) (\<lambda>obj.
     andThen (lift (with_obj obj (db_Path obj))) (\<lambda>p.
     attempt (kv_del c (db_qualified c p) del_nil) (\<lambda>e. fail (EtcdToErrored e, obj)) (\<lambda>_.
       run_hook (PostDelete (db_Hooks_of obj)) k obj)))"

text \<open>
  The hooks call the client again. Its operations are unrolled to a depth of three: a set may get the volume, which
  gets its runtime options, which have no hooks, so that a greater depth changes nothing (\<open>client_ties\<close>).
\<close>

fun client_at :: "nat \<Rightarrow> ('w, 'z) host_scheme \<Rightarrow> 'w db_Client" where
  "client_at 0 c = \<lparr>cl_Get = (\<lambda>obj. hang), cl_Set = (\<lambda>obj. hang), cl_Delete = (\<lambda>obj. hang)\<rparr>"
| "client_at (Suc n) c =
     \<lparr>cl_Get = entity_get c (client_at n c), cl_Set = entity_set c (client_at n c),
      cl_Delete = entity_delete c (client_at n c)\<rparr>"

definition db_client :: "('w, 'z) host_scheme \<Rightarrow> 'w db_Client" where
  "db_client c = client_at 3 c"

definition db_Get :: "('w, 'z) host_scheme \<Rightarrow> 'w entity_op" where
  "db_Get c = cl_Get (db_client c)"

definition db_Set :: "('w, 'z) host_scheme \<Rightarrow> 'w entity_op" where
  "db_Set c = cl_Set (db_client c)"

definition db_Delete :: "('w, 'z) host_scheme \<Rightarrow> 'w entity_op" where
  "db_Delete c = cl_Delete (db_client c)"

section \<open>Listing\<close>

text \<open>
  A leaf of the tree is read into a copy of the given entity. Its errors are logged; its key is set and its hook run
  whatever came before, and it is appended when all went well.
\<close>

definition traverse_leaf :: "('w, 'z) host_scheme \<Rightarrow> entity \<Rightarrow> string \<Rightarrow> string \<Rightarrow> ('w, goerr, entity list) io" where
  "traverse_leaf c obj key value =
     (let copy1 = (case Read (db_Copy obj) value of Ok x \<Rightarrow> (x, True) | _ \<Rightarrow> (db_Copy obj, False)) in
      attempt (lift (db_SetKey (fst copy1) (trimPath c key)))
        (\<lambda>(e, x). attempt (run_hook (PostGet (db_Hooks_of x)) (db_client c) x) (\<lambda>_. ret []) (\<lambda>_. ret []))
        (\<lambda>x. attempt (run_hook (PostGet (db_Hooks_of x)) (db_client c) x) (\<lambda>_. ret [])
           (\<lambda>y. ret (if snd copy1 then [y] else []))))"

fun traverse :: "('w, 'z) host_scheme \<Rightarrow> entity \<Rightarrow> node \<Rightarrow> ('w, goerr, entity list) io"
  and traverse_all :: "('w, 'z) host_scheme \<Rightarrow> entity \<Rightarrow> node list \<Rightarrow> ('w, goerr, entity list) io" where
  "traverse c obj (Node key d value ns) = (if d then traverse_all c obj ns else traverse_leaf c obj key value)"
| "traverse_all c obj [] = ret []"
| "traverse_all c obj (n # ns) =
     andThen (traverse c obj n) (\<lambda>es. andThen (traverse_all c obj ns) (\<lambda>es'. ret (es @ es')))"

definition get_recursive :: get_opts where
  "get_recursive = get_nil\<lparr>go_recursive := True\<rparr>"

definition db_List :: "('w, 'z) host_scheme \<Rightarrow> entity \<Rightarrow> ('w, goerr, entity list) io" where
  "db_List c obj = andThen (kv_get c (db_qualified c (db_Prefix obj)) get_recursive) (traverse c obj)"

definition db_ListPrefix :: "('w, 'z) host_scheme \<Rightarrow> string \<Rightarrow> entity \<Rightarrow> ('w, goerr, entity list) io" where
  "db_ListPrefix c prefix obj =
     andThen (kv_get c (db_qualified c (path_join [db_Prefix obj, prefix])) get_recursive) (traverse c obj)"

section \<open>Watches\<close>

text \<open>
  The client's table of watches with the channels that stop them: which are open, and the number of channels made.
  A channel is closed at most once, or the program panics.
\<close>

record watches =
  ws_watchers :: "string \<Rightarrow> nat option"
  ws_open :: "nat set"
  ws_made :: nat

definition no_watches :: watches where
  "no_watches = \<lparr>ws_watchers = Map.empty, ws_open = {}, ws_made = 0\<rparr>"

definition close_chan :: "nat \<Rightarrow> watches \<Rightarrow> watches res" where
  "close_chan i s = (if i \<in> ws_open s then Ok (s\<lparr>ws_open := ws_open s - {i}\<rparr>) else Panic ''close of closed channel'')"

text \<open>\<open>watchPath\<close> starts a goroutine with a new channel, and stops the one there was for the path.\<close>

definition watchPath :: "string \<Rightarrow> watches \<Rightarrow> (nat \<times> watches) res" where
  "watchPath path s =
     (let i = ws_made s; s1 = s\<lparr>ws_open := insert i (ws_open s), ws_made := i + 1\<rparr> in
      bind_res (case ws_watchers s1 path of None \<Rightarrow> Ok s1 | Some j \<Rightarrow> close_chan j s1) (\<lambda>s2.
        Ok (i, s2\<lparr>ws_watchers := (ws_watchers s2)(path \<mapsto> i)\<rparr>)))"

definition watchStopPath :: "string \<Rightarrow> watches \<Rightarrow> watches res" where
  "watchStopPath path s =
     (case ws_watchers s path of
        None \<Rightarrow> Err (Combine InvalidDBPath (Fresh ''missing key during watch''))
      | Some i \<Rightarrow> bind_res (close_chan i s) (\<lambda>s1. Ok (s1\<lparr>ws_watchers := (ws_watchers s1)(path := None)\<rparr>)))"

text \<open>
  An entity without a path is not watched: the caller gets the error from a channel.
\<close>

definition db_Watch :: "entity \<Rightarrow> watches \<Rightarrow> ((goerr + nat) \<times> watches) res" where
  "db_Watch obj s =
     (case db_Path obj of
        Ok p \<Rightarrow> bind_res (watchPath p s) (\<lambda>(i, s'). Ok (Inr i, s'))
      | Err e \<Rightarrow> Ok (Inl e, s)
      | Panic m \<Rightarrow> Panic m
      | Hang \<Rightarrow> Hang)"

definition db_WatchStop :: "entity \<Rightarrow> watches \<Rightarrow> watches res" where
  "db_WatchStop obj s = bind_res (db_Path obj) (\<lambda>p. watchStopPath p s)"

definition WatchPrefix :: "entity \<Rightarrow> watches \<Rightarrow> (nat \<times> watches) res" where
  "WatchPrefix obj s = watchPath (db_Prefix obj) s"

definition WatchPrefixStop :: "entity \<Rightarrow> watches \<Rightarrow> watches res" where
  "WatchPrefixStop obj s = watchStopPath (db_Prefix obj) s"

text \<open>
  The goroutine of a watch, on an answer of the etcd watcher: what it sends to the channel of entities. The channel of
  errors holds one; a second error blocks the goroutine until somebody reads it.
\<close>

record watch_goroutine =
  wg_status :: watch_status
  wg_errors :: "goerr list"

definition watch_event ::
  "('w, 'z) host_scheme \<Rightarrow> entity \<Rightarrow> next_result \<Rightarrow> watch_goroutine \<Rightarrow> ('w, goerr, watch_goroutine \<times> entity list) io" where
  "watch_event c obj r g =
     (if wg_status g \<noteq> Running then ret (g, [])
      else (case r of
          Event action node \<Rightarrow> andThen (traverse c obj node) (\<lambda>es. ret (g, es))
        | NextErr e \<Rightarrow>
            if wg_errors g \<noteq> [] then ret (g\<lparr>wg_status := Blocked e\<rparr>, [])
            else andThen (modify (h_sleep c second)) (\<lambda>_. ret (g\<lparr>wg_errors := [e]\<rparr>, []))
        | Canceled \<Rightarrow> ret (g\<lparr>wg_status := Done\<rparr>, [])))"

section \<open>dump.go\<close>

text \<open>\<open>addNodeToTarball\<close> is the one of package \<open>config\<close>. The writer makes its file in the directory given to \<open>Dump\<close>.\<close>

definition db_Dump :: "('w, 'z) tar_writer_scheme \<Rightarrow> string \<Rightarrow> ('w, goerr, string) io" where
  "db_Dump t prefix =
     attempt (tw_get t prefix \<lparr>go_recursive = True, go_sort = True, go_quorum = True\<rparr>)
       (\<lambda>e. fail (Combine (Fresh (''Failed to recursively GET '' @ [CHR 0x22] @ prefix @ [CHR 0x22] @ '' namespace from etcd'')) e))
       (\<lambda>root w.
         attempt (tw_tempfile t (''etcd_dump_'' @ tw_stamp t w @ ''_''))
           (\<lambda>e. fail (Combine (Fresh ''Failed to create tempfile'') e))
           (\<lambda>file.
             deferred
               (regardless (tw_open t file)
                 (andThen (addNodeToTarball t (path_base file) root) (\<lambda>_.
                   andThen (tw_rename t file (file @ ''.tar.gz'')) (\<lambda>_.
                     ret (file @ ''.tar.gz'')))))
               (tw_close t)) w)"

end
