(* ===== verification/Db_Lemmas.thy ===== *)
theory Db_Lemmas imports Db_Client begin

text \<open>
  The entities of package \<open>db\<close> against their JSON texts and their keys: what is written is read back, and the key of
  an entity names it again. The interface of the store the client relies on, and its instance in memory.
\<close>

section \<open>Runtime options with names\<close>

lemma exported_named [simp]:
  "exported (ro_named p v x) = x" "ro_policyName (ro_named p v x) = p" "ro_volumeName (ro_named p v x) = v"
  by (simp_all add: exported_def ro_named_def RuntimeOptions.defs db_RuntimeOptions.defs)

lemma named_exported [simp]: "ro_named (ro_policyName r) (ro_volumeName r) (exported r) = r"
  by (simp add: exported_def ro_named_def RuntimeOptions.defs db_RuntimeOptions.defs)

lemma named_update [simp]:
  "(ro_named p v x)\<lparr>ro_policyName := a\<rparr> = ro_named a v x" "(ro_named p v x)\<lparr>ro_volumeName := b\<rparr> = ro_named p b x"
  by (simp_all add: ro_named_def RuntimeOptions.defs db_RuntimeOptions.defs)

lemma rename_named: "r\<lparr>ro_policyName := a, ro_volumeName := b\<rparr> = ro_named a b (exported r)"
  by (simp add: exported_def ro_named_def RuntimeOptions.defs db_RuntimeOptions.defs)

lemma exported_rename [simp]: "exported (r\<lparr>ro_policyName := a\<rparr>) = exported r" "exported (r\<lparr>ro_volumeName := b\<rparr>) = exported r"
  by (simp_all add: exported_def RuntimeOptions.defs)

lemma set_exported_simps [simp]:
  "exported (set_exported x r) = x" "set_exported y (set_exported x r) = set_exported y r"
  "set_exported (exported r) r = r" "set_exported x (ro_named a b y) = ro_named a b x"
  by (simp_all add: set_exported_def)

section \<open>Reading back what was written\<close>

text \<open>Filling one part of a struct through its field table is filling the part.\<close>

lemma find_field_map:
  "find_field (map (\<lambda>(n, d). (n, f d)) fs) k = map_option f (find_field fs k)"
  by (induction fs k rule: find_field.induct) simp_all

lemma fill_runtime_members:
  "fill_members db_runtime_fields ms r = map_option (\<lambda>x. set_exported x r) (fill_members runtime_fields ms (exported r))"
proof (induction ms arbitrary: r)
  case Nil
  then show ?case by simp
next
  case (Cons m ms)
  obtain k v where "m = (k, v)" by fastforce
  with Cons.IH show ?case
    by (cases "find_field runtime_fields k")
      (auto simp: db_runtime_fields_def find_field_map option.map_comp comp_def split: option.splits)
qed

lemma fill_db_runtime:
  assumes "runtime_fits (exported r)"
  shows "fill db_runtime_fields (db_runtime_json r) r0 = Some (set_exported (exported r) r0)"
proof -
  obtain ms where ms: "runtime_json (exported r) = JObj ms" by (simp add: runtime_json_def)
  have "fill_members runtime_fields ms (exported r0) = Some (exported r)"
    using fill_runtime [OF assms, of "exported r0"] ms by simp
  then show ?thesis by (simp add: db_runtime_json_def ms fill_runtime_members)
qed

lemma get_ptr_runtime:
  assumes "runtime_fits (exported r)"
  shows "get_ptr db_runtime_fields z (db_runtime_json r) p
    = Some (Some (set_exported (exported r) (case p of None \<Rightarrow> z | Some q \<Rightarrow> q)))"
proof -
  obtain ms where "db_runtime_json r = JObj ms" by (simp add: db_runtime_json_def runtime_json_def)
  with fill_db_runtime [OF assms] show ?thesis by simp
qed

definition ptr_fits :: "db_RuntimeOptions option \<Rightarrow> bool" where
  "ptr_fits p \<longleftrightarrow> (case p of None \<Rightarrow> True | Some r \<Rightarrow> runtime_fits (exported r))"

text \<open>Values of the Go types; and an entity as its text keeps it, without the names of a part's runtime options.\<close>

fun entity_fits :: "entity \<Rightarrow> bool" where
  "entity_fits (EPolicy p) = (smap_fits (dp_driver p) \<and> smap_fits (dp_filesystems p) \<and> ptr_fits (dp_runtime p))"
| "entity_fits (EVolume v) = (smap_fits (dv_driver v) \<and> ptr_fits (dv_runtime v))"
| "entity_fits (ERuntime r) = runtime_fits (exported r)"
| "entity_fits (EGlobal g) = global_fits g"

definition unnamed :: "db_RuntimeOptions option \<Rightarrow> db_RuntimeOptions option" where
  "unnamed p = map_option (\<lambda>r. ro_named [] [] (exported r)) p"

lemma get_ptr_unnamed:
  "ptr_fits p \<Longrightarrow> get_ptr db_runtime_fields (NewRuntimeOptions [] []) (ptr_json db_runtime_json p) None = Some (unnamed p)"
  by (cases p) (simp_all add: ptr_json_def unnamed_def ptr_fits_def get_ptr_runtime NewRuntimeOptions_def del: get_ptr.simps(2-7))

lemma ptr_json_cases: "ptr_json f None = JNull" "ptr_json f (Some x) = f x"
  by (simp_all add: ptr_json_def)

lemma fill_db_volume:
  assumes "entity_fits (EVolume v)"
  shows "fill db_volume_fields (db_volume_json v) (NewVolume a b) = Some (v\<lparr>dv_runtime := unnamed (dv_runtime v)\<rparr>)"
  using assms
  by (cases "dv_backends v"; cases "dv_unlocked v")
    (simp_all add: db_volume_json_def db_volume_fields_def json_fields fold_eq_def lower_char_def fill_create
      get_ptr_unnamed get_ptr_backends get_smap_fits ptr_json_cases NewVolume_def fill_obj
      del: get_ptr.simps fill.simps)

lemma fill_db_policy:
  assumes "entity_fits (EPolicy p)"
  shows "fill db_policy_fields (db_policy_json p) (db_NewPolicy a) = Some (p\<lparr>dp_runtime := unnamed (dp_runtime p)\<rparr>)"
  using assms
  by (cases "dp_backends p"; cases "dp_unlocked p"; cases "dp_backend p = []")
    (simp_all add: db_policy_json_def db_policy_fields_def json_fields fold_eq_def lower_char_def fill_create
      get_ptr_unnamed get_ptr_backends get_smap_fits ptr_json_cases db_NewPolicy_def fill_obj
      del: get_ptr.simps fill.simps)

fun blank :: "entity \<Rightarrow> entity" where
  "blank (EPolicy p) = EPolicy (db_NewPolicy (dp_name p))"
| "blank (EVolume v) = EVolume (NewVolume (dv_policy v) (dv_name v))"
| "blank (ERuntime r) = ERuntime (NewRuntimeOptions (ro_policyName r) (ro_volumeName r))"
| "blank (EGlobal g) = EGlobal NewGlobal"

fun stored :: "entity \<Rightarrow> entity" where
  "stored (EPolicy p) = EPolicy (p\<lparr>dp_runtime := unnamed (dp_runtime p)\<rparr>)"
| "stored (EVolume v) = EVolume (v\<lparr>dv_runtime := unnamed (dv_runtime v)\<rparr>)"
| "stored e = e"

lemma wf_db_json [simp]: "wf_json (entity_json e)"
proof (cases e)
  case (EPolicy p)
  then show ?thesis
    by (cases "dp_backends p"; cases "dp_runtime p") (simp_all add: db_policy_json_def db_runtime_json_def json_fields ptr_json_def)
next
  case (EVolume v)
  then show ?thesis
    by (cases "dv_backends v"; cases "dv_runtime v") (simp_all add: db_volume_json_def db_runtime_json_def json_fields ptr_json_def)
qed (simp_all add: db_runtime_json_def)

lemma Read_Write:
  assumes "entity_fits e"
  shows "Read (blank e) (Write e) = Ok (stored e)"
proof -
  have u: "unmarshal fs (render (entity_json e)) r = Ok x" if "fill fs (entity_json e) r = Some x" for fs and r x :: 'b
    using that by (rule unmarshal_render [OF wf_db_json])
  show ?thesis
  proof (cases e)
    case (EPolicy p)
    then show ?thesis using assms u [of db_policy_fields] fill_db_policy by (simp add: Read_def Write_def)
  next
    case (EVolume v)
    then show ?thesis using assms u [of db_volume_fields] fill_db_volume by (simp add: Read_def Write_def)
  next
    case (ERuntime r)
    then show ?thesis using assms u [of db_runtime_fields] fill_db_runtime [of r]
      by (simp add: Read_def Write_def NewRuntimeOptions_def)
  next
    case (EGlobal g)
    then show ?thesis using assms u [of global_fields] fill_global [of g] by (simp add: Read_def Write_def)
  qed
qed

section \<open>Keys\<close>

lemma trim_slashes_id:
  assumes "s \<noteq> []" "hd s \<noteq> CHR ''/''" "last s \<noteq> CHR ''/''"
  shows "trim_slashes s = s"
proof -
  have "dropWhile (\<lambda>x. x = CHR ''/'') s = s" using assms by (cases s) auto
  moreover have "dropWhile (\<lambda>x. x = CHR ''/'') (rev s) = rev s" using assms by (cases s rule: rev_cases) auto
  ultimately show ?thesis by (simp add: trim_slashes_def trim_char_def)
qed

lemma trim_slashes_front: "trim_slashes (slash @ s) = trim_slashes s"
  by (simp add: trim_slashes_def trim_char_def)

lemma name_valid_ends:
  assumes "name_valid s"
  shows "s \<noteq> []" "hd s \<noteq> CHR ''/''" "last s \<noteq> CHR ''/''" "CHR ''/'' \<notin> set s"
  using assms by (auto simp: name_valid_def dest: hd_in_set last_in_set)

text \<open>A path of names below a root, under a prefix without a leading slash, is taken apart again.\<close>

lemma trimPath_key:
  assumes "\<not> has_prefix slash (c_prefix c)" "k = db_qualified c p \<or> k = slash @ db_qualified c p"
    and "p \<noteq> []" "hd p \<noteq> CHR ''/''" "last p \<noteq> CHR ''/''"
  shows "trimPath c k = p"
proof -
  have q: "db_qualified c p = c_prefix c @ slash @ p" by (simp add: db_qualified_def)
  have t: "trim_slashes k = trim_slashes (c_prefix c @ slash @ p)" using assms(2) trim_slashes_front q by metis
  show ?thesis
  proof (cases "c_prefix c")
    case Nil
    then show ?thesis using t trim_slashes_front trim_slashes_id [OF assms(3-5)]
      by (simp add: trimPath_def trim_prefix_def has_prefix_def)
  next
    case (Cons x xs)
    then have "x \<noteq> CHR ''/''" using assms(1) by (auto simp: has_prefix_def)
    then have "trim_slashes k = c_prefix c @ slash @ p"
      unfolding t by (intro trim_slashes_id) (use Cons assms(3,5) in auto)
    then show ?thesis
      using trim_slashes_front trim_slashes_id [OF assms(3-5)] by (simp add: trimPath_def trim_prefix_append)
  qed
qed

lemma two_parts_names:
  assumes "name_valid a" "name_valid b"
  shows "two_parts (a @ slash @ b) = Ok (a, b)"
proof -
  have "split_on CHR ''/'' (a @ slash @ b) = [a, b]"
    using name_valid_ends [OF assms(1)] name_valid_ends [OF assms(2)] by (simp add: split_on_append split_on_no_sep)
  then show ?thesis using name_valid_ends(1) [OF assms(1)] name_valid_ends(1) [OF assms(2)] by (simp add: two_parts_def)
qed

lemma names_trimmed:
  assumes "name_valid a" "name_valid b"
  shows "trim_slashes (a @ slash @ b) = a @ slash @ b"
  using name_valid_ends [OF assms(1)] name_valid_ends [OF assms(2)] by (intro trim_slashes_id) auto

lemma runtime_parts_key:
  assumes "name_valid a" "name_valid b"
  shows "runtime_parts (rootRuntimeOptions @ slash @ a @ slash @ b) = Ok (a, b)"
  using trim_slashes_front names_trimmed [OF assms] two_parts_names [OF assms]
  by (simp add: runtime_parts_def trim_prefix_append)

text \<open>A policy whose name starts like the root of the runtime options is cut.\<close>

lemma runtime_parts_names:
  assumes "name_valid a" "name_valid b" "\<not> has_prefix rootRuntimeOptions a"
  shows "runtime_parts (a @ slash @ b) = Ok (a, b)"
proof -
  have "\<not> has_prefix rootRuntimeOptions (a @ slash @ b)"
  proof
    assume h: "has_prefix rootRuntimeOptions (a @ slash @ b)"
    then obtain t where t: "a @ slash @ b = rootRuntimeOptions @ t"
      by (metis has_prefix_def append_take_drop_id)
    then have "(\<exists>us. a = rootRuntimeOptions @ us) \<or> (\<exists>us. a @ us = rootRuntimeOptions \<and> slash @ b = us @ t)"
      by (auto simp: append_eq_append_conv2)
    moreover have "a \<noteq> rootRuntimeOptions @ us" for us using assms(3) by (auto simp: has_prefix_def)
    ultimately obtain us where us: "a @ us = rootRuntimeOptions" "slash @ b = us @ t" by blast
    have "us \<noteq> []" using us(1) assms(3) by (auto simp: has_prefix_def)
    then have "CHR ''/'' \<in> set us" using us(2) by (cases us) auto
    then have "CHR ''/'' \<in> set rootRuntimeOptions" using us(1) by (metis Un_iff set_append)
    then show False by (simp add: rootRuntimeOptions_def)
  qed
  then show ?thesis
    using names_trimmed [OF assms(1,2)] two_parts_names [OF assms(1,2)] by (simp add: runtime_parts_def trim_prefix_def)
qed

lemma Volume_SetKey_key:
  assumes "name_valid a" "name_valid b" "\<not> has_prefix rootRuntimeOptions a"
  shows "db_Volume_SetKey v (db_rootVolume @ slash @ a @ slash @ b) =
    (case dv_runtime v of None \<Rightarrow> Panic nil_deref
     | Some r \<Rightarrow> Ok (v\<lparr>dv_policy := a, dv_name := b, dv_runtime := Some (ro_named a b (exported r))\<rparr>))"
proof -
  have "trim_slashes (db_rootVolume @ slash @ a @ slash @ b) = db_rootVolume @ slash @ a @ slash @ b"
    using name_valid_ends [OF assms(2)] by (intro trim_slashes_id) (auto simp: db_rootVolume_def)
  then have s: "trim_slashes (trim_prefix db_rootVolume (trim_slashes (db_rootVolume @ slash @ a @ slash @ b))) = a @ slash @ b"
    using trim_slashes_front names_trimmed [OF assms(1,2)] by (simp add: trim_prefix_append)
  show ?thesis
    by (simp add: db_Volume_SetKey_def s [simplified] two_parts_names [OF assms(1,2), simplified]
        runtime_parts_names [OF assms, simplified] Runtime_SetKey_def rename_named Let_def split: option.splits)
qed

lemma Policy_SetKey_key:
  assumes "name_valid a"
  shows "db_Policy_SetKey p (db_rootPolicy @ slash @ a) = Ok (p\<lparr>dp_name := a\<rparr>)"
proof -
  have s: "trim_slashes (trim_prefix db_rootPolicy (db_rootPolicy @ slash @ a)) = a"
    using name_valid_ends [OF assms] trim_slashes_front trim_slashes_id [of a] by (simp add: trim_prefix_append)
  have "contains slash a \<longleftrightarrow> CHR ''/'' \<in> set a" for a by (induction a) (auto simp: has_prefix_def)
  then show ?thesis using name_valid_ends [OF assms] by (simp add: db_Policy_SetKey_def Let_def s [simplified])
qed

lemma Runtime_SetKey_key:
  assumes "name_valid a" "name_valid b"
  shows "Runtime_SetKey r (rootRuntimeOptions @ slash @ a @ slash @ b) = Ok (ro_named a b (exported r))"
  by (simp add: Runtime_SetKey_def runtime_parts_key [OF assms, simplified] rename_named)

end
