(* ===== verification/Db_Props.thy ===== *)
theory Db_Props imports Db_Lemmas begin

text \<open>
  What the client of package \<open>db\<close> promises: an entity that was set is got again, and where it is not (a prefix with a
  leading slash, records that do not decode, options of the runtime); and the table of its watches.
\<close>

section \<open>The client and its hooks\<close>

text \<open>Runtime options have no hooks, whatever is read into them.\<close>

lemma runtime_stays:
  "Read (ERuntime r) b = Ok x \<Longrightarrow> \<exists>r'. x = ERuntime r'"
  "db_SetKey (ERuntime r) key = Ok x \<Longrightarrow> \<exists>r'. x = ERuntime r'"
  "db_Validate c (ERuntime r) = Ok x \<Longrightarrow> x = ERuntime r"
  by (auto simp: Read_def with_obj_def split: outcome.splits elim!: bind_res_OkE)

lemma run_no_hook [simp]: "run_hook None k obj = ret obj"
  by (simp add: run_hook_def fun_eq_iff)

lemma ret_andThen [simp]: "andThen (ret x) f = f x"
  by (simp add: fun_eq_iff)

lemma no_hooks_fields [simp]:
  "PreSet no_hooks = None" "PostSet no_hooks = None" "PreGet no_hooks = None" "PostGet no_hooks = None"
  "PreDelete no_hooks = None" "PostDelete no_hooks = None"
  by (simp_all add: no_hooks_def)

lemma hooks_absent [simp]:
  "PreGet (db_Hooks_of e) = None" "PostSet (db_Hooks_of e) = None" "PreDelete (db_Hooks_of e) = None"
  "PostDelete (db_Hooks_of e) = None"
  by (cases e; simp)+

lemma andThen_cong: "(\<And>x v. m w = (Ok x, v) \<Longrightarrow> f x v = g x v) \<Longrightarrow> andThen m f w = andThen m g w"
  by (auto simp: io_defs split: prod.splits outcome.splits)

lemma attempt_cong: "(\<And>x v. m w = (Ok x, v) \<Longrightarrow> f x v = g x v) \<Longrightarrow> attempt m h f w = attempt m h g w"
  by (auto simp: io_defs split: prod.splits outcome.splits)

lemma with_obj_Ok [simp]: "with_obj e r = Ok x \<longleftrightarrow> r = Ok x"
  by (simp add: with_obj_def split: outcome.splits)

lemma runtime_get_alone: "entity_get c k (ERuntime r) = entity_get c k' (ERuntime r)"
proof
  fix w
  show "entity_get c k (ERuntime r) w = entity_get c k' (ERuntime r) w"
    by (simp add: entity_get_def) (intro andThen_cong attempt_cong; (auto dest!: runtime_stays)[1])
qed

lemma runtime_set_alone: "entity_set c k (ERuntime r) = entity_set c k' (ERuntime r)"
proof
  fix w
  show "entity_set c k (ERuntime r) w = entity_set c k' (ERuntime r) w"
    by (simp add: entity_set_def) (rule andThen_cong, auto elim!: bind_res_OkE)
qed

lemma delete_alone: "entity_delete c k obj = entity_delete c k' obj"
  by (simp add: entity_delete_def)

lemma on_runtime_cong: "\<forall>r. f (ERuntime r) = g (ERuntime r) \<Longrightarrow> on_runtime f v = on_runtime g v"
  by (simp add: on_runtime_def split: option.splits)

lemma postGet_cong:
  assumes "\<forall>r. cl_Get k (ERuntime r) = cl_Get k' (ERuntime r)"
  shows "run_hook (PostGet (db_Hooks_of e)) k e = run_hook (PostGet (db_Hooks_of e)) k' e"
  using on_runtime_cong [OF assms] by (cases e) (simp_all add: run_hook_def)

lemma get_cong:
  assumes "\<forall>r. cl_Get k (ERuntime r) = cl_Get k' (ERuntime r)"
  shows "entity_get c k = entity_get c k'"
  by (rule ext) (simp add: entity_get_def postGet_cong [OF assms])

lemma set_cong:
  assumes "cl_Get k = cl_Get k'" "\<forall>r. cl_Set k (ERuntime r) = cl_Set k' (ERuntime r)"
  shows "entity_set c k = entity_set c k'"
proof
  fix e
  have "run_hook (PreSet (db_Hooks_of x)) k x = run_hook (PreSet (db_Hooks_of x)) k' x" for x
    using on_runtime_cong [OF assms(2)] by (cases x) (simp_all add: run_hook_def assms(1))
  then show "entity_set c k e = entity_set c k' e" by (simp add: entity_set_def)
qed

lemma client_step: "client_at (Suc (Suc (Suc (Suc n)))) c = client_at (Suc (Suc (Suc n))) c"
proof -
  have r: "\<forall>r. cl_Get (client_at (Suc i) c) (ERuntime r) = cl_Get (client_at (Suc j) c) (ERuntime r)" for i j
    by (simp, intro allI, rule runtime_get_alone)
  have g: "cl_Get (client_at (Suc (Suc i)) c) = cl_Get (client_at (Suc (Suc j)) c)" for i j
    using get_cong [OF r] by (simp only: client_at.simps(2) [of "Suc _"] db_Client.select_convs)
  have s: "\<forall>r. cl_Set (client_at (Suc i) c) (ERuntime r) = cl_Set (client_at (Suc j) c) (ERuntime r)" for i j
    by (simp, intro allI, rule runtime_set_alone)
  have s': "cl_Set (client_at (Suc (Suc (Suc i))) c) = cl_Set (client_at (Suc (Suc (Suc j))) c)" for i j
    using set_cong [OF g s] by (simp only: client_at.simps(2) [of "Suc _"] db_Client.select_convs)
  have d: "cl_Delete (client_at (Suc i) c) = cl_Delete (client_at (Suc j) c)" for i j
    by (simp, intro ext, rule delete_alone [THEN fun_cong])
  show ?thesis by (rule db_Client.equality) (rule g, rule s', rule d, simp)
qed

text \<open>So the client's hooks run on the client itself.\<close>

lemma client_ties:
  "db_Get c = entity_get c (db_client c)" "db_Set c = entity_set c (db_client c)" "db_Delete c = entity_delete c (db_client c)"
proof -
  have "client_at 4 c = client_at 3 c" using client_step [of 0 c] by (simp add: eval_nat_numeral)
  moreover have "client_at 4 c = \<lparr>cl_Get = entity_get c (client_at 3 c), cl_Set = entity_set c (client_at 3 c),
      cl_Delete = entity_delete c (client_at 3 c)\<rparr>" by (simp add: eval_nat_numeral)
  ultimately show "db_Get c = entity_get c (db_client c)" "db_Set c = entity_set c (db_client c)"
      "db_Delete c = entity_delete c (db_client c)"
    unfolding db_Get_def db_Set_def db_Delete_def db_client_def by (metis db_Client.select_convs)+
qed

section \<open>Validation\<close>

text \<open>The policy and the volume of package \<open>config\<close> with the same fields.\<close>

definition policy_as_config :: "db_Policy \<Rightarrow> Policy" where
  "policy_as_config p =
     \<lparr>p_name = dp_name p, p_unlocked = dp_unlocked p, p_create = dp_create p,
      p_runtime = (case dp_runtime p of None \<Rightarrow> zero_runtime | Some r \<Rightarrow> exported r),
      p_driver = dp_driver p, p_filesystems = dp_filesystems p, p_backends = dp_backends p, p_backend = dp_backend p\<rparr>"

lemma defaults_same: "DefaultDrivers = defaultDrivers" "DefaultFilesystems = defaultFilesystems"
  by (simp_all add: DefaultDrivers_def defaultDrivers_def DefaultFilesystems_def defaultFilesystems_def)

lemma ActualSize_same: "db_ActualSize c co = ActualSize c co"
  by (simp add: db_ActualSize_def ActualSize_def)

lemma validateJSON_Ok: "validateJSON s j = Ok u \<longleftrightarrow> valid j s"
  by (simp add: validateJSON_def against_def)

lemma validateJSON_cases: "validateJSON s j = (if valid j s then Ok () else Err (Combine ErrJSONValidation combineErrors))"
  by (simp add: validateJSON_def against_def)

lemma as_config_fields [simp]:
  "v_policy (as_config v) = dv_policy v" "v_name (as_config v) = dv_name v" "v_driver (as_config v) = dv_driver v"
  "v_mount (as_config v) = dv_mount v" "v_create (as_config v) = dv_create v" "v_backends (as_config v) = dv_backends v"
  "Volume_String (as_config v) = db_Volume_String v"
  by (simp_all add: as_config_def db_Volume_String_def Volume_String_def)

lemma backends_same: "db_validateBackends c v = validateBackends c (as_config v)"
proof -
  have "db_ToDriverOptions c v t = ToDriverOptions c (as_config v) t" for t
    by (simp add: db_ToDriverOptions_def ToDriverOptions_def ActualSize_same split: prod.splits option.splits)
  then show ?thesis by (simp add: db_validateBackends_def validateBackends_def)
qed

lemma db_VolumeSchema_iff:
  "valid (db_volume_json v) db_VolumeSchema \<longleftrightarrow>
     name_valid (dv_name v) \<and> name_valid (dv_policy v) \<and> (\<exists>b. dv_backends v = Some b \<and> backends_ok b)"
  by (cases "dv_backends v"; cases "dv_unlocked v"; cases "dv_runtime v")
    (auto simp: db_VolumeSchema_def VolumeSchema_def db_volume_json_def json_fields ptr_json_cases name_schema_iff backends_schema_iff)

lemma db_PolicySchema_iff:
  "valid (db_policy_json p) db_PolicySchema \<longleftrightarrow>
     name_valid (dp_name p) \<and> (\<forall>b. dp_backends p = Some b \<longrightarrow> backends_ok b) \<and>
     dp_backend p \<in> {[], ''ceph'', ''nfs''} \<and> (dp_backends p = None \<longrightarrow> dp_backend p \<noteq> [])"
  by (cases "dp_backends p"; cases "dp_unlocked p"; cases "dp_backend p = []"; cases "dp_runtime p")
    (auto simp: db_PolicySchema_def PolicySchema_def db_policy_json_def json_fields ptr_json_cases name_schema_iff backends_schema_iff)

lemma runtime_schema_ptr:
  "valid (ptr_json db_runtime_json p) db_RuntimeSchema \<longleftrightarrow> (\<exists>r. p = Some r \<and> runtime_ok (exported r))"
  by (cases p, simp add: ptr_json_cases db_RuntimeSchema_def RuntimeSchema_def)
    (simp add: ptr_json_cases db_RuntimeSchema_def db_runtime_json_def RuntimeSchema_iff)

lemma Runtime_Validate_iff: "Runtime_Validate r = Ok u \<longleftrightarrow> runtime_ok (exported r)"
  by (simp add: Runtime_Validate_def validateJSON_Ok db_RuntimeSchema_def db_runtime_json_def RuntimeSchema_iff)

lemma db_Volume_Validate_iff:
  "db_Volume_Validate c v = Ok () \<longleftrightarrow> volume_ok c ((as_config v)\<lparr>v_runtime := zero_runtime\<rparr>)"
proof -
  let ?v = "(as_config v)\<lparr>v_runtime := zero_runtime\<rparr>"
  have b: "validateBackends c (as_config v) = validateBackends c ?v"
  proof -
    have "ToDriverOptions c ?v t = ToDriverOptions c (as_config v) t" for t
      by (simp add: ToDriverOptions_def Volume_String_def split: prod.splits option.splits)
    then show ?thesis by (simp add: validateBackends_def)
  qed
  have j: "valid (db_volume_json v) db_VolumeSchema \<longleftrightarrow> Volume_ValidateJSON ?v = Ok ()"
    by (auto simp: db_VolumeSchema_iff Volume_ValidateJSON_iff zero_defs runtime_ok_def)
  have "db_Volume_Validate c v = Ok () \<longleftrightarrow> Volume_Validate c ?v = Ok ()"
    using j Volume_ValidateJSON_cases [of ?v]
    by (auto simp: db_Volume_Validate_def validateJSON_cases backends_same b Volume_Validate_def)
  then show ?thesis by (simp add: Volume_Validate_iff)
qed

text \<open>The policy a successful validation leaves.\<close>

definition completed :: "db_Policy \<Rightarrow> Policy \<Rightarrow> db_Policy" where
  "completed p q = p\<lparr>dp_filesystems := p_filesystems q, dp_backends := p_backends q\<rparr>"

lemma with_filesystems_config:
  "with_filesystems (policy_as_config p) = policy_as_config (if dp_filesystems p = None then p\<lparr>dp_filesystems := Some DefaultFilesystems\<rparr> else p)"
  by (simp add: with_filesystems_def policy_as_config_def defaults_same)

lemma Policy_Validate_Ok_iff:
  "Policy_Validate c p = Ok q \<longleftrightarrow> Policy_ValidateJSON (with_filesystems p) = Ok () \<and>
     (\<exists>b. chosen_backends p = Ok b \<and> q = (with_filesystems p)\<lparr>p_backends := Some b\<rparr> \<and>
        (bd_crud b \<noteq> [] \<longrightarrow> 0 < fst (ActualSize c (p_create p)) \<and> snd (ActualSize c (p_create p)) = None))"
proof (intro iffI)
  assume "Policy_Validate c p = Ok q"
  then show "Policy_ValidateJSON (with_filesystems p) = Ok () \<and>
     (\<exists>b. chosen_backends p = Ok b \<and> q = (with_filesystems p)\<lparr>p_backends := Some b\<rparr> \<and>
        (bd_crud b \<noteq> [] \<longrightarrow> 0 < fst (ActualSize c (p_create p)) \<and> snd (ActualSize c (p_create p)) = None))"
    using Validate_result by blast
qed (auto simp: Policy_Validate_def Let_def split: prod.splits)

lemma db_Policy_Validate_runs:
  "db_Policy_Validate c p = Ok p' \<longleftrightarrow>
     (let q = (if dp_filesystems p = None then p\<lparr>dp_filesystems := Some DefaultFilesystems\<rparr> else p) in
      valid (ptr_json db_runtime_json (dp_runtime p)) db_RuntimeSchema \<and> valid (db_policy_json q) db_PolicySchema \<and>
      (\<exists>b. (case dp_backends p of Some b \<Rightarrow> Some b | None \<Rightarrow> map_of DefaultDrivers (dp_backend p)) = Some b \<and>
         p' = q\<lparr>dp_backends := Some b\<rparr> \<and>
         (bd_crud b \<noteq> [] \<longrightarrow> 0 < fst (db_ActualSize c (dp_create p)) \<and> snd (db_ActualSize c (dp_create p)) = None)))"
proof -
  let ?q = "if dp_filesystems p = None then p\<lparr>dp_filesystems := Some DefaultFilesystems\<rparr> else p"
  have f: "dp_runtime ?q = dp_runtime p" "dp_backends ?q = dp_backends p" "dp_backend ?q = dp_backend p" "dp_create ?q = dp_create p"
    by simp_all
  show ?thesis
    unfolding db_Policy_Validate_def validateJSON_cases Let_def f
    by (cases "db_ActualSize c (dp_create p)")
      (cases "case dp_backends p of Some b \<Rightarrow> Some b | None \<Rightarrow> map_of DefaultDrivers (dp_backend p)", auto)
qed

lemma db_Policy_Validate_iff:
  "db_Policy_Validate c p = Ok p' \<longleftrightarrow>
     dp_runtime p \<noteq> None \<and> (\<exists>q. Policy_Validate c (policy_as_config p) = Ok q \<and> p' = completed p q)"
proof -
  let ?p = "if dp_filesystems p = None then p\<lparr>dp_filesystems := Some DefaultFilesystems\<rparr> else p"
  have j: "Policy_ValidateJSON (policy_as_config ?p) = Ok () \<longleftrightarrow>
      valid (ptr_json db_runtime_json (dp_runtime p)) db_RuntimeSchema \<and> valid (db_policy_json ?p) db_PolicySchema"
    if "dp_runtime p \<noteq> None"
    using that by (auto simp: Policy_ValidateJSON_iff db_PolicySchema_iff runtime_schema_ptr policy_as_config_def)
  have ch: "chosen_backends (policy_as_config p) = Ok b \<longleftrightarrow>
      (case dp_backends p of Some b \<Rightarrow> Some b | None \<Rightarrow> map_of DefaultDrivers (dp_backend p)) = Some b" for b
    by (auto simp: chosen_backends_def policy_as_config_def defaults_same split: option.splits)
  have sz: "db_ActualSize c (dp_create p) = ActualSize c (p_create (policy_as_config p))"
    by (simp add: ActualSize_same policy_as_config_def)
  have q: "?p\<lparr>dp_backends := Some b\<rparr> = completed p ((policy_as_config ?p)\<lparr>p_backends := Some b\<rparr>)" for b
    by (simp add: completed_def policy_as_config_def)
  show ?thesis
  proof (cases "dp_runtime p = None")
    case True
    then show ?thesis by (simp add: db_Policy_Validate_runs runtime_schema_ptr Let_def)
  next
    case False
    show ?thesis
      unfolding db_Policy_Validate_runs Policy_Validate_Ok_iff with_filesystems_config j [OF False] ch sz Let_def q
      using False by blast
  qed
qed

lemma db_Policy_Validate_OkE:
  assumes "db_Policy_Validate c p = Ok p'"
  shows "Policy_Validate c (policy_as_config p) = Ok (policy_as_config p')" "dp_runtime p' = dp_runtime p" "dp_runtime p \<noteq> None"
    "dp_name p' = dp_name p" "dp_driver p' = dp_driver p"
proof -
  obtain q where q: "Policy_Validate c (policy_as_config p) = Ok q" "p' = completed p q" "dp_runtime p \<noteq> None"
    using assms by (auto simp: db_Policy_Validate_iff)
  obtain b where "q = (with_filesystems (policy_as_config p))\<lparr>p_backends := Some b\<rparr>" using Validate_result(2) [OF q(1)] by blast
  then have "policy_as_config p' = q"
    using q(2) by (simp add: with_filesystems_config completed_def policy_as_config_def)
  then show "Policy_Validate c (policy_as_config p) = Ok (policy_as_config p')" "dp_runtime p' = dp_runtime p" "dp_runtime p \<noteq> None"
      "dp_name p' = dp_name p" "dp_driver p' = dp_driver p"
    using q by (simp_all add: completed_def)
qed

text \<open>What has passed passes again, under any names of its runtime options.\<close>

lemma db_Policy_again:
  assumes "db_Policy_Validate c p = Ok p'" "policy_as_config x = policy_as_config p'" "dp_runtime x \<noteq> None"
  shows "db_Policy_Validate c x = Ok x"
proof -
  have "policy_ok c (policy_as_config x)" using Validate_ok [OF db_Policy_Validate_OkE(1) [OF assms(1)]] assms(2) by simp
  then have "Policy_Validate c (policy_as_config x) = Ok (policy_as_config x)" by (rule policy_ok_Validate)
  moreover have "completed x (policy_as_config x) = x" by (simp add: completed_def policy_as_config_def)
  ultimately show ?thesis using assms(3) by (auto simp: db_Policy_Validate_iff)
qed

text \<open>
  The validation of package \<open>db\<close> agrees with that of package \<open>config\<close>: a policy passes exactly when it has runtime
  options and \<open>config\<close> accepts it, with the same defaults filled in, and it then passes again unchanged; a volume passes
  exactly when it meets the requirements of \<open>config\<close> other than those on its runtime options, which are not looked at.
\<close>

theorem db_validation_agrees:
  "(db_Policy_Validate c p = Ok p' \<longleftrightarrow>
      dp_runtime p \<noteq> None \<and> (\<exists>q. Policy_Validate c (policy_as_config p) = Ok q \<and> p' = completed p q)) \<and>
   (db_Policy_Validate c p = Ok p' \<longrightarrow> db_Policy_Validate c p' = Ok p') \<and>
   (db_Volume_Validate c v = Ok () \<longleftrightarrow> volume_ok c ((as_config v)\<lparr>v_runtime := zero_runtime\<rparr>))"
  using db_Policy_again [of c p p' p'] db_Policy_Validate_OkE(2,3) [of c p p']
  by (auto simp: db_Policy_Validate_iff db_Volume_Validate_iff)

definition db_gold :: db_Policy where
  "db_gold = (db_NewPolicy ''gold'')\<lparr>dp_backend := ''nfs'', dp_runtime := Some (NewRuntimeOptions [] [])\<rparr>"

definition db_gold_filled :: db_Policy where
  "db_gold_filled = db_gold\<lparr>dp_filesystems := Some DefaultFilesystems,
     dp_backends := Some \<lparr>bd_crud = [], bd_mount = ''nfs'', bd_snapshot = []\<rparr>\<rparr>"

lemma db_gold_validated: "db_Policy_Validate (machine_host 1) db_gold = Ok db_gold_filled"
  by code_simp

theorem db_validation_agrees_witness:
  "db_Policy_Validate (machine_host 1) db_gold = Ok db_gold_filled \<and>
   db_Policy_Validate (machine_host 1) db_gold_filled = Ok db_gold_filled"
  using db_validation_agrees [of "machine_host 1" db_gold db_gold_filled "NewVolume [] []"] db_gold_validated by blast

section \<open>The store\<close>

text \<open>
  The node of a key carries the key with a leading slash, whether the request had one or not.
\<close>

locale db_store = etcd_up c fval free
  for c :: "('w, 'z) host_scheme" and fval free +
  assumes get_key: "kv_get c k g w = (Ok n, w') \<Longrightarrow> n_key n = k \<or> n_key n = slash @ k"

text \<open>The store in memory under another prefix.\<close>

definition db_host :: "nat \<Rightarrow> string \<Rightarrow> machine host" where
  "db_host n p = (machine_host n)\<lparr>c_prefix := p\<rparr>"

lemma etcd_up_same:
  assumes "etcd_up c f fr" "kv_get c = kv_get c'" "kv_set c = kv_set c'" "kv_del c = kv_del c'"
  shows "etcd_up c' f fr"
  using assms(1) unfolding etcd_up_def etcd_up_axioms_def etcd_def assms(2-4) .

interpretation db_memory: db_store "db_host n p" mem_file mem_free
proof -
  have "etcd_up (db_host n p) mem_file mem_free"
    by (rule etcd_up_same [OF machine.etcd_up_axioms [of n]]) (simp_all add: db_host_def)
  then show "db_store (db_host n p) mem_file mem_free"
    by (rule db_store.intro) (unfold_locales, auto simp: db_host_def mem_get_def split: option.splits if_splits)
qed

fun entity_path :: "entity \<Rightarrow> string" where
  "entity_path (EPolicy p) = db_rootPolicy @ slash @ dp_name p"
| "entity_path (EVolume v) = db_rootVolume @ slash @ dv_policy v @ slash @ dv_name v"
| "entity_path (ERuntime r) = rootRuntimeOptions @ slash @ ro_policyName r @ slash @ ro_volumeName r"
| "entity_path (EGlobal g) = rootGlobal"

text \<open>
  Names as the schemas want them; a policy whose name starts like the directory of the runtime options has volumes
  that cannot be read.
\<close>

fun key_ok :: "entity \<Rightarrow> bool" where
  "key_ok (EPolicy p) = name_valid (dp_name p)"
| "key_ok (EVolume v) = (name_valid (dv_policy v) \<and> name_valid (dv_name v) \<and> \<not> has_prefix rootRuntimeOptions (dv_policy v))"
| "key_ok (ERuntime r) = (name_valid (ro_policyName r) \<and> name_valid (ro_volumeName r))"
| "key_ok (EGlobal g) = True"

definition entity_key :: "('w, 'z) client_scheme \<Rightarrow> entity \<Rightarrow> string" where
  "entity_key c e = db_qualified c (entity_path e)"

lemma entity_path_ok:
  assumes "key_ok e"
  shows "db_Path e = Ok (entity_path e)" "entity_path e \<noteq> []" "hd (entity_path e) \<noteq> CHR ''/''" "last (entity_path e) \<noteq> CHR ''/''"
  using assms
  by (cases e; auto simp: db_Policy_Path_def db_Volume_Path_def Runtime_Path_def db_roots dest: name_valid_ends)+

lemma SetKey_path:
  assumes "key_ok e"
  shows "db_SetKey e (entity_path e) =
    (case e of EVolume v \<Rightarrow>
       (case dv_runtime v of None \<Rightarrow> Panic nil_deref
        | Some r \<Rightarrow> Ok (EVolume (v\<lparr>dv_runtime := Some (named_for v r)\<rparr>)))
     | _ \<Rightarrow> Ok e)"
proof (cases e)
  case (EVolume v)
  then show ?thesis using assms Volume_SetKey_key [of "dv_policy v" "dv_name v" v]
    by (auto simp: named_for_def rename_named split: option.splits)
next
  case (ERuntime r)
  then show ?thesis using assms Runtime_SetKey_key [of "ro_policyName r" "ro_volumeName r" r] by (simp add: with_obj_def)
next
  case (EPolicy p)
  then show ?thesis using assms Policy_SetKey_key [of "dp_name p" p] by (simp add: with_obj_def)
qed simp

lemma Read_empty: "\<exists>er. Read e [] = Err er"
proof -
  have "parse [] = None" by code_simp
  then show ?thesis by (cases e) (simp_all add: Read_def unmarshal_def)
qed

context db_store begin

text \<open>A get of an entity that is in the store, and of one that is not.\<close>

lemma get_reads:
  assumes "\<not> has_prefix slash (c_prefix c)" "key_ok e0" "fval w (entity_key c e0) = Some b" "Read e0 b = Ok e"
  shows "\<exists>w1. fval w1 = fval w \<and> entity_get c k e0 w =
    andThen (lift (db_SetKey e (entity_path e0)))
      (\<lambda>e2. andThen (run_hook (PostGet (db_Hooks_of e2)) k e2) (\<lambda>e3. lift (db_Validate c e3))) w1"
proof -
  obtain n w1 where g: "kv_get c (entity_key c e0) get_nil w = (Ok n, w1)" "n_value n = b"
    using get_up [OF assms(3)] by blast
  have "n_key n = entity_key c e0 \<or> n_key n = slash @ entity_key c e0" using get_key g(1) by blast
  then have "trimPath c (n_key n) = entity_path e0"
    using trimPath_key [OF assms(1) _ entity_path_ok(2-4) [OF assms(2)]] by (simp add: entity_key_def)
  then show ?thesis using g get_keeps [OF g(1)] assms(4)
    by (intro exI [of _ w1]) (simp add: entity_get_def entity_path_ok(1) [OF assms(2)] entity_key_def with_obj_def)
qed

lemma get_nothing:
  assumes "key_ok e" "fval w (entity_key c e) = None"
  shows "\<exists>er w1. entity_get c k e w = (Err (er, e), w1) \<and> fval w1 = fval w"
proof -
  obtain r w1 where g: "kv_get c (entity_key c e) get_nil w = (r, w1)" by fastforce
  have kp: "fval w1 = fval w" using get_keeps [OF g] .
  from g show ?thesis
  proof (cases rule: get_cases)
    case (1 n)
    then have gn: "kv_get c (entity_key c e) get_nil w = (Ok n, w1)" using g by simp
    then have "n_value n = []" using get_dir [OF gn] get_ok [OF gn] assms(2) by (auto split: if_splits)
    then show ?thesis using g 1 kp Read_empty [of e]
      by (auto simp: entity_get_def entity_path_ok(1) [OF assms(1)] entity_key_def with_obj_def)
  next
    case (2 er)
    then show ?thesis using g kp by (simp add: entity_get_def entity_path_ok(1) [OF assms(1)] entity_key_def with_obj_def)
  qed
qed

lemma runtime_got:
  assumes "\<not> has_prefix slash (c_prefix c)" "key_ok (ERuntime r)" "runtime_fits (exported r)" "runtime_ok (exported r)"
    and "fval w (entity_key c (ERuntime r)) = Some (Write (ERuntime r))"
    and "ro_policyName r0 = ro_policyName r" "ro_volumeName r0 = ro_volumeName r"
  shows "\<exists>w1. entity_get c k (ERuntime r0) w = (Ok (ERuntime r), w1) \<and> fval w1 = fval w"
proof -
  have p: "entity_path (ERuntime r0) = entity_path (ERuntime r)" and ok: "key_ok (ERuntime r0)"
    using assms(2,6,7) by simp_all
  have "Read (ERuntime r0) (Write (ERuntime r)) = Ok (ERuntime r)"
  proof -
    have "unmarshal db_runtime_fields (Write (ERuntime r)) r0 = Ok (set_exported (exported r) r0)"
      unfolding Write_def by (rule unmarshal_render) (use wf_db_json [of "ERuntime r"] fill_db_runtime [OF assms(3)] in simp_all)
    moreover have "set_exported (exported r) r0 = r" by (simp add: set_exported_def assms(6,7))
    ultimately show ?thesis by (simp add: Read_def)
  qed
  from get_reads [OF assms(1) ok _ this, of w k] obtain w1 where "fval w1 = fval w"
    and "entity_get c k (ERuntime r0) w = andThen (lift (db_SetKey (ERuntime r) (entity_path (ERuntime r))))
      (\<lambda>e2. andThen (run_hook (PostGet (db_Hooks_of e2)) k e2) (\<lambda>e3. lift (db_Validate c e3))) w1"
    using assms(5) p by (auto simp: entity_key_def)
  then show ?thesis using SetKey_path [OF assms(2)] assms(4) Runtime_Validate_iff [of r "()"] by (simp add: with_obj_def)
qed

text \<open>What a set that returns has written.\<close>

lemma set_writes:
  assumes "\<forall>v. e1 \<noteq> EVolume v" "db_Validate c e = Ok e1" "key_ok e1" "entity_set c k e w = (Ok e', w1)"
  shows "e' = e1 \<and> fval w1 = (fval w)(entity_key c e1 \<mapsto> Write e1)"
proof -
  have ps: "(PreSet (db_Hooks_of e1) :: 'w hook option) = None" using assms(1) by (cases e1) simp_all
  have "attempt (kv_set c (entity_key c e1) (Write e1) set_nil) (\<lambda>e. fail (EtcdToErrored e, e1)) (\<lambda>_. ret e1) w = (Ok e', w1)"
    using assms(2,4) ps by (simp add: entity_set_def entity_path_ok(1) [OF assms(3)] with_obj_def entity_key_def)
  then obtain n where "kv_set c (entity_key c e1) (Write e1) set_nil w = (Ok n, w1)" "e' = e1"
    by (auto elim!: attempt_OkE)
  then show ?thesis using set_ok by (fastforce simp: set_nil_def)
qed

lemma set_volume_writes:
  assumes "key_ok (EVolume v)" "fval w (entity_key c (EVolume v)) = None" "db_Set c (EVolume v) w = (Ok e', w1)"
  obtains r where "dv_runtime v = Some r" "e' = EVolume (v\<lparr>dv_runtime := Some (named_for v r)\<rparr>)" "db_Volume_Validate c v = Ok ()"
    "runtime_ok (exported r)"
    "fval w1 = (fval w)(entity_key c (ERuntime (named_for v r)) \<mapsto> Write (ERuntime (named_for v r)), entity_key c e' \<mapsto> Write e')"
proof -
  let ?k = "db_client c"
  have ties: "cl_Get ?k = entity_get c ?k" "cl_Set ?k = entity_set c ?k"
    using client_ties [of c] by (simp_all add: db_Get_def db_Set_def)
  have set: "entity_set c ?k (EVolume v) w = (Ok e', w1)" using assms(3) client_ties(2) by metis
  then have va: "db_Volume_Validate c v = Ok ()"
    by (auto simp: entity_set_def with_obj_def elim!: andThen_OkE split: outcome.splits elim: bind_res_OkE)
  obtain er w2 where g: "entity_get c ?k (EVolume v) w = (Err (er, EVolume v), w2)" "fval w2 = fval w"
    using get_nothing [OF assms(1,2)] by blast
  have sh: "share_driver v (EVolume v) = v" by simp
  have pre: "preSetHook ?k (EVolume v) w = on_runtime (entity_set c ?k) v w2"
    using g(1) by (simp add: ties db_Copy_def sh del: share_driver.simps)
  let ?cont = "\<lambda>x. andThen (lift (with_obj x (db_Path x)))
        (\<lambda>p. attempt (kv_set c (db_qualified c p) (Write x) set_nil) (\<lambda>e. fail (EtcdToErrored e, x)) (\<lambda>_. ret x))"
  have "andThen (run_hook (Some preSetHook) ?k (EVolume v)) ?cont w = (Ok e', w1)"
    using set va by (simp add: entity_set_def with_obj_def [of "EVolume v"])
  then obtain x w3 where hook: "run_hook (Some preSetHook) ?k (EVolume v) w = (Ok x, w3)" and fin: "?cont x w3 = (Ok e', w1)"
    by (rule andThen_OkE)
  have h: "on_runtime (entity_set c ?k) v w2 = (Ok x, w3)"
    using hook unfolding run_hook_def option.case pre [symmetric] by (auto elim!: attempt_OkE simp del: preSetHook.simps)
  obtain r where r: "dv_runtime v = Some r" using h by (auto simp: on_runtime_def split: option.splits)
  let ?r = "named_for v r"
  obtain y where y: "entity_set c ?k (ERuntime ?r) w2 = (Ok y, w3)" "x = with_runtime v y"
    using h r by (auto simp: on_runtime_def elim!: attempt_OkE)
  then have rv: "db_Validate c (ERuntime ?r) = Ok (ERuntime ?r)"
    by (cases "Runtime_Validate ?r") (auto simp: entity_set_def with_obj_def)
  have rk: "key_ok (ERuntime ?r)" using assms(1) by (simp add: named_for_def)
  have w3: "y = ERuntime ?r" "fval w3 = (fval w)(entity_key c (ERuntime ?r) \<mapsto> Write (ERuntime ?r))"
    using set_writes [OF _ rv rk y(1)] g(2) by simp_all
  let ?x = "EVolume (v\<lparr>dv_runtime := Some ?r\<rparr>)"
  have x: "x = ?x" using y(2) w3(1) by simp
  have xk: "key_ok ?x" using assms(1) by simp
  obtain n where "kv_set c (entity_key c ?x) (Write ?x) set_nil w3 = (Ok n, w1)" "e' = ?x"
    using fin by (auto simp: x with_obj_def entity_path_ok(1) [OF xk] entity_key_def simp del: entity_path.simps db_Path.simps elim!: attempt_OkE)
  moreover have "runtime_ok (exported r)"
    using rv Runtime_Validate_iff [of ?r "()"] by (auto simp: with_obj_def named_for_def elim: bind_res_OkE split: outcome.splits)
  ultimately show thesis using that [OF r _ va] w3(2) set_ok by (fastforce simp: set_nil_def)
qed

end

section \<open>Setting and getting\<close>

text \<open>
  What a get yields of an entity that was set: the entity, but that the names of a policy's runtime options are
  not kept.
\<close>

fun returned :: "entity \<Rightarrow> entity" where
  "returned (EVolume v) = EVolume v"
| "returned e = stored e"

lemma blank_key [simp]:
  "key_ok (blank e) = key_ok e" "entity_path (blank e) = entity_path e" "key_ok (stored e) = key_ok e"
  "entity_path (stored e) = entity_path e" "entity_key c (blank e) = entity_key c e"
proof -
  show "key_ok (blank e) = key_ok e" "key_ok (stored e) = key_ok e" "entity_path (stored e) = entity_path e"
    by (cases e; simp add: NewVolume_def NewRuntimeOptions_def db_NewPolicy_def)+
  show p: "entity_path (blank e) = entity_path e"
    by (cases e) (simp_all add: NewVolume_def NewRuntimeOptions_def db_NewPolicy_def)
  show "entity_key c (blank e) = entity_key c e" by (simp add: entity_key_def p)
qed

lemma runtime_key_apart: "entity_key c (ERuntime r) \<noteq> entity_key c (EVolume v)"
  by (simp add: entity_key_def db_qualified_def db_roots)

lemma validated_entity:
  assumes "db_Validate c e = Ok e1" "\<forall>v. e \<noteq> EVolume v"
  shows "\<forall>v. e1 \<noteq> EVolume v" "key_ok e1 = key_ok e" "entity_fits e \<Longrightarrow> entity_fits e1" "db_Validate c (stored e1) = Ok (stored e1)"
proof -
  have "(\<forall>v. e1 \<noteq> EVolume v) \<and> key_ok e1 = key_ok e \<and> (entity_fits e \<longrightarrow> entity_fits e1) \<and> db_Validate c (stored e1) = Ok (stored e1)"
  proof (cases e)
    case (EPolicy p)
    then obtain p' where p': "db_Policy_Validate c p = Ok p'" "e1 = EPolicy p'"
      using assms(1) by (auto split: outcome.splits)
    note o = db_Policy_Validate_OkE [OF p'(1)]
    have "smap_fits (dp_filesystems p) \<Longrightarrow> smap_fits (dp_filesystems p')"
    proof -
      assume f: "smap_fits (dp_filesystems p)"
      have "smap_ok defaultFilesystems" by (simp add: defaultFilesystems_def smap_ok_def)
      then show ?thesis using p'(1) f by (auto simp: db_Policy_Validate_runs Let_def defaults_same smap_fits_def split: if_splits)
    qed
    moreover have "db_Policy_Validate c (p'\<lparr>dp_runtime := unnamed (dp_runtime p')\<rparr>) = Ok (p'\<lparr>dp_runtime := unnamed (dp_runtime p')\<rparr>)"
      using db_Policy_again [OF p'(1)] o by (auto simp: policy_as_config_def unnamed_def split: option.splits)
    ultimately show ?thesis using EPolicy p'(2) o by simp
  next
    case (EGlobal g)
    then have e1: "e1 = EGlobal (db_Global_Validate g)" using assms(1) by simp
    have "db_Global_Validate (db_Global_Validate g) = db_Global_Validate g"
      by (simp add: db_Global_Validate_def global_defs DefaultMountPath_def)
    moreover have "global_fits g \<Longrightarrow> global_fits (db_Global_Validate g)"
      by (simp add: db_Global_Validate_def global_fits_def global_defs int64_def)
    ultimately show ?thesis using EGlobal e1 by simp
  next
    case (ERuntime r)
    then have "e1 = e" "db_Validate c e = Ok e" using assms(1) runtime_stays(3) by auto
    then show ?thesis using ERuntime by simp
  next
    case (EVolume v)
    then show ?thesis using assms(2) by simp
  qed
  then show "\<forall>v. e1 \<noteq> EVolume v" "key_ok e1 = key_ok e" "entity_fits e \<Longrightarrow> entity_fits e1" "db_Validate c (stored e1) = Ok (stored e1)"
    by blast+
qed

text \<open>An entity that is no volume is one key; a new volume is two.\<close>

lemma plain_entity_got:
  assumes "db_store c fval free" "\<not> has_prefix slash (c_prefix c)" "key_ok e" "entity_fits e"
    and False: "\<not> (\<exists>v. e = EVolume v)" and "db_Set c e w = (Ok e', w1)"
  shows "\<exists>w2. db_Get c (blank e') w1 = (Ok (returned e'), w2) \<and> fval w2 = fval w1"
proof -
  obtain e1 where e1: "db_Validate c e = Ok e1"
    using assms(6) by (auto simp: client_ties entity_set_def elim!: andThen_OkE)
  note v = validated_entity [OF e1 False [simplified]]
  have "e' = e1" "fval w1 = (fval w)(entity_key c e1 \<mapsto> Write e1)"
    using db_store.set_writes [OF assms(1) v(1) e1 _ assms(6) [unfolded client_ties]] v(2) assms(3) by simp_all
  then have w1: "fval w1 (entity_key c (blank e')) = Some (Write e')" and e': "e' = e1" by simp_all
  have "key_ok (blank e')" "key_ok (stored e')" using v(2) assms(3) e' by simp_all
  from db_store.get_reads [OF assms(1,2) this(1) w1 Read_Write, of "db_client c"] v(3) assms(4) e'
  obtain w2 where w2: "fval w2 = fval w1" "entity_get c (db_client c) (blank e') w1 =
      andThen (lift (db_SetKey (stored e') (entity_path (stored e'))))
        (\<lambda>e2. andThen (run_hook (PostGet (db_Hooks_of e2)) (db_client c) e2) (\<lambda>e3. lift (db_Validate c e3))) w2"
    by auto
  moreover have "db_SetKey (stored e') (entity_path (stored e')) = Ok (stored e')"
    using SetKey_path [OF \<open>key_ok (stored e')\<close>] v(1) unfolding e' by (cases e1) simp_all
  moreover have "(PostGet (db_Hooks_of (stored e')) :: 'a hook option) = None" "returned e' = stored e'" unfolding e' using v(1) by (cases e1; simp)+
  ultimately show ?thesis using v(4) e' by (simp add: client_ties)
qed

lemma new_volume_got:
  assumes "db_store c fval free" "\<not> has_prefix slash (c_prefix c)" "key_ok e" "entity_fits e"
    and "e = EVolume v" "fval w (entity_key c e) = None" "db_Set c e w = (Ok e', w1)"
  shows "\<exists>w2. db_Get c (blank e') w1 = (Ok (returned e'), w2) \<and> fval w2 = fval w1"
proof -
  note v = assms(5)
  obtain r where r: "dv_runtime v = Some r" and e': "e' = EVolume (v\<lparr>dv_runtime := Some (named_for v r)\<rparr>)"
    and va: "db_Volume_Validate c v = Ok ()" "runtime_ok (exported r)"
    and w1: "fval w1 = (fval w)(entity_key c (ERuntime (named_for v r)) \<mapsto> Write (ERuntime (named_for v r)), entity_key c e' \<mapsto> Write e')"
    by (rule db_store.set_volume_writes [OF assms(1), of v w e' w1]) (use assms(3,6,7) v in auto)
  let ?v = "v\<lparr>dv_runtime := Some (named_for v r)\<rparr>" and ?k = "db_client c"
  have ko: "key_ok (blank e')" "key_ok (ERuntime (named_for v r))" "key_ok (stored e')"
    using assms(3) v e' by (simp_all add: named_for_def NewVolume_def)
  have fits: "entity_fits e'" using assms(4) v e' r by (simp add: ptr_fits_def named_for_def)
  have key: "fval w1 (entity_key c (blank e')) = Some (Write e')" unfolding blank_key using w1 by simp
  have rkey: "fval w1 (entity_key c (ERuntime (named_for v r))) = Some (Write (ERuntime (named_for v r)))"
    using w1 runtime_key_apart [of c "named_for v r"] by (simp add: e')
  obtain w2 where w2: "fval w2 = fval w1" and g: "entity_get c ?k (blank e') w1 =
      andThen (lift (db_SetKey (stored e') (entity_path (stored e'))))
        (\<lambda>e2. andThen (run_hook (PostGet (db_Hooks_of e2)) ?k e2) (\<lambda>e3. lift (db_Validate c e3))) w2"
    using db_store.get_reads [OF assms(1,2) ko(1) key Read_Write [OF fits], of ?k] by auto
  let ?r0 = "ro_named (dv_policy v) (dv_name v) (exported r)"
  have sk: "db_SetKey (stored e') (entity_path (stored e')) = Ok (EVolume (v\<lparr>dv_runtime := Some ?r0\<rparr>))"
    unfolding SetKey_path [OF ko(3)] by (simp add: e' unnamed_def named_for_def)
  have "runtime_fits (exported (named_for v r))" "runtime_ok (exported (named_for v r))"
    using fits va(2) e' by (simp_all add: ptr_fits_def named_for_def)
  from db_store.runtime_got [OF assms(1,2) ko(2) this, of w2 "named_for (v\<lparr>dv_runtime := Some ?r0\<rparr>) ?r0" ?k] rkey w2
  obtain w3 where w3: "entity_get c ?k (ERuntime (named_for (v\<lparr>dv_runtime := Some ?r0\<rparr>) ?r0)) w2 = (Ok (ERuntime (named_for v r)), w3)"
      "fval w3 = fval w1"
    by (auto simp: named_for_def)
  have "cl_Get ?k = entity_get c ?k" using client_ties(1) [of c] by (simp add: db_Get_def)
  then have "postGetHook ?k (EVolume (v\<lparr>dv_runtime := Some ?r0\<rparr>)) w2 = (Ok e', w3)"
    using w3(1) by (simp add: on_runtime_def e')
  moreover have "db_Volume_Validate c ?v = Ok ()"
    using va(1) by (simp add: db_Volume_Validate_iff as_config_def)
  ultimately show ?thesis using g sk w3(2) by (simp add: client_ties run_hook_def e' with_obj_def)
qed


definition db_silver :: db_Volume where
  "db_silver = \<lparr>dv_policy = ''gold'', dv_name = ''db1'', dv_unlocked = False, dv_driver = Some [(''pool'', ''rbd'')],
     dv_mount = ''host:/export'', dv_create = \<lparr>co_size = ''10000000'', co_filesystem = ''ext4''\<rparr>,
     dv_runtime = Some (NewRuntimeOptions [] []),
     dv_backends = Some \<lparr>bd_crud = [], bd_mount = ''nfs'', bd_snapshot = []\<rparr>\<rparr>"

lemma db_silver_set:
  "fst (db_Set (db_host 1 ''volplugin'') (EVolume db_silver) machine_start) =
     Ok (EVolume (db_silver\<lparr>dv_runtime := Some (NewRuntimeOptions ''gold'' ''db1'')\<rparr>))"
  by code_simp


end
