(* ===== verification/Db_Limits.thy ===== *)
theory Db_Limits imports Db_Props begin

text \<open>
  Where the client of package \<open>db\<close> parts from what it means to do: the prefix the daemons use, a volume's record
  that does not decode, the options of a request; the listing of policies, and the table of watches.
\<close>

section \<open>The default prefix\<close>

lemma slash_prefix_key:
  assumes "c_prefix c = ''/volplugin''" "k = db_qualified c p \<or> k = slash @ db_qualified c p" "p \<noteq> []" "last p \<noteq> CHR ''/''"
  shows "trimPath c k = ''volplugin/'' @ p"
proof -
  have id: "trim_slashes (''volplugin/'' @ p) = ''volplugin/'' @ p"
    by (rule trim_slashes_id) (use assms(3,4) in auto)
  have q: "db_qualified c p = slash @ ''volplugin/'' @ p" using assms(1) by (simp add: db_qualified_def)
  have "trim_slashes k = ''volplugin/'' @ p"
    using assms(2) unfolding q by (elim disjE) (simp_all only: trim_slashes_front id)
  then show ?thesis using assms(1) id by (simp add: trimPath_def trim_prefix_def has_prefix_def)
qed

lemma foreign_keys:
  assumes "name_valid a" "name_valid b"
  shows "\<exists>e. db_Policy_SetKey p (''volplugin/'' @ db_rootPolicy @ slash @ a) = Err e"
    "\<exists>e v'. db_Volume_SetKey v (''volplugin/'' @ db_rootVolume @ slash @ a @ slash @ b) = Err (e, v')"
    "\<exists>e. Runtime_SetKey r (''volplugin/'' @ rootRuntimeOptions @ slash @ a @ slash @ b) = Err e"
proof -
  have t: "trim_slashes (''volplugin/'' @ s @ slash @ x) = ''volplugin/'' @ s @ slash @ x" if "name_valid x" for s x
    by (rule trim_slashes_id) (use name_valid_ends [OF that] in auto)
  have ab: "trim_slashes (''volplugin/'' @ s @ slash @ a @ slash @ b) = ''volplugin/'' @ s @ slash @ a @ slash @ b" for s
    using t [OF assms(2), of "s @ slash @ a"] by simp
  have sp: "split_on CHR ''/'' (a @ CHR ''/'' # b) = [a, b]"
    using name_valid_ends [OF assms(1)] name_valid_ends [OF assms(2)] by (simp add: split_on_append split_on_no_sep)
  show "\<exists>e. db_Policy_SetKey p (''volplugin/'' @ db_rootPolicy @ slash @ a) = Err e"
    using t [OF assms(1), of db_rootPolicy] by (simp add: db_Policy_SetKey_def db_roots trim_prefix_def has_prefix_def Let_def)
  show "\<exists>e v'. db_Volume_SetKey v (''volplugin/'' @ db_rootVolume @ slash @ a @ slash @ b) = Err (e, v')"
    using ab [of db_rootVolume] sp
    by (simp add: db_Volume_SetKey_def db_roots trim_prefix_def has_prefix_def Let_def two_parts_def)
  show "\<exists>e. Runtime_SetKey r (''volplugin/'' @ rootRuntimeOptions @ slash @ a @ slash @ b) = Err e"
    using ab [of rootRuntimeOptions] sp
    by (simp add: Runtime_SetKey_def runtime_parts_def db_roots trim_prefix_def has_prefix_def two_parts_def)
qed

lemma Read_kind:
  assumes "Read e b = Ok x"
  shows "(\<exists>p. e = EPolicy p) = (\<exists>p. x = EPolicy p)" "(\<exists>v. e = EVolume v) = (\<exists>v. x = EVolume v)"
    "(\<exists>r. e = ERuntime r) = (\<exists>r. x = ERuntime r)" "(\<exists>g. e = EGlobal g) = (\<exists>g. x = EGlobal g)"
  using assms by (cases e; auto simp: Read_def split: outcome.splits elim!: bind_res_OkE)+

text \<open>
  C39. Under the prefix of the installation (\<open>/volplugin\<close>) no policy, volume or runtime options can be got: the
  prefix is looked for in a key whose leading slash is gone, so it stays and \<open>SetKey\<close> refuses the key.
\<close>

theorem slash_prefix_unreadable:
  assumes "db_store c fval free" "c_prefix c = ''/volplugin''" "key_ok e" "\<forall>g. e \<noteq> EGlobal g"
  shows "\<forall>e'. fst (db_Get c e w) \<noteq> Ok e'"
proof (intro allI notI)
  fix e' assume "fst (db_Get c e w) = Ok e'"
  then obtain w' where "entity_get c (db_client c) e w = (Ok e', w')" unfolding client_ties by (metis prod.collapse)
  then obtain n w1 w2 x y where g: "kv_get c (db_qualified c (entity_path e)) get_nil w = (Ok n, w1)"
      and x: "Read e (n_value n) = Ok x" and y: "db_SetKey x (trimPath c (n_key n)) = Ok y"
    by (auto simp: entity_get_def entity_path_ok(1) [OF assms(3)] with_obj_def [of _ "Ok _"] elim!: andThen_OkE attempt_OkE)
  have "n_key n = db_qualified c (entity_path e) \<or> n_key n = slash @ db_qualified c (entity_path e)"
    by (rule db_store.get_key [OF assms(1) g])
  then have k: "trimPath c (n_key n) = ''volplugin/'' @ entity_path e"
    using slash_prefix_key [OF assms(2)] entity_path_ok [OF assms(3)] by blast
  show False
  proof (cases e)
    case (EPolicy p)
    then obtain p' where "x = EPolicy p'" using Read_kind(1) [OF x] by blast
    then show False using y k foreign_keys(1) [of "dp_name p" "dp_name p" p'] assms(3) EPolicy by (auto simp: with_obj_def)
  next
    case (EVolume v)
    then obtain v' where "x = EVolume v'" using Read_kind(2) [OF x] by blast
    then show False using y k foreign_keys(2) [of "dv_policy v" "dv_name v" v'] assms(3) EVolume by auto
  next
    case (ERuntime r)
    then obtain r' where "x = ERuntime r'" using Read_kind(3) [OF x] by blast
    then show False using y k foreign_keys(3) [of "ro_policyName r" "ro_volumeName r" r'] assms(3) ERuntime by (auto simp: with_obj_def)
  next
    case (EGlobal g)
    then show False using assms(4) by blast
  qed
qed

text \<open>A policy that was set under the prefix cannot be got, while its record is there.\<close>

theorem slash_prefix_unreadable_witness:
  "fst (db_Set (db_host 1 ''/volplugin'') (EPolicy db_gold) machine_start) = Ok (EPolicy db_gold_filled) \<and>
   (\<forall>e'. fst (db_Get (db_host 1 ''/volplugin'') (EPolicy (db_NewPolicy ''gold''))
     (snd (db_Set (db_host 1 ''/volplugin'') (EPolicy db_gold) machine_start))) \<noteq> Ok e')"
proof
  show "fst (db_Set (db_host 1 ''/volplugin'') (EPolicy db_gold) machine_start) = Ok (EPolicy db_gold_filled)"
    by code_simp
  have "c_prefix (db_host 1 ''/volplugin'') = ''/volplugin''" by (simp add: db_host_def)
  moreover have "key_ok (EPolicy (db_NewPolicy ''gold''))" by code_simp
  ultimately show "\<forall>e'. fst (db_Get (db_host 1 ''/volplugin'') (EPolicy (db_NewPolicy ''gold''))
     (snd (db_Set (db_host 1 ''/volplugin'') (EPolicy db_gold) machine_start))) \<noteq> Ok e'"
    by (rule slash_prefix_unreadable [OF db_memory.db_store_axioms]) simp
qed

section \<open>Listing\<close>

fun node_leaves :: "node \<Rightarrow> (string \<times> string) list"
  and nodes_leaves :: "node list \<Rightarrow> (string \<times> string) list" where
  "node_leaves (Node key d value ns) = (if d then nodes_leaves ns else [(key, value)])"
| "nodes_leaves [] = []"
| "nodes_leaves (n # ns) = node_leaves n @ nodes_leaves ns"

text \<open>The policy a leaf holds, if its text decodes and its key is a policy's.\<close>

definition policy_at :: "('w, 'z) client_scheme \<Rightarrow> db_Policy \<Rightarrow> string \<times> string \<Rightarrow> entity option" where
  "policy_at c p l =
     (case Read (EPolicy p) (snd l) of
        Ok x \<Rightarrow> (case db_SetKey x (trimPath c (fst l)) of Ok y \<Rightarrow> Some y | _ \<Rightarrow> None)
      | _ \<Rightarrow> None)"

lemma policy_SetKey_returns: "\<exists>y. db_SetKey (EPolicy p) key = Ok (EPolicy y) \<or> (\<exists>e. db_SetKey (EPolicy p) key = Err (e, EPolicy y))"
  by (auto simp: with_obj_def db_Policy_SetKey_def Let_def)

lemma policy_leaf:
  "traverse_leaf c (EPolicy p) key value w = (Ok (case policy_at c p (key, value) of None \<Rightarrow> [] | Some y \<Rightarrow> [y]), w)"
proof (cases "Read (EPolicy p) value")
  case (Ok x)
  then obtain q where x: "x = EPolicy q" using Read_kind(1) [OF Ok] by blast
  from policy_SetKey_returns [of q "trimPath c key"] show ?thesis
  proof (elim exE disjE)
    fix y assume "db_SetKey (EPolicy q) (trimPath c key) = Ok (EPolicy y)"
    then show ?thesis using Ok x by (simp add: traverse_leaf_def policy_at_def db_Copy_def del: db_SetKey.simps)
  next
    fix y e assume "db_SetKey (EPolicy q) (trimPath c key) = Err (e, EPolicy y)"
    then show ?thesis using Ok x by (simp add: traverse_leaf_def policy_at_def db_Copy_def del: db_SetKey.simps)
  qed
next
  case (Err e)
  from policy_SetKey_returns [of p "trimPath c key"] show ?thesis
  proof (elim exE disjE)
    fix y assume "db_SetKey (EPolicy p) (trimPath c key) = Ok (EPolicy y)"
    then show ?thesis using Err by (simp add: traverse_leaf_def policy_at_def db_Copy_def del: db_SetKey.simps)
  next
    fix y e' assume "db_SetKey (EPolicy p) (trimPath c key) = Err (e', EPolicy y)"
    then show ?thesis using Err by (simp add: traverse_leaf_def policy_at_def db_Copy_def del: db_SetKey.simps)
  qed
qed (auto simp: Read_def unmarshal_def bind_res_def split: outcome.splits option.splits)

lemma map_filter_append: "List.map_filter f (xs @ ys) = List.map_filter f xs @ List.map_filter f ys"
  by (simp add: List.map_filter_def)

lemma in_map_filter: "x \<in> set xs \<Longrightarrow> f x = Some y \<Longrightarrow> y \<in> set (List.map_filter f xs)"
  by (force simp: List.map_filter_def)

lemma traverse_policies:
  "traverse c (EPolicy p) t w = (Ok (List.map_filter (policy_at c p) (node_leaves t)), w)"
  "traverse_all c (EPolicy p) ns w = (Ok (List.map_filter (policy_at c p) (nodes_leaves ns)), w)"
  by (induction t and ns rule: node_leaves_nodes_leaves.induct)
    (auto simp: policy_leaf map_filter_append List.map_filter_simps split: option.splits)

lemma listed_policy:
  assumes "\<not> has_prefix slash (c_prefix c)" "key_ok (EPolicy q)" "entity_fits (EPolicy q)"
  shows "policy_at c (db_NewPolicy a) (slash @ entity_key c (EPolicy q), Write (EPolicy q)) = Some (stored (EPolicy q))"
proof -
  have "unmarshal db_policy_fields (Write (EPolicy q)) (db_NewPolicy a) = Ok (q\<lparr>dp_runtime := unnamed (dp_runtime q)\<rparr>)"
    unfolding Write_def
    by (rule unmarshal_render) (use wf_db_json [of "EPolicy q"] fill_db_policy [OF assms(3), of a] in simp_all)
  then have r: "Read (EPolicy (db_NewPolicy a)) (Write (EPolicy q)) = Ok (stored (EPolicy q))" by (simp add: Read_def)
  have "trimPath c (slash @ entity_key c (EPolicy q)) = entity_path (EPolicy q)"
    by (rule trimPath_key [OF assms(1) _ entity_path_ok(2-4) [OF assms(2)]]) (simp add: entity_key_def)
  moreover have "db_SetKey (stored (EPolicy q)) (entity_path (EPolicy q)) = Ok (stored (EPolicy q))"
    using SetKey_path [of "stored (EPolicy q)"] assms(2) by simp
  ultimately show ?thesis by (simp add: policy_at_def r del: stored.simps db_SetKey.simps entity_path.simps)
qed

text \<open>
  Listing policies yields, in the order of the tree, the policy of every record that decodes below a policy's key, and
  leaves out the others: no bad record is an error, nor does one hide another; and a policy that was set is in the list.
\<close>

theorem policies_listed:
  assumes "\<not> has_prefix slash (c_prefix c)" "key_ok (EPolicy q)" "entity_fits (EPolicy q)"
    and "(slash @ entity_key c (EPolicy q), Write (EPolicy q)) \<in> set (node_leaves t)"
  shows "traverse c (EPolicy (db_NewPolicy [])) t w =
      (Ok (List.map_filter (policy_at c (db_NewPolicy [])) (node_leaves t)), w) \<and>
    stored (EPolicy q) \<in> set (List.map_filter (policy_at c (db_NewPolicy [])) (node_leaves t))"
  by (intro conjI traverse_policies(1) in_map_filter [OF assms(4)] listed_policy [OF assms(1-3)])

theorem policies_listed_witness:
  "\<exists>ps. fst (traverse (db_host 1 ''volplugin'') (EPolicy (db_NewPolicy []))
      (Node ''/volplugin/policies'' True []
        [Node ''/volplugin/policies/bad'' False ''{'' [],
         Node ''/volplugin/policies/gold'' False (Write (EPolicy db_gold)) []]) machine_start) = Ok ps \<and>
    EPolicy db_gold \<in> set ps"
proof -
  let ?c = "db_host 1 ''volplugin''"
  let ?t = "Node ''/volplugin/policies'' True [] [Node ''/volplugin/policies/bad'' False ''{'' [],
    Node ''/volplugin/policies/gold'' False (Write (EPolicy db_gold)) []]"
  have "\<not> has_prefix slash (c_prefix ?c)" "key_ok (EPolicy db_gold)"
    by (simp_all add: db_host_def has_prefix_def db_gold_def db_NewPolicy_def name_valid_def)
  moreover have "entity_fits (EPolicy db_gold)"
    by (simp add: db_gold_def db_NewPolicy_def smap_fits_def ptr_fits_def NewRuntimeOptions_def runtime_fits_def zero_defs)
  moreover have "(slash @ entity_key ?c (EPolicy db_gold), Write (EPolicy db_gold)) \<in> set (node_leaves ?t)"
    by (simp add: entity_key_def db_qualified_def db_host_def db_gold_def db_NewPolicy_def db_roots)
  ultimately have l: "stored (EPolicy db_gold) \<in> set (List.map_filter (policy_at ?c (db_NewPolicy [])) (node_leaves ?t)) \<and>
      traverse ?c (EPolicy (db_NewPolicy [])) ?t machine_start = (Ok (List.map_filter (policy_at ?c (db_NewPolicy [])) (node_leaves ?t)), machine_start)"
    using policies_listed [of ?c db_gold ?t machine_start] by blast
  have "stored (EPolicy db_gold) = EPolicy db_gold"
    by (simp add: db_gold_def unnamed_def NewRuntimeOptions_def)
  then show ?thesis using l by (intro exI conjI) (rule conjunct2 [OF l, THEN arg_cong [where f = fst], simplified fst_conv], simp)
qed

text \<open>The same for volumes: a leaf that does not decode while the entity has no runtime options.\<close>

lemma bad_leaf_panics:
  assumes "dv_runtime v = None" "Read (EVolume v) value = Err e"
    and "trimPath c key = db_rootVolume @ slash @ a @ slash @ b" "name_valid a" "name_valid b" "\<not> has_prefix rootRuntimeOptions a"
  shows "traverse_leaf c (EVolume v) key value w = (Panic nil_deref, w)"
  using Volume_SetKey_key [OF assms(4-6), of v] assms(1-3) by (simp add: traverse_leaf_def db_Copy_def attempt_Panic)

lemma leaf_in_tree:
  assumes "\<forall>w. \<forall>es. fst (traverse_leaf c obj key value w) \<noteq> Ok es"
  shows "(key, value) \<in> set (node_leaves t) \<Longrightarrow> fst (traverse c obj t w) \<noteq> Ok es"
    and "(key, value) \<in> set (nodes_leaves ns) \<Longrightarrow> fst (traverse_all c obj ns w) \<noteq> Ok es"
proof (induction t and ns arbitrary: w es and w es rule: node_leaves_nodes_leaves.induct)
  case (1 k d v ns)
  then show ?case using assms by (auto split: if_splits)
next
  case (3 n ns)
  show ?case
  proof
    assume "fst (traverse_all c obj (n # ns) w) = Ok es"
    then have "traverse_all c obj (n # ns) w = (Ok es, snd (traverse_all c obj (n # ns) w))" by (metis prod.collapse)
    then obtain es1 w1 es2 w2 where "traverse c obj n w = (Ok es1, w1)" "traverse_all c obj ns w1 = (Ok es2, w2)"
      by (auto elim!: andThen_OkE)
    then show False using 3 by (metis Un_iff fst_conv nodes_leaves.simps(2) set_append)
  qed
qed simp



section \<open>The table of watches\<close>

text \<open>What a program asks of the watches, one request after the other; a refused request changes nothing.\<close>

datatype watch_request = WatchOf entity | StopOf entity | WatchBelow entity | StopBelow entity

fun serve_watch :: "watch_request \<Rightarrow> watches \<Rightarrow> watches res" where
  "serve_watch (WatchOf obj) s = bind_res (db_Watch obj s) (\<lambda>(r, s'). Ok s')"
| "serve_watch (StopOf obj) s = db_WatchStop obj s"
| "serve_watch (WatchBelow obj) s = bind_res (WatchPrefix obj s) (\<lambda>(i, s'). Ok s')"
| "serve_watch (StopBelow obj) s = WatchPrefixStop obj s"

inductive watch_reach :: "watches \<Rightarrow> bool" where
  start: "watch_reach no_watches"
| served: "watch_reach s \<Longrightarrow> serve_watch r s = Ok s' \<Longrightarrow> watch_reach s'"

text \<open>The open channels are those of the table, each under one path.\<close>

definition watches_ok :: "watches \<Rightarrow> bool" where
  "watches_ok s \<longleftrightarrow> (\<forall>i. i \<in> ws_open s \<longleftrightarrow> (\<exists>p. ws_watchers s p = Some i)) \<and> (\<forall>i \<in> ws_open s. i < ws_made s) \<and>
     (\<forall>p q i. ws_watchers s p = Some i \<longrightarrow> ws_watchers s q = Some i \<longrightarrow> p = q)"

lemma watches_okD:
  assumes "watches_ok s" "ws_watchers s p = Some i"
  shows "i \<in> ws_open s" "i < ws_made s" "ws_watchers s q = Some i \<Longrightarrow> q = p"
  using assms by (auto simp: watches_ok_def)

lemma open_watched: "watches_ok s \<Longrightarrow> i \<in> ws_open s \<Longrightarrow> \<exists>p. ws_watchers s p = Some i"
  by (simp add: watches_ok_def)

text \<open>The table after a new channel, and after one was closed.\<close>

lemma table_put:
  assumes ok: "watches_ok s" and o: "ws_open s' = insert (ws_made s) (ws_open s) - (case ws_watchers s p of None \<Rightarrow> {} | Some j \<Rightarrow> {j})"
    and t: "ws_watchers s' = (ws_watchers s)(p \<mapsto> ws_made s)" and m: "ws_made s' = ws_made s + 1"
  shows "watches_ok s'"
proof -
  have fresh: "ws_watchers s q \<noteq> Some (ws_made s)" for q using watches_okD(2) [OF ok, of q] by blast
  have "(i \<in> ws_open s') = (\<exists>q. ws_watchers s' q = Some i)" for i
  proof
    assume i: "i \<in> ws_open s'"
    show "\<exists>q. ws_watchers s' q = Some i"
    proof (cases "i = ws_made s")
      case True
      then show ?thesis using t by (intro exI [of _ p]) simp
    next
      case False
      then obtain q where q: "ws_watchers s q = Some i" using i o open_watched [OF ok] by auto
      then have "q \<noteq> p" using i o by auto
      then show ?thesis using q t by (intro exI [of _ q]) simp
    qed
  next
    assume "\<exists>q. ws_watchers s' q = Some i"
    then obtain q where q: "ws_watchers s' q = Some i" ..
    show "i \<in> ws_open s'"
    proof (cases "q = p")
      case True
      then show ?thesis using q t o fresh [of p] by (auto split: option.splits)
    next
      case False
      then have w: "ws_watchers s q = Some i" using q t by simp
      then have "ws_watchers s p \<noteq> Some i" using watches_okD(3) [OF ok w] False by blast
      then show ?thesis using o watches_okD(1) [OF ok w] by (auto split: option.splits)
    qed
  qed
  moreover have "i < ws_made s'" if "i \<in> ws_open s'" for i
    using that o m ok by (auto simp: watches_ok_def less_Suc_eq split: option.splits)
  moreover have "q = r" if q: "ws_watchers s' q = Some i" and r: "ws_watchers s' r = Some i" for q r i
  proof (cases "i = ws_made s")
    case True
    then show ?thesis using q r t fresh by (metis fun_upd_other)
  next
    case False
    then have "ws_watchers s q = Some i" "ws_watchers s r = Some i" using q r t by (auto split: if_splits)
    then show ?thesis using watches_okD(3) [OF ok] by blast
  qed
  ultimately show ?thesis unfolding watches_ok_def by blast
qed

lemma table_drop:
  assumes ok: "watches_ok s" and i: "ws_watchers s p = Some i" and o: "ws_open s' = ws_open s - {i}"
    and t: "ws_watchers s' = (ws_watchers s)(p := None)" and m: "ws_made s' = ws_made s"
  shows "watches_ok s'"
proof -
  have "(j \<in> ws_open s') = (\<exists>q. ws_watchers s' q = Some j)" for j
  proof
    assume j: "j \<in> ws_open s'"
    then have ji: "j \<in> ws_open s" "j \<noteq> i" unfolding o by simp_all
    then obtain q where q: "ws_watchers s q = Some j" using open_watched [OF ok] by blast
    then have "q \<noteq> p" using ji(2) i by force
    then show "\<exists>q. ws_watchers s' q = Some j" using q t by (intro exI [of _ q]) simp
  next
    assume "\<exists>q. ws_watchers s' q = Some j"
    then obtain q where q: "ws_watchers s q = Some j" "q \<noteq> p" using t by (auto split: if_splits)
    then have "j \<noteq> i" using watches_okD(3) [OF ok i] by blast
    then show "j \<in> ws_open s'" using o watches_okD(1) [OF ok q(1)] by simp
  qed
  moreover have "j < ws_made s'" if "j \<in> ws_open s'" for j using that o m ok by (auto simp: watches_ok_def)
  moreover have "q = r" if "ws_watchers s' q = Some j" "ws_watchers s' r = Some j" for q r j
  proof -
    have "ws_watchers s q = Some j" "ws_watchers s r = Some j" using that t by (auto split: if_splits)
    then show ?thesis using watches_okD(3) [OF ok] by blast
  qed
  ultimately show ?thesis unfolding watches_ok_def by blast
qed

lemma watchPath_runs:
  assumes "watches_ok s"
  shows "\<exists>s'. watchPath p s = Ok (ws_made s, s') \<and> watches_ok s' \<and> ws_watchers s' = (ws_watchers s)(p \<mapsto> ws_made s)"
proof -
  let ?i = "ws_made s"
  let ?o = "insert ?i (ws_open s) - (case ws_watchers s p of None \<Rightarrow> {} | Some j \<Rightarrow> {j})"
  let ?s = "\<lparr>ws_watchers = (ws_watchers s)(p \<mapsto> ?i), ws_open = ?o, ws_made = ?i + 1\<rparr>"
  have "watchPath p s = Ok (?i, ?s)"
  proof (cases "ws_watchers s p")
    case (Some j)
    then show ?thesis using watches_okD(1) [OF assms Some] by (cases s) (simp add: watchPath_def Let_def close_chan_def)
  qed (cases s, simp add: watchPath_def Let_def)
  moreover have "watches_ok ?s" by (rule table_put [OF assms, of _ p]) simp_all
  ultimately show ?thesis by (intro exI [of _ ?s]) simp
qed

lemma watchStop_runs:
  assumes "watches_ok s"
  shows "ws_watchers s p = None \<and> watchStopPath p s = Err (Combine InvalidDBPath (Fresh ''missing key during watch'')) \<or>
    (\<exists>i s'. ws_watchers s p = Some i \<and> watchStopPath p s = Ok s' \<and> watches_ok s' \<and> ws_watchers s' = (ws_watchers s)(p := None) \<and>
       ws_open s' = ws_open s - {i})"
proof (cases "ws_watchers s p")
  case (Some i)
  let ?s = "s\<lparr>ws_open := ws_open s - {i}, ws_watchers := (ws_watchers s)(p := None)\<rparr>"
  have "watchStopPath p s = Ok ?s" using Some watches_okD(1) [OF assms Some] by (cases s) (simp add: watchStopPath_def close_chan_def)
  moreover have "watches_ok ?s" by (rule table_drop [OF assms Some]) simp_all
  ultimately show ?thesis using Some by auto
qed (simp add: watchStopPath_def)

lemma serve_watch_ok:
  assumes "watches_ok s" "serve_watch r s = Ok s'"
  shows "watches_ok s'"
proof -
  have w: "watchPath p s = Ok (i, s') \<Longrightarrow> watches_ok s'" for p i
    using watchPath_runs [OF assms(1), of p] by auto
  have st: "watchStopPath p s = Ok s' \<Longrightarrow> watches_ok s'" for p using watchStop_runs [OF assms(1), of p] by auto
  show ?thesis
  proof (cases r)
    case (WatchOf obj)
    then show ?thesis using assms w
      by (cases "db_Path obj") (auto simp: db_Watch_def elim!: bind_res_OkE)
  qed (use assms w st in \<open>auto simp: db_WatchStop_def WatchPrefix_def WatchPrefixStop_def elim!: bind_res_OkE\<close>)
qed

lemma watch_reach_ok: "watch_reach s \<Longrightarrow> watches_ok s"
proof (induction rule: watch_reach.induct)
  case start
  then show ?case by (simp add: watches_ok_def no_watches_def)
next
  case (served s r s')
  then show ?case using serve_watch_ok by blast
qed

text \<open>
  C37. Whatever watches are started and stopped in whatever order, the channels not closed are exactly those in the table, one
  for each path, so that one goroutine at most watches a path; no channel is closed twice: starting a watch never fails, and
  stopping one either ends it or is refused because the path is not watched.
\<close>

theorem watches_consistent:
  assumes "watch_reach s"
  shows "(\<forall>i. i \<in> ws_open s \<longleftrightarrow> (\<exists>!p. ws_watchers s p = Some i)) \<and>
    (\<exists>i s'. watchPath p s = Ok (i, s') \<and> i \<notin> ws_open s \<and> ws_watchers s' = (ws_watchers s)(p \<mapsto> i)) \<and>
    (if ws_watchers s p = None then \<exists>e. watchStopPath p s = Err e
     else \<exists>s'. watchStopPath p s = Ok s' \<and> ws_open s' = ws_open s - {the (ws_watchers s p)} \<and> ws_watchers s' = (ws_watchers s)(p := None))"
proof (intro conjI)
  note ok = watch_reach_ok [OF assms]
  show "\<forall>i. i \<in> ws_open s \<longleftrightarrow> (\<exists>!p. ws_watchers s p = Some i)"
    using open_watched [OF ok] watches_okD(1,3) [OF ok] by blast
  have "ws_made s \<notin> ws_open s" using ok by (auto simp: watches_ok_def)
  then show "\<exists>i s'. watchPath p s = Ok (i, s') \<and> i \<notin> ws_open s \<and> ws_watchers s' = (ws_watchers s)(p \<mapsto> i)"
    using watchPath_runs [OF ok, of p] by blast
  show "if ws_watchers s p = None then \<exists>e. watchStopPath p s = Err e
     else \<exists>s'. watchStopPath p s = Ok s' \<and> ws_open s' = ws_open s - {the (ws_watchers s p)} \<and> ws_watchers s' = (ws_watchers s)(p := None)"
    using watchStop_runs [OF ok, of p] by auto
qed

text \<open>A second watch of the volumes replaces the first.\<close>

theorem watches_consistent_witness:
  "\<exists>s. watch_reach s \<and> ws_watchers s ''volumes'' = Some 1 \<and> ws_open s = {1} \<and> 0 \<notin> ws_open s \<and>
     (\<exists>s'. watchStopPath ''volumes'' s = Ok s' \<and> ws_open s' = {})"
proof -
  let ?v = "WatchBelow (EVolume (NewVolume [] []))"
  let ?s1 = "\<lparr>ws_watchers = [''volumes'' \<mapsto> 0], ws_open = {0}, ws_made = 1\<rparr>"
  let ?s2 = "\<lparr>ws_watchers = [''volumes'' \<mapsto> 1], ws_open = {1}, ws_made = 2\<rparr>"
  have "serve_watch ?v no_watches = Ok ?s1"
    by (simp add: WatchPrefix_def watchPath_def no_watches_def db_rootVolume_def Let_def)
  moreover have "serve_watch ?v ?s1 = Ok ?s2"
    by (simp add: WatchPrefix_def watchPath_def db_rootVolume_def Let_def close_chan_def insert_Diff_if)
  ultimately have r: "watch_reach ?s2" using watch_reach.intros by blast
  from watches_consistent [OF this, of "''volumes''"] have "\<exists>s'. watchStopPath ''volumes'' ?s2 = Ok s' \<and> ws_open s' = {}" by auto
  with r show ?thesis by (intro exI [of _ ?s2]) simp
qed

section \<open>The options of a request\<close>

text \<open>The options a policy of package \<open>db\<close> takes, and the policy with one of them set.\<close>

definition db_accepts :: "string \<Rightarrow> string \<Rightarrow> bool" where
  "db_accepts k v \<longleftrightarrow> k \<in> {[], ''size'', ''filesystem''} \<or> (k = ''unlocked'' \<and> parse_bool v \<noteq> None)"

fun db_option :: "string \<times> string \<Rightarrow> db_Policy \<Rightarrow> db_Policy" where
  "db_option (k, v) p =
     (if k = [] then p\<lparr>dp_name := v\<rparr>
      else if k = ''unlocked'' then p\<lparr>dp_unlocked := (case parse_bool v of None \<Rightarrow> dp_unlocked p | Some b \<Rightarrow> b)\<rparr>
      else if k = ''size'' then p\<lparr>dp_create := (dp_create p)\<lparr>co_size := v\<rparr>\<rparr>
      else if k = ''filesystem'' then p\<lparr>dp_create := (dp_create p)\<lparr>co_filesystem := v\<rparr>\<rparr>
      else p)"

lemma db_setKey:
  "setKey (db_policy_tree p) k v = Ok t \<longleftrightarrow> db_accepts k v \<and> t = db_policy_tree (db_option (k, v) p)"
  by (cases "parse_bool v")
    (auto simp: db_policy_tree_def create_tree_def in_field_def put_field_def cast_defs db_accepts_def split: if_splits)

lemma db_Opts:
  "Opts (db_policy_tree p) kvs = Ok t \<longleftrightarrow> (\<forall>(k, v) \<in> set kvs. db_accepts k v) \<and> t = db_policy_tree (fold db_option kvs p)"
proof (induction kvs arbitrary: p)
  case Nil
  then show ?case by auto
next
  case (Cons kv kvs)
  obtain k v where kv: "kv = (k, v)" by fastforce
  show ?case
  proof (cases "db_accepts k v")
    case True
    then have "setKey (db_policy_tree p) k v = Ok (db_policy_tree (db_option (k, v) p))" by (simp add: db_setKey)
    then show ?thesis using Cons.IH True unfolding kv by (simp del: db_option.simps)
  next
    case False
    then have "\<forall>t. setKey (db_policy_tree p) k v \<noteq> Ok t" by (simp add: db_setKey)
    then show ?thesis using False by (cases "setKey (db_policy_tree p) k v") (auto simp: kv)
  qed
qed

lemma db_policy_back: "db_policy_of_tree p (db_policy_tree q) = p\<lparr>dp_name := dp_name q, dp_unlocked := dp_unlocked q,
    dp_create := dp_create q, dp_backend := dp_backend q\<rparr>"
  by (simp add: db_policy_of_tree_def db_policy_tree_def create_tree_def r_at_def Let_def eval_nat_numeral)

lemma opt_val_Cons:
  "opt_val (map_of ((k, v) # kvs)) k' conv old =
     (if k' = k then (case conv v of None \<Rightarrow> old | Some x \<Rightarrow> x) else opt_val (map_of kvs) k' conv old)"
  by (simp add: opt_val_def)

lemma opt_val_absent: "k \<notin> fst ` set kvs \<Longrightarrow> opt_val (map_of kvs) k conv old = old"
  by (simp add: opt_val_def map_of_eq_None_iff [THEN iffD2])

lemma db_opt_val_step:
  "k \<notin> fst ` set kvs \<Longrightarrow>
   opt_val (map_of kvs) k' conv (if k = k' then (case conv v of None \<Rightarrow> old | Some x \<Rightarrow> x) else old) = opt_val (map_of ((k, v) # kvs)) k' conv old"
  using opt_val_absent [of k kvs] by (auto simp: opt_val_Cons simp del: map_of.simps)

lemma db_opt_val_step_Some:
  "k \<notin> fst ` set kvs \<Longrightarrow> opt_val (map_of kvs) k' Some (if k = k' then v else old) = opt_val (map_of ((k, v) # kvs)) k' Some old"
  using opt_val_absent [of k kvs] by (auto simp: opt_val_Cons simp del: map_of.simps)

lemma db_option_fields:
  "dp_name (db_option (k, v) p) = (if k = [] then v else dp_name p)"
  "dp_unlocked (db_option (k, v) p) = (if k = ''unlocked'' then (case parse_bool v of None \<Rightarrow> dp_unlocked p | Some b \<Rightarrow> b) else dp_unlocked p)"
  "co_size (dp_create (db_option (k, v) p)) = (if k = ''size'' then v else co_size (dp_create p))"
  "co_filesystem (dp_create (db_option (k, v) p)) = (if k = ''filesystem'' then v else co_filesystem (dp_create p))"
  "dp_backend (db_option (k, v) p) = dp_backend p"
  by simp_all

lemma fold_options:
  assumes "distinct (map fst kvs)"
  shows "dp_name (fold db_option kvs p) = opt_val (map_of kvs) [] Some (dp_name p) \<and>
    dp_unlocked (fold db_option kvs p) = opt_val (map_of kvs) ''unlocked'' parse_bool (dp_unlocked p) \<and>
    co_size (dp_create (fold db_option kvs p)) = opt_val (map_of kvs) ''size'' Some (co_size (dp_create p)) \<and>
    co_filesystem (dp_create (fold db_option kvs p)) = opt_val (map_of kvs) ''filesystem'' Some (co_filesystem (dp_create p)) \<and>
    dp_backend (fold db_option kvs p) = dp_backend p"
  using assms
proof (induction kvs arbitrary: p)
  case Nil
  then show ?case by (simp add: opt_val_def)
next
  case (Cons kv kvs)
  obtain k v where kv: "kv = (k, v)" by fastforce
  have d: "distinct (map fst kvs)" "k \<notin> fst ` set kvs" using Cons.prems kv by auto
  have step: "fold db_option ((k, v) # kvs) p = fold db_option kvs (db_option (k, v) p)" by (simp del: db_option.simps)
  show ?case using Cons.IH [OF d(1), of "db_option (k, v) p"]
    unfolding kv step db_option_fields db_opt_val_step [OF d(2)] db_opt_val_step_Some [OF d(2)] .
qed

definition db_merge_map :: "db_VolumeRequest \<Rightarrow> string \<Rightarrow> string option" where
  "db_merge_map vr = (case dr_options vr of None \<Rightarrow> Map.empty | Some m \<Rightarrow> (map_of m)(''mount'' := None))"

text \<open>What the validation completes in the merged policy.\<close>

lemma completed_policy:
  assumes "db_Policy_Validate c (if dp_driver p = None then p\<lparr>dp_driver := Some []\<rparr> else p) = Ok p'"
  shows "dp_name p' = dp_name p" "dp_unlocked p' = dp_unlocked p" "dp_create p' = dp_create p" "dp_runtime p' = dp_runtime p"
    "dp_driver p' \<noteq> None"
proof -
  let ?q = "if dp_driver p = None then p\<lparr>dp_driver := Some []\<rparr> else p"
  have "dp_name ?q = dp_name p" "dp_unlocked ?q = dp_unlocked p" "dp_create ?q = dp_create p" "dp_runtime ?q = dp_runtime p"
    "dp_driver ?q \<noteq> None" by simp_all
  moreover obtain q where "p' = completed ?q q" using assms unfolding db_Policy_Validate_iff by blast
  ultimately show "dp_name p' = dp_name p" "dp_unlocked p' = dp_unlocked p" "dp_create p' = dp_create p"
    "dp_runtime p' = dp_runtime p" "dp_driver p' \<noteq> None" by (simp_all add: completed_def)
qed


definition db_bronze :: db_VolumeRequest where
  "db_bronze = \<lparr>dr_name = ''db1'', dr_policy = Some db_gold,
     dr_options = Some [(''mount'', ''host:/export''), (''size'', ''20000000'')]\<rparr>"


section \<open>A volume that is there\<close>

text \<open>A get leaves the store as it is, hooks included.\<close>

context db_store begin

definition kept :: "('w, 'e, 'x) io \<Rightarrow> bool" where
  "kept m \<longleftrightarrow> keeps (\<lambda>w w'. fval w' = fval w) m"

lemma kept_attempt: "kept m \<Longrightarrow> (\<And>e. kept (h e)) \<Longrightarrow> (\<And>x. kept (f x)) \<Longrightarrow> kept (attempt m h f)"
  unfolding kept_def by (rule keeps_attempt) auto

lemma kept_simple: "kept (ret x)" "kept (fail e)" "kept (panic p)" "kept (lift r)" "kept (kv_get c p g)"
  using get_keeps by (auto simp: kept_def keeps_def) (metis prod.collapse)

lemma kept_andThen: "kept m \<Longrightarrow> (\<And>x. kept (f x)) \<Longrightarrow> kept (andThen m f)"
  unfolding andThen_def by (intro kept_attempt kept_simple)

lemma get_kept:
  assumes "\<And>e. kept (run_hook (PostGet (db_Hooks_of e)) k e)"
  shows "kept (entity_get c k e)"
  unfolding entity_get_def hooks_absent run_no_hook ret_andThen by (intro kept_andThen kept_attempt kept_simple assms)

lemma runtime_get_kept: "kept (entity_get c k (ERuntime r))"
proof -
  let ?k = "\<lparr>cl_Get = ret, cl_Set = ret, cl_Delete = ret\<rparr>"
  have "kept (run_hook (PostGet (db_Hooks_of e)) ?k e)" for e
    by (cases e) (auto simp: kept_def keeps_def run_hook_def on_runtime_def io_defs split: option.splits)
  then show ?thesis unfolding runtime_get_alone [of c k r ?k] by (rule get_kept)
qed

lemma db_Get_keeps: "db_Get c e w = (r, w') \<Longrightarrow> fval w' = fval w"
proof -
  have "kept (run_hook (PostGet (db_Hooks_of e)) (db_client c) e)" for e
  proof (cases e)
    case (EVolume v)
    have "cl_Get (db_client c) = entity_get c (db_client c)" using client_ties(1) [of c] by (simp add: db_Get_def)
    then have "kept (on_runtime (cl_Get (db_client c)) v)"
      by (auto simp: on_runtime_def split: option.splits intro!: kept_attempt kept_simple runtime_get_kept)
    then show ?thesis using EVolume by (auto simp: run_hook_def intro!: kept_attempt kept_simple)
  qed (simp_all add: kept_simple)
  from get_kept [OF this] show "db_Get c e w = (r, w') \<Longrightarrow> fval w' = fval w"
    unfolding client_ties kept_def by (rule keepsD)
qed

end

text \<open>
  A set of a volume that can be got is refused with an error and changes no record.
\<close>

theorem set_volume_once:
  assumes "db_store c fval free" "db_Get c (EVolume v) w = (Ok x, w1)" "db_Set c (EVolume v) w = (q, w2)"
  shows "(\<forall>x'. q \<noteq> Ok x') \<and> fval w2 = fval w"
proof -
  let ?k = "db_client c"
  have g: "cl_Get ?k (EVolume v) w = (Ok x, w1)" and k: "fval w1 = fval w"
    using assms(2) db_store.db_Get_keeps [OF assms(1,2)] by (simp_all add: db_Get_def)
  have s: "entity_set c ?k (EVolume v) w = (q, w2)" using assms(3) by (simp add: client_ties)
  show ?thesis
  proof (cases "db_Validate c (EVolume v)")
    case (Ok y)
    then have "y = EVolume v" by (auto elim!: bind_res_OkE)
    then have "(q, w2) = andThen (run_hook (Some preSetHook) ?k (EVolume v)) (\<lambda>obj.
       andThen (lift (with_obj obj (db_Path obj))) (\<lambda>p.
       attempt (kv_set c (db_qualified c p) (Write obj) set_nil) (\<lambda>e. fail (EtcdToErrored e, obj)) (\<lambda>_. ret obj))) w"
      using s Ok by (simp add: entity_set_def del: preSetHook.simps)
    moreover obtain e where "preSetHook ?k (EVolume v) w = (Err e, w1)" using g by (simp add: db_Copy_def)
    ultimately show ?thesis using k by (cases e) (auto simp: run_hook_def simp del: preSetHook.simps)
  qed (use s in \<open>auto simp: entity_set_def\<close>)
qed

text \<open>The store after a volume was set.\<close>

definition silver_world :: machine where
  "silver_world = snd (db_Set (db_host 1 ''volplugin'') (EVolume db_silver) machine_start)"

theorem set_volume_once_witness:
  "(\<forall>x'. fst (db_Set (db_host 1 ''volplugin'') (EVolume db_silver) silver_world) \<noteq> Ok x') \<and>
   mem_file (snd (db_Set (db_host 1 ''volplugin'') (EVolume db_silver) silver_world)) = mem_file silver_world"
proof -
  let ?c = "db_host 1 ''volplugin''"
  have "case fst (db_Get ?c (EVolume db_silver) silver_world) of Ok x \<Rightarrow> True | _ \<Rightarrow> False" by code_simp
  then obtain x w1 where "db_Get ?c (EVolume db_silver) silver_world = (Ok x, w1)"
    by (cases "db_Get ?c (EVolume db_silver) silver_world") (auto split: outcome.splits)
  from set_volume_once [OF db_memory.db_store_axioms this] show ?thesis by (metis prod.collapse)
qed

text \<open>But a volume whose runtime options are gone cannot be got, and is written over.\<close>

lemma unreadable_volume_overwritten:
  "case db_Delete (db_host 1 ''volplugin'') (ERuntime (NewRuntimeOptions ''gold'' ''db1'')) silver_world of
     (r, w) \<Rightarrow> case fst (db_Set (db_host 1 ''volplugin'') (EVolume (db_silver\<lparr>dv_unlocked := True\<rparr>)) w) of Ok x \<Rightarrow> True | _ \<Rightarrow> False"
  by code_simp

end
