(* ===== verification/Spec2Isabelle.thy ===== *)
theory Spec2Isabelle imports Lock_System Config_Store Mains Volplugin_Props Volcli_Props Db_Limits begin

text \<open>
  volplugin manages storage volumes of a cluster for docker. Its state is in etcd; every host runs the daemon
  \<open>volplugin\<close>, which docker asks to create, mount and unmount volumes; \<open>apiserver\<close> serves the
  administrator, who calls it with \<open>volcli\<close>; \<open>volsupervisor\<close>, one in the cluster, takes and prunes
  snapshots; \<open>volmigrate\<close> brings the stored keys to a new schema. They agree through use
  locks, keys of etcd written by compare-and-swap. This development models that Go program, from the strings and the
  JSON texts it stores to the handlers of its daemons, and proves what makes them correct, or what in them is not.

  \<^bold>\<open>How calls are modelled.\<close> A call of the code is a function from a world to an outcome and a world
  (\<open>io\<close> of Prelude). The outcome is a value (\<open>Ok\<close>), an error (\<open>Err\<close>), a run-time panic or the end of the
  process (\<open>Panic\<close>), or \<open>Hang\<close>. The world is a type variable: etcd (record \<open>client\<close>, theory Etcd) and the
  host (record \<open>host\<close>, theory Host: clock, commands, mount calls, files, name lookup, the order of a range
  over a map) are records of functions, since their code is not in the repository. What is relied on of them are locales:
  \<open>etcd\<close> (atomic conditional writes, with failed and lost replies), \<open>etcd_up\<close> (a reachable store),
  \<open>clock\<close>, \<open>lock_store\<close>, \<open>lock_world\<close>; of the code's own interfaces \<open>mount_driver_contract\<close> (a mount driver),
  \<open>volplugin_contract\<close> (a protocol of the plugin), \<open>versioned\<close> (a backend of the migrations), \<open>db_store\<close>
  (the client of package \<open>db\<close>), \<open>api_link\<close> (the way from the client to the server) and \<open>tar_sink\<close>. A store and a host in memory (\<open>machine_host\<close>) interpret every one of
  them; the witnesses run on these. A loop that retries for as long as a service fails takes its number of
  retries from \<open>h_fuel\<close> and is \<open>Hang\<close> after them; theorems about such loops say how much fuel is
  enough (\<open>acquire_correct\<close>: the timeout in tenths of a second). The functions written for loops that end are total.

  \<^bold>\<open>Theories and the code they model.\<close>
  \<^item> Prelude, Go_Strings, Json, Json_Struct, Json_Schema: outcomes, Go's string, path, strconv and duration
    functions, \<open>encoding/json\<close> (printer, parser, the filling of structs) and the JSON schemas of
    \<open>config/schema.go\<close> and \<open>config/validation.go\<close>.
  \<^item> Go_Errors: \<open>errors/\<close>, the sentinel errors, chains of combined errors, the translation of etcd's codes.
  \<^item> Etcd, Host: the interfaces above and their instances in memory.
  \<^item> Config_Types, Config_Client, Config_Use, Config_Policy, Merge, Config_Volume, Config_Global, Config_Store: package
    \<open>config\<close> (and \<open>merge\<close>): the structs, the key layout and the tarball dump, the use locks, policies with
    their revisions, volumes, the global configuration. Config_Store holds the abstract specification of the volumes,
    two tables, and the simulation of the code's operations by them.
  \<^item> Lock, Lock_System: \<open>lock/lock.go\<close>, and the step relation of many hosts that take and give back locks.
  \<^item> Storage, Mountscan, Ceph, Nfs, Backend, Control: \<open>storage/\<close>: the driver interfaces as records of methods, the
    scan of the kernel's mounts, the ceph and NFS drivers, the tables of drivers, \<open>storage/control\<close> and
    \<open>storage/cgroup\<close>.
  \<^item> Http, Mount_State, Api, Docker: \<open>api/\<close>: the handlers of the plugin over any implementation of the interface of
    \<open>api/interfaces.go\<close> (locale \<open>volplugin_contract\<close>), the mount counters, the collection of mounts, the stop
    channels, and docker's protocol, which interprets the locale. Api_Frame, Api_Answers, Api_Inv, Api_Props and
    Api_Success hold their properties: what a request leaves alone, that it is answered once, the invariant of every
    reachable state, and what a successful answer means.
  \<^item> Apiserver, Apiserver_Props, Serving: the handlers and routes of \<open>apiserver/daemon.go\<close>, its start, and how its
    router finds the handler of a request and the response is made.
  \<^item> Watch: \<open>watch/watch.go\<close> and the callbacks of package \<open>config\<close>.
  \<^item> Volsupervisor, Volsupervisor_Props: \<open>volsupervisor/\<close>. Volplugin_Daemon, Volplugin_Props: \<open>volplugin/\<close>.
    Processes: both as processes, from their configuration to their end, and \<open>info/debug.go\<close>. Composition: the daemons
    together through the store and its watches. Mains: the flags of the three daemons and what their \<open>main\<close> starts.
  \<^item> Cli, Net, Json_Indent, Volcli, Volcli_Props: \<open>volcli/\<close>: the tree of commands, each command's checks, request and
    output, and the commands together with the server they reach.
  \<^item> Migrate: \<open>volmigrate/\<close>: the registry of migrations, the run loop, the backend interface and its etcd engine.
  \<^item> Db_Types, Db_Entities, Db_Client, Db_Lemmas, Db_Props, Db_Limits: \<open>db/\<close>, the successor of \<open>config\<close> that no package
    imports yet: the entities with their keys, texts, validation and hooks; the client on etcd with its listing, watches and
    dump; its round trips, and where it parts from what it means to do.

  \<^bold>\<open>State.\<close> A daemon's state is a record over its world (\<open>srv\<close>, extended to \<open>api\<close> and
  \<open>supervisor\<close>); a call of another package runs inside it by \<open>inner\<close>. A goroutine that refreshes a lock is an
  entry of a list and is run by the messages it gets; another goroutine of the supervisor is a task run as one
  call; the supervisor as a process is the relation \<open>sup_step\<close>, whose steps are the calls of its goroutines, those that
  return or panic, in any order. The mutexes of the code make one call atomic, and so is a step here. Requests of one daemon are
  taken one after the other; hosts are interleaved at each operation on a lock.

  \<^bold>\<open>What the lemmas show.\<close> Mutual exclusion of the locks over every interleaving, with failures; the contract of
  each lock operation, the termination of \<open>acquire\<close>; round trips of every stored record; that policies and
  volumes are validated as their declarative reading says, never lost or overwritten, and refine tables; the options
  merged into a policy; that mount paths stay in their directory; the parsers against the texts they read; the invariant,
  the frame and the answers of the plugin's requests; the bounds of the global configuration; the supervisor's
  choice of snapshots, and that as a process it refreshes its own lock alone and gives it back. Through client, router,
  handlers and store: what is uploaded is what is shown, a removal that reports no error has removed, a command runs under
  its locks only. A global configuration uploaded to the API server reaches every daemon, and a snapshot asked for
  there is taken by the supervisor. The migrations never lower the stored version and can be repeated. An entity of \<open>db\<close> is got as it was
  set, and its watches are those of its table. Where the code does not do what it means to, the theorem states what it does: locks left behind
  by a failed acquisition, volumes with locks that are never snapshotted, an unmount that breaks the counter, a creation
  answered without a record, a frequency that ends the supervisor, a watcher that stops for good, a prefix under which \<open>db\<close>
  reads nothing, a record that ends its listing.

  \<^bold>\<open>Bounds and idealizations.\<close> Sizes and counts read from JSON are bounded as their Go types are; durations of the
  global configuration and the number of snapshots to keep wrap at 64 bits; the mount counters are unbounded integers
  (a count of \<open>2 ^ 63\<close> mounts is not reached). Conversions of durations through floating point are taken as
  exact. Messages of formatted errors are their fixed text; log lines are not modelled.
  The entities of \<open>db\<close> are values: a pointer or a map that two of them share after \<open>Copy\<close>, or with the package's
  defaults, is a copy (but for the driver options in \<open>preSetHook\<close>, whose sharing matters), and a record that does not fit
  its type leaves the entity as it was. Its hooks call the client again; three levels are enough (\<open>client_ties\<close>).

  \<^bold>\<open>Not modelled.\<close> The vendored packages, which are the parameters above, among them the parsing of the command line. The
  delivery of signals, sockets, log levels and the output of progress lines. The null driver: its build constraint
  (\<open>nope\<close>) excludes it, and it no longer fits \<open>storage.Volume\<close>, whose field \<open>Source\<close> it sets. The driver of the
  tests, under the same constraint, and \<open>systemtests\<close>.
\<close>

end
